(* ===== verification/Prelude.thy ===== *)
theory Prelude
  imports Main "HOL-Library.Word"
begin

unbundle bit_operations_syntax

text \<open>
  Shared vocabulary of the development: bytes and fixed-width integers, results
  with an error value (Rust's \<open>Result<T, String>\<close>), big-endian encoding of
  integers, byte-string literals, slices, decimal and hexadecimal text, and the
  trimming operations of \<open>str\<close> on UTF-8 bytes. Nothing here is about one
  component; the lemmas are the ones several components use.
\<close>

section \<open>Types\<close>

type_synonym byte = "8 word"
type_synonym bytes = "byte list"
type_synonym u16 = "16 word"
type_synonym u32 = "32 word"
type_synonym u64 = "64 word"

text \<open>
  An error is the message the code formats: the fixed part of the \<open>format!\<close>
  string and the values interpolated into it. \<open>Ctx\<close> is a
  \<open>map_err(|e| format!("what: {e}"))\<close> around another message.
\<close>

datatype arg = Num nat | Txt bytes

datatype err = Msg string "arg list" | Ctx string err

type_synonym 'a res = "err + 'a"

abbreviation Ok :: "'a \<Rightarrow> 'e + 'a" where "Ok \<equiv> Inr"
abbreviation Err :: "'e \<Rightarrow> 'e + 'a" where "Err \<equiv> Inl"

named_theorems res_simps \<open>simplification of results that are known to be \<open>Ok\<close>\<close>
named_theorems byte_simps \<open>lengths and round trips of big-endian fields\<close>

section \<open>Results\<close>

text \<open>The \<open>?\<close> operator, and \<open>map_err\<close> with a context.\<close>

definition rbind :: "'e + 'a \<Rightarrow> ('a \<Rightarrow> 'e + 'b) \<Rightarrow> 'e + 'b" where
  "rbind m f = (case m of Inl e \<Rightarrow> Inl e | Inr x \<Rightarrow> f x)"

definition map_err :: "('e \<Rightarrow> 'd) \<Rightarrow> 'e + 'a \<Rightarrow> 'd + 'a" where
  "map_err f m = (case m of Inl e \<Rightarrow> Inl (f e) | Inr x \<Rightarrow> Inr x)"

definition ctx :: "string \<Rightarrow> 'a res \<Rightarrow> 'a res" where
  "ctx s m = (case m of Inl e \<Rightarrow> Inl (Ctx s e) | Inr x \<Rightarrow> Inr x)"

lemma rbind_simps [simp]:
  "rbind (Inl e) f = Inl e"
  "rbind (Inr x) f = f x"
  by (simp_all add: rbind_def)

lemma ctx_simps [simp]:
  "ctx s (Inl e) = Inl (Ctx s e)"
  "ctx s (Inr x) = Inr x"
  by (simp_all add: ctx_def)

lemma map_err_simps [simp]:
  "map_err f (Inl e) = Inl (f e)"
  "map_err f (Inr x) = Inr x"
  by (simp_all add: map_err_def)

lemma map_err_Ok [res_simps]: "map_err f m = Inr y \<longleftrightarrow> m = Inr y"
  by (cases m) auto

lemma rbind_Ok [res_simps]: "rbind m f = Inr y \<longleftrightarrow> (\<exists>x. m = Inr x \<and> f x = Inr y)"
  by (cases m) auto

lemma ctx_Ok [res_simps]: "ctx s m = Inr y \<longleftrightarrow> m = Inr y"
  by (cases m) auto

lemma rbind_Err: "rbind m f = Inl e \<longleftrightarrow> m = Inl e \<or> (\<exists>x. m = Inr x \<and> f x = Inl e)"
  by (cases m) auto

lemma rbind_assoc: "rbind (rbind m f) g = rbind m (\<lambda>x. rbind (f x) g)"
  by (cases m) auto

lemma rbind_cong [fundef_cong]:
  "m = m' \<Longrightarrow> (\<And>x. m' = Inr x \<Longrightarrow> f x = f' x) \<Longrightarrow> rbind m f = rbind m' f'"
  by (cases m') auto

text \<open>As a congruence of the simplifier: run a chain of steps from the front only.\<close>

lemma rbind_weak_cong: "m = m' \<Longrightarrow> rbind m f = rbind m' f"
  by simp

lemma if_Err_Ok [res_simps]: "(if c then Inl e else m) = Inr y \<longleftrightarrow> \<not> c \<and> m = Inr y"
  by auto

lemma if_Ok_Err [res_simps]: "(if c then m else Inl e) = Inr y \<longleftrightarrow> c \<and> m = Inr y"
  by auto

definition is_ok :: "'e + 'a \<Rightarrow> bool" where
  "is_ok m = (case m of Inl _ \<Rightarrow> False | Inr _ \<Rightarrow> True)"

lemma is_ok_simps [simp]: "is_ok (Inl e) = False" "is_ok (Inr x) = True"
  by (simp_all add: is_ok_def)

lemma is_ok_iff: "is_ok m \<longleftrightarrow> (\<exists>x. m = Inr x)"
  by (cases m) auto

text \<open>\<open>Option::ok_or\<close> and \<open>Result::ok\<close>.\<close>

definition ok_or :: "'e \<Rightarrow> 'a option \<Rightarrow> 'e + 'a" where
  "ok_or e x = (case x of None \<Rightarrow> Inl e | Some y \<Rightarrow> Inr y)"

definition res_ok :: "'e + 'a \<Rightarrow> 'a option" where
  "res_ok m = (case m of Inl _ \<Rightarrow> None | Inr x \<Rightarrow> Some x)"

lemma ok_or_simps [simp]: "ok_or e None = Inl e" "ok_or e (Some y) = Inr y"
  by (simp_all add: ok_or_def)

lemma ok_or_Ok [res_simps]: "ok_or e x = Inr y \<longleftrightarrow> x = Some y"
  by (cases x) auto

lemma res_ok_simps [simp]: "res_ok (Inl e) = None" "res_ok (Inr x) = Some x"
  by (simp_all add: res_ok_def)

text \<open>\<open>collect::<Result<Vec<_>, _>>()\<close>: the first error, or all the values.\<close>

fun collect :: "('e + 'a) list \<Rightarrow> 'e + 'a list" where
  "collect [] = Inr []"
| "collect (m # ms) = rbind m (\<lambda>x. rbind (collect ms) (\<lambda>xs. Inr (x # xs)))"

lemma collect_Ok: "collect ms = Inr xs \<longleftrightarrow> ms = map Inr xs"
  by (induction ms arbitrary: xs) (auto simp: rbind_Ok Cons_eq_map_conv)

section \<open>Big-endian integers\<close>

lemma unat_bound: "unat (w :: 'a :: len word) < 2 ^ LENGTH('a)"
  by (rule unsigned_less)

lemma unat_inject: "unat (a :: 'a :: len word) = unat b \<longleftrightarrow> a = b"
  using unsigned_word_eqI [of a b] by auto

text \<open>\<open>be_enc n k\<close> is the low \<open>n\<close> bytes of \<open>k\<close>, most significant first.\<close>

fun be_enc :: "nat \<Rightarrow> nat \<Rightarrow> bytes" where
  "be_enc 0 k = []"
| "be_enc (Suc n) k = be_enc n (k div 256) @ [of_nat (k mod 256)]"

definition be_dec :: "bytes \<Rightarrow> nat" where
  "be_dec bs = foldl (\<lambda>a b. a * 256 + unat b) 0 bs"

lemma be_dec_Nil [simp]: "be_dec [] = 0"
  by (simp add: be_dec_def)

lemma be_dec_snoc [simp]: "be_dec (bs @ [b]) = be_dec bs * 256 + unat b"
  by (simp add: be_dec_def)

lemma length_be_enc [simp]: "length (be_enc n k) = n"
  by (induction n arbitrary: k) auto

lemma unat_byte_lt: "unat (b :: byte) < 256"
  using unat_bound [of b] by simp

lemma unat_of_nat_byte: "unat (of_nat (k mod 256) :: byte) = k mod 256"
  by (simp add: unat_of_nat)

lemma be_dec_enc: "be_dec (be_enc n k) = k mod 256 ^ n"
proof (induction n arbitrary: k)
  case 0
  then show ?case by simp
next
  case (Suc n)
  have "be_dec (be_enc (Suc n) k) = (k div 256 mod 256 ^ n) * 256 + k mod 256"
    by (simp add: Suc unat_of_nat_byte)
  also have "\<dots> = k mod (256 * 256 ^ n)"
    by (simp add: mod_mult2_eq)
  finally show ?case by simp
qed

lemma be_dec_lt: "be_dec bs < 256 ^ length bs"
proof (induction bs rule: rev_induct)
  case (snoc b bs)
  have "be_dec bs * 256 + unat b < (be_dec bs + 1) * 256"
    using unat_byte_lt [of b] by simp
  also have "\<dots> \<le> 256 ^ length bs * 256"
    using snoc by (intro mult_le_mono1) simp
  finally show ?case by (simp add: mult.commute)
qed simp

lemma be_enc_dec: "be_enc (length bs) (be_dec bs) = bs"
proof (induction bs rule: rev_induct)
  case (snoc b bs)
  have "(be_dec bs * 256 + unat b) div 256 = be_dec bs"
    and "(be_dec bs * 256 + unat b) mod 256 = unat b"
    using unat_byte_lt [of b] by simp_all
  with snoc show ?case by simp
qed simp

lemma be_enc_dec_len: "length bs = n \<Longrightarrow> be_enc n (be_dec bs) = bs"
  using be_enc_dec by blast

lemma be_enc_inj: "k < 256 ^ n \<Longrightarrow> k' < 256 ^ n \<Longrightarrow> be_enc n k = be_enc n k' \<Longrightarrow> k = k'"
  by (metis be_dec_enc mod_less)

text \<open>The widths the code uses: \<open>to_be_bytes\<close> and \<open>from_be_bytes\<close>.\<close>

definition be16 :: "u16 \<Rightarrow> bytes" where "be16 w = be_enc 2 (unat w)"
definition be32 :: "u32 \<Rightarrow> bytes" where "be32 w = be_enc 4 (unat w)"
definition be64 :: "u64 \<Rightarrow> bytes" where "be64 w = be_enc 8 (unat w)"

definition un16 :: "bytes \<Rightarrow> u16" where "un16 bs = of_nat (be_dec bs)"
definition un32 :: "bytes \<Rightarrow> u32" where "un32 bs = of_nat (be_dec bs)"
definition un64 :: "bytes \<Rightarrow> u64" where "un64 bs = of_nat (be_dec bs)"

lemma length_be [simp, byte_simps]:
  "length (be16 a) = 2" "length (be32 b) = 4" "length (be64 c) = 8"
  by (simp_all add: be16_def be32_def be64_def)

lemma be_nonempty [simp]: "be16 a \<noteq> []" "be32 b \<noteq> []" "be64 c \<noteq> []"
  using length_be(1) [of a] length_be(2) [of b] length_be(3) [of c] by force+

lemma un_be [simp, byte_simps]: "un16 (be16 a) = a" "un32 (be32 b) = b" "un64 (be64 c) = c"
  using unat_bound [of a] unat_bound [of b] unat_bound [of c]
  by (simp_all add: un16_def un32_def un64_def be16_def be32_def be64_def be_dec_enc)

lemma be_un:
  "length x = 2 \<Longrightarrow> be16 (un16 x) = x"
  "length y = 4 \<Longrightarrow> be32 (un32 y) = y"
  "length z = 8 \<Longrightarrow> be64 (un64 z) = z"
  using be_dec_lt [of x] be_dec_lt [of y] be_dec_lt [of z]
  by (simp_all add: be16_def be32_def be64_def un16_def un32_def un64_def unat_of_nat be_enc_dec_len)

lemma unat_un16: "length x = 2 \<Longrightarrow> unat (un16 x) = be_dec x"
  using be_dec_lt [of x] by (simp add: un16_def unat_of_nat)

lemma unat_un32: "length x = 4 \<Longrightarrow> unat (un32 x) = be_dec x"
  using be_dec_lt [of x] by (simp add: un32_def unat_of_nat)

lemma be_inj [simp]: "be16 a = be16 a' \<longleftrightarrow> a = a'" "be32 b = be32 b' \<longleftrightarrow> b = b'" "be64 c = be64 c' \<longleftrightarrow> c = c'"
  by (metis un_be)+

text \<open>A length cast to a field (\<open>len() as u16\<close>): the low bits, as Rust's \<open>as\<close>.\<close>

definition len16 :: "bytes \<Rightarrow> u16" where "len16 bs = of_nat (length bs)"
definition len32 :: "bytes \<Rightarrow> u32" where "len32 bs = of_nat (length bs)"

lemma unat_len16 [simp]: "length bs < 2 ^ 16 \<Longrightarrow> unat (len16 bs) = length bs"
  by (simp add: len16_def unat_of_nat)

lemma unat_len32 [simp]: "length bs < 2 ^ 32 \<Longrightarrow> unat (len32 bs) = length bs"
  by (simp add: len32_def unat_of_nat)

section \<open>Digests\<close>

text \<open>
  SHA-256 is the crate \<open>sha2\<close>, outside the sources: a parameter \<open>H\<close> of every
  definition that hashes. Its result is a \<open>[u8; 32]\<close> in the code's types, so the
  parameter gives a 256-bit value and \<open>sha256 H\<close> its 32 bytes. Nothing is assumed
  about \<open>H\<close>: where two inputs must be told apart, the theorem says
  "equal, or a collision of \<open>H\<close>".
\<close>

type_synonym hash = "bytes \<Rightarrow> 256 word"

definition sha256 :: "hash \<Rightarrow> bytes \<Rightarrow> bytes" where
  "sha256 H m = be_enc 32 (unat (H m))"

definition collision :: "hash \<Rightarrow> bytes \<Rightarrow> bytes \<Rightarrow> bool" where
  "collision H x y \<longleftrightarrow> x \<noteq> y \<and> H x = H y"

lemma length_sha256 [simp, byte_simps]: "length (sha256 H m) = 32"
  by (simp add: sha256_def)

lemma sha256_eq_iff: "sha256 H x = sha256 H y \<longleftrightarrow> H x = H y"
proof
  assume "sha256 H x = sha256 H y"
  moreover have "unat (H x) < 256 ^ 32" "unat (H y) < 256 ^ 32"
    using unat_bound [of "H x"] unat_bound [of "H y"] by simp_all
  ultimately have "unat (H x) = unat (H y)"
    unfolding sha256_def using be_enc_inj by blast
  then show "H x = H y" by (simp only: unat_inject)
qed (simp add: sha256_def)

lemma sha256_eq_or_collision: "sha256 H x = sha256 H y \<Longrightarrow> x = y \<or> collision H x y"
  by (auto simp: sha256_eq_iff collision_def)

section \<open>Slices\<close>

definition slice :: "nat \<Rightarrow> nat \<Rightarrow> 'a list \<Rightarrow> 'a list" where
  "slice i j xs = take (j - i) (drop i xs)"

lemma length_slice [simp]: "length (slice i j xs) = min (j - i) (length xs - i)"
  by (simp add: slice_def)

lemma slice_append_slice: "i \<le> j \<Longrightarrow> j \<le> k \<Longrightarrow> slice i j xs @ slice j k xs = slice i k xs"
proof -
  assume "i \<le> j" "j \<le> k"
  then have "drop j xs = drop (j - i) (drop i xs)" "k - i = (j - i) + (k - j)" by simp_all
  then show ?thesis unfolding slice_def by (simp only: take_add)
qed

lemma slice_full: "slice 0 (length xs) xs = xs"
  by (simp add: slice_def)

lemma slice_0_append [simp]: "length a = n \<Longrightarrow> slice 0 n (a @ b) = a"
  by (simp add: slice_def)

lemma slice_append_skip: "length a \<le> i \<Longrightarrow> slice i j (a @ b) = slice (i - length a) (j - length a) b"
  by (simp add: slice_def)

text \<open>A prefix of zero bytes brings a shorter value to a fixed width, or a suffix does.\<close>

definition pad_right :: "nat \<Rightarrow> bytes \<Rightarrow> bytes" where
  "pad_right n xs = take n xs @ replicate (n - length xs) 0"

definition pad_left :: "nat \<Rightarrow> bytes \<Rightarrow> bytes" where
  "pad_left n xs = replicate (n - length xs) 0 @ xs"

lemma length_pad_right [simp]: "length (pad_right n xs) = n"
  by (simp add: pad_right_def)

lemma length_pad_left: "length xs \<le> n \<Longrightarrow> length (pad_left n xs) = n"
  by (simp add: pad_left_def)

end
