(* ===== verification/StrBytes.thy ===== *)
theory StrBytes
  imports Prelude
begin

text \<open>
  The operations of Rust's \<open>str\<close>, integer parsing and integer formatting that the
  sources use. A \<open>str\<close> is its UTF-8 bytes, as in Rust; indices and lengths count
  bytes. \<open>trim\<close> removes every character with the Unicode property
  \<open>White_Space\<close>, including the multi-byte ones.
\<close>

section \<open>Literals and byte classes\<close>

definition lit :: "string \<Rightarrow> bytes" where
  "lit s = map of_char s"

definition is_digit :: "byte \<Rightarrow> bool" where
  "is_digit b \<longleftrightarrow> 48 \<le> unat b \<and> unat b \<le> 57"

definition is_upper :: "byte \<Rightarrow> bool" where
  "is_upper b \<longleftrightarrow> 65 \<le> unat b \<and> unat b \<le> 90"

definition is_hexdigit :: "byte \<Rightarrow> bool" where
  "is_hexdigit b \<longleftrightarrow> is_digit b \<or> (65 \<le> unat b \<and> unat b \<le> 70) \<or> (97 \<le> unat b \<and> unat b \<le> 102)"

definition is_graphic :: "byte \<Rightarrow> bool" where
  "is_graphic b \<longleftrightarrow> 33 \<le> unat b \<and> unat b \<le> 126"

definition is_ascii :: "byte \<Rightarrow> bool" where
  "is_ascii b \<longleftrightarrow> unat b < 128"

definition to_lower :: "byte \<Rightarrow> byte" where
  "to_lower b = (if is_upper b then b + 32 else b)"

definition eq_ignore_case :: "bytes \<Rightarrow> bytes \<Rightarrow> bool" where
  "eq_ignore_case a b \<longleftrightarrow> map to_lower a = map to_lower b"

lemma length_lit [simp]: "length (lit s) = length s"
  by (simp add: lit_def)

section \<open>UTF-8\<close>

definition is_cont :: "byte \<Rightarrow> bool" where
  "is_cont b \<longleftrightarrow> 128 \<le> unat b \<and> unat b \<le> 191"

definition byte_at :: "nat \<Rightarrow> bytes \<Rightarrow> byte" where
  "byte_at i xs = (if i < length xs then xs ! i else 0)"

text \<open>
  One step of the decoder of \<open>core::str\<close>: whether a character starts here, and the
  number of bytes of that character or of the malformed part.
\<close>

definition utf8_step :: "bytes \<Rightarrow> bool \<times> nat" where
  "utf8_step xs =
     (let b0 = unat (byte_at 0 xs); b1 = byte_at 1 xs; b2 = byte_at 2 xs; b3 = byte_at 3 xs in
      if b0 < 128 then (True, 1)
      else if 194 \<le> b0 \<and> b0 \<le> 223 then (if is_cont b1 then (True, 2) else (False, 1))
      else if 224 \<le> b0 \<and> b0 \<le> 239 then
        (if \<not> (is_cont b1 \<and> (b0 = 224 \<longrightarrow> 160 \<le> unat b1) \<and> (b0 = 237 \<longrightarrow> unat b1 \<le> 159)) then (False, 1)
         else if is_cont b2 then (True, 3) else (False, 2))
      else if 240 \<le> b0 \<and> b0 \<le> 244 then
        (if \<not> (is_cont b1 \<and> (b0 = 240 \<longrightarrow> 144 \<le> unat b1) \<and> (b0 = 244 \<longrightarrow> unat b1 \<le> 143)) then (False, 1)
         else if \<not> is_cont b2 then (False, 2)
         else if is_cont b3 then (True, 4) else (False, 3))
      else (False, 1))"

lemma utf8_step_pos: "0 < snd (utf8_step xs)"
  by (simp add: utf8_step_def Let_def)

lemma utf8_step_pos': "(ok, n) = utf8_step xs \<Longrightarrow> 0 < n"
  using utf8_step_pos [of xs] by (metis snd_conv)

text \<open>\<open>from_utf8\<close> succeeds, and \<open>from_utf8_lossy\<close>.\<close>

function utf8_valid :: "bytes \<Rightarrow> bool" where
  "utf8_valid xs =
     (if xs = [] then True
      else case utf8_step xs of (ok, n) \<Rightarrow> ok \<and> utf8_valid (drop n xs))"
  by pat_completeness auto
termination
  by (relation "measure length") (auto dest: utf8_step_pos')

function utf8_lossy :: "bytes \<Rightarrow> bytes" where
  "utf8_lossy xs =
     (if xs = [] then []
      else case utf8_step xs of (ok, n) \<Rightarrow>
        (if ok then take n xs else [239, 191, 189]) @ utf8_lossy (drop n xs))"
  by pat_completeness auto
termination
  by (relation "measure length") (auto dest: utf8_step_pos')

declare utf8_valid.simps [simp del] utf8_lossy.simps [simp del]

lemma utf8_valid_Nil [simp]: "utf8_valid []"
  by (simp add: utf8_valid.simps)

lemma utf8_valid_ascii: "list_all is_ascii xs \<Longrightarrow> utf8_valid xs"
proof (induction xs)
  case (Cons x xs)
  then have "utf8_step (x # xs) = (True, 1)"
    by (simp add: utf8_step_def byte_at_def is_ascii_def)
  with Cons show ?case by (simp add: utf8_valid.simps [of "x # xs"])
qed simp

lemma utf8_lossy_valid: "utf8_valid xs \<Longrightarrow> utf8_lossy xs = xs"
proof (induction xs rule: utf8_lossy.induct)
  case (1 xs)
  show ?case
  proof (cases "xs = []")
    case False
    obtain ok n where st: "utf8_step xs = (ok, n)" by fastforce
    from "1.prems" False st have "ok" "utf8_valid (drop n xs)"
      by (simp_all add: utf8_valid.simps [of xs])
    with "1.IH" [OF False st [symmetric]] have "utf8_lossy (drop n xs) = drop n xs"
      by simp
    with False st \<open>ok\<close> show ?thesis
      by (simp add: utf8_lossy.simps [of xs])
  qed (simp add: utf8_lossy.simps)
qed

section \<open>Prefixes, suffixes, splitting\<close>

definition starts_with :: "bytes \<Rightarrow> bytes \<Rightarrow> bool" where
  "starts_with p xs \<longleftrightarrow> take (length p) xs = p"

definition ends_with :: "bytes \<Rightarrow> bytes \<Rightarrow> bool" where
  "ends_with p xs \<longleftrightarrow> length p \<le> length xs \<and> drop (length xs - length p) xs = p"

definition strip_prefix :: "bytes \<Rightarrow> bytes \<Rightarrow> bytes option" where
  "strip_prefix p xs = (if starts_with p xs then Some (drop (length p) xs) else None)"

definition strip_suffix :: "bytes \<Rightarrow> bytes \<Rightarrow> bytes option" where
  "strip_suffix p xs = (if ends_with p xs then Some (take (length xs - length p) xs) else None)"

lemma strip_prefix_Some: "strip_prefix p xs = Some ys \<longleftrightarrow> xs = p @ ys"
proof
  assume "strip_prefix p xs = Some ys"
  then show "xs = p @ ys"
    unfolding strip_prefix_def starts_with_def
    by (metis append_take_drop_id option.inject option.distinct(1))
qed (simp add: strip_prefix_def starts_with_def)

lemma strip_suffix_Some: "strip_suffix p xs = Some ys \<longleftrightarrow> xs = ys @ p"
proof
  assume "strip_suffix p xs = Some ys"
  then show "xs = ys @ p"
    unfolding strip_suffix_def ends_with_def
    by (metis append_take_drop_id option.inject option.distinct(1))
qed (simp add: strip_suffix_def ends_with_def)

text \<open>\<open>split(c)\<close>: one piece more than there are separators.\<close>

fun split_on :: "byte \<Rightarrow> bytes \<Rightarrow> bytes list" where
  "split_on c [] = [[]]"
| "split_on c (x # xs) =
     (if x = c then [] # split_on c xs
      else case split_on c xs of [] \<Rightarrow> [[x]] | p # ps \<Rightarrow> (x # p) # ps)"

fun join_on :: "byte \<Rightarrow> bytes list \<Rightarrow> bytes" where
  "join_on c [] = []"
| "join_on c [p] = p"
| "join_on c (p # q # ps) = p @ c # join_on c (q # ps)"

lemma split_on_nonempty [simp]: "split_on c xs \<noteq> []"
  by (induction xs) (auto split: list.splits)

lemma join_split: "join_on c (split_on c xs) = xs"
proof (induction xs)
  case (Cons x xs)
  obtain p ps where "split_on c xs = p # ps"
    by (cases "split_on c xs") auto
  with Cons show ?case by (cases ps) auto
qed simp

lemma split_on_no_sep: "\<forall>p \<in> set (split_on c xs). c \<notin> set p"
  by (induction xs) (auto split: list.splits)

lemma split_on_no_sep_id: "c \<notin> set xs \<Longrightarrow> split_on c xs = [xs]"
  by (induction xs) auto

lemma split_on_append_sep: "c \<notin> set a \<Longrightarrow> split_on c (a @ c # b) = a # split_on c b"
  by (induction a) auto

text \<open>\<open>split_once\<close> and \<open>rsplit_once\<close>: at the first and at the last separator.\<close>

fun split_once :: "byte \<Rightarrow> bytes \<Rightarrow> (bytes \<times> bytes) option" where
  "split_once c [] = None"
| "split_once c (x # xs) =
     (if x = c then Some ([], xs)
      else case split_once c xs of None \<Rightarrow> None | Some (a, b) \<Rightarrow> Some (x # a, b))"

definition rsplit_once :: "byte \<Rightarrow> bytes \<Rightarrow> (bytes \<times> bytes) option" where
  "rsplit_once c xs = (case split_once c (rev xs) of None \<Rightarrow> None | Some (b, a) \<Rightarrow> Some (rev a, rev b))"

lemma split_once_Some: "split_once c xs = Some (a, b) \<longleftrightarrow> xs = a @ c # b \<and> c \<notin> set a"
proof (induction xs arbitrary: a)
  case (Cons x xs)
  show ?case
  proof (cases "x = c")
    case True
    then show ?thesis by (cases a) auto
  next
    case False
    then have "split_once c (x # xs) = Some (a, b) \<longleftrightarrow>
        (\<exists>a'. a = x # a' \<and> split_once c xs = Some (a', b))"
      by (auto split: option.splits)
    also have "\<dots> \<longleftrightarrow> x # xs = a @ c # b \<and> c \<notin> set a"
      unfolding Cons.IH using False by (cases a) auto
    finally show ?thesis .
  qed
qed simp

lemma rsplit_once_Some: "rsplit_once c xs = Some (a, b) \<longleftrightarrow> xs = a @ c # b \<and> c \<notin> set b"
proof -
  have "rsplit_once c xs = Some (a, b) \<longleftrightarrow> split_once c (rev xs) = Some (rev b, rev a)"
    by (auto simp: rsplit_once_def split: option.splits)
  also have "\<dots> \<longleftrightarrow> rev xs = rev b @ c # rev a \<and> c \<notin> set b"
    by (simp add: split_once_Some)
  also have "rev xs = rev b @ c # rev a \<longleftrightarrow> xs = a @ c # b"
    using rev_is_rev_conv [of xs "a @ c # b"] by (simp del: rev_is_rev_conv)
  finally show ?thesis .
qed

text \<open>\<open>str::lines\<close>: a line ends at LF or CR LF; no empty line after a final LF.\<close>

definition strip_cr :: "bytes \<Rightarrow> bytes" where
  "strip_cr l = (if l \<noteq> [] \<and> last l = 13 then butlast l else l)"

definition str_lines :: "bytes \<Rightarrow> bytes list" where
  "str_lines xs =
     (let ps = split_on 10 xs in
      map strip_cr (butlast ps) @ (if last ps = [] then [] else [last ps]))"

section \<open>White space\<close>

text \<open>
  The number of bytes of the white-space character at the front (0 if there is none):
  U+0009 to U+000D, U+0020, U+0085, U+00A0, U+1680, U+2000 to U+200A, U+2028, U+2029,
  U+202F, U+205F, U+3000. \<open>rws_len\<close> reads the reversed bytes.
\<close>

fun ws_len :: "bytes \<Rightarrow> nat" where
  "ws_len (a # b # c # _) =
     (if 9 \<le> unat a \<and> unat a \<le> 13 \<or> a = 32 then 1
      else if a = 194 \<and> (b = 133 \<or> b = 160) then 2
      else if a = 225 \<and> b = 154 \<and> c = 128 then 3
      else if a = 226 \<and> b = 128 \<and> (128 \<le> unat c \<and> unat c \<le> 138 \<or> c = 168 \<or> c = 169 \<or> c = 175) then 3
      else if a = 226 \<and> b = 129 \<and> c = 159 then 3
      else if a = 227 \<and> b = 128 \<and> c = 128 then 3 else 0)"
| "ws_len [a, b] = (if 9 \<le> unat a \<and> unat a \<le> 13 \<or> a = 32 then 1
      else if a = 194 \<and> (b = 133 \<or> b = 160) then 2 else 0)"
| "ws_len [a] = (if 9 \<le> unat a \<and> unat a \<le> 13 \<or> a = 32 then 1 else 0)"
| "ws_len [] = 0"

definition rws_len :: "bytes \<Rightarrow> nat" where
  "rws_len xs =
     (if ws_len (rev (take 1 xs)) = 1 then 1
      else if ws_len (rev (take 2 xs)) = 2 then 2
      else if ws_len (rev (take 3 xs)) = 3 then 3 else 0)"

function trim_start :: "bytes \<Rightarrow> bytes" where
  "trim_start xs = (if xs = [] \<or> ws_len xs = 0 then xs else trim_start (drop (ws_len xs) xs))"
  by pat_completeness auto
termination
  by (relation "measure length") auto

function rtrim :: "bytes \<Rightarrow> bytes" where
  "rtrim xs = (if xs = [] \<or> rws_len xs = 0 then xs else rtrim (drop (rws_len xs) xs))"
  by pat_completeness auto
termination
  by (relation "measure length") auto

declare trim_start.simps [simp del] rtrim.simps [simp del]

definition trim_end :: "bytes \<Rightarrow> bytes" where
  "trim_end xs = rev (rtrim (rev xs))"

definition trim :: "bytes \<Rightarrow> bytes" where
  "trim xs = trim_end (trim_start xs)"

text \<open>\<open>trim_matches\<close> and \<open>trim_end_matches\<close> over a class of ASCII bytes.\<close>

definition trim_end_matches :: "(byte \<Rightarrow> bool) \<Rightarrow> bytes \<Rightarrow> bytes" where
  "trim_end_matches p xs = rev (dropWhile p (rev xs))"

definition trim_matches :: "(byte \<Rightarrow> bool) \<Rightarrow> bytes \<Rightarrow> bytes" where
  "trim_matches p xs = trim_end_matches p (dropWhile p xs)"

lemma graphic_not_ws:
  assumes "is_graphic x"
  shows "\<not> (9 \<le> unat x \<and> unat x \<le> 13)" "x \<noteq> 32" "x \<noteq> 194" "x \<noteq> 225" "x \<noteq> 226" "x \<noteq> 227"
    "x \<noteq> 133" "x \<noteq> 160" "\<not> 128 \<le> unat x" "x \<noteq> 128" "x \<noteq> 159" "x \<noteq> 168" "x \<noteq> 169" "x \<noteq> 175"
  using assms by (auto simp: is_graphic_def)

lemma ws_len_graphic: "is_graphic x \<Longrightarrow> ws_len (x # ys) = 0"
  by (cases "x # ys" rule: ws_len.cases) (simp_all add: graphic_not_ws)

lemma ws_len_last_graphic:
  "is_graphic x \<Longrightarrow> ws_len [a, x] \<noteq> 2 \<and> ws_len [a, x] \<noteq> 3 \<and> ws_len [b, a, x] \<noteq> 3"
  by (simp add: graphic_not_ws)

lemma rws_len_graphic: "is_graphic x \<Longrightarrow> rws_len (x # ys) = 0"
  using ws_len_graphic [of x "[]"] ws_len_last_graphic [of x]
  by (cases ys; cases "tl ys") (auto simp: rws_len_def simp del: ws_len.simps)

lemma trim_graphic_edges:
  assumes "xs \<noteq> []" "is_graphic (hd xs)" "is_graphic (last xs)"
  shows "trim xs = xs"
proof -
  have "ws_len xs = 0"
    using assms(1,2) by (cases xs) (simp_all add: ws_len_graphic)
  then have start: "trim_start xs = xs" by (simp add: trim_start.simps [of xs])
  have "rws_len (rev xs) = 0"
    using assms(1,3) by (cases "rev xs") (auto simp: rws_len_graphic dest: arg_cong [where f = hd] simp: hd_rev)
  then have "rtrim (rev xs) = rev xs" by (simp add: rtrim.simps [of "rev xs"])
  then show ?thesis by (simp add: trim_def trim_end_def start)
qed

end
