(* ===== verification/NumText.thy ===== *)
theory NumText
  imports StrBytes
begin

text \<open>
  Integers as text: \<open>to_string\<close> and \<open>{:0w}\<close>, \<open>from_str_radix\<close> with its
  bounds and its optional plus sign, and two-digit hexadecimal.
\<close>

section \<open>Decimal output\<close>

fun dec :: "nat \<Rightarrow> bytes" where
  "dec n = (if n < 10 then [of_nat (48 + n)] else dec (n div 10) @ [of_nat (48 + n mod 10)])"

declare dec.simps [simp del]

definition dec_pad :: "nat \<Rightarrow> nat \<Rightarrow> bytes" where
  "dec_pad w n = replicate (w - length (dec n)) 48 @ dec n"

section \<open>Parsing\<close>

definition digit_val :: "byte \<Rightarrow> nat" where
  "digit_val b =
     (if is_digit b then unat b - 48
      else if 97 \<le> unat b \<and> unat b \<le> 122 then unat b - 87
      else if 65 \<le> unat b \<and> unat b \<le> 90 then unat b - 55 else 99)"

definition radix_val :: "nat \<Rightarrow> bytes \<Rightarrow> nat" where
  "radix_val r bs = foldl (\<lambda>a b. a * r + digit_val b) 0 bs"

text \<open>
  \<open>uN::from_str_radix\<close>: one leading plus sign is accepted; what is left must be
  non-empty, all digits of the radix, and at most the type's maximum.
\<close>

definition parse_radix :: "nat \<Rightarrow> nat \<Rightarrow> bytes \<Rightarrow> nat option" where
  "parse_radix r maxv s =
     (let d = (if s \<noteq> [] \<and> hd s = 43 then tl s else s) in
      if d \<noteq> [] \<and> list_all (\<lambda>b. digit_val b < r) d \<and> radix_val r d \<le> maxv
      then Some (radix_val r d) else None)"

definition parse_u8 :: "bytes \<Rightarrow> nat option" where "parse_u8 = parse_radix 10 255"
definition parse_u64 :: "bytes \<Rightarrow> nat option" where "parse_u64 = parse_radix 10 (2 ^ 64 - 1)"

lemma radix_val_Nil [simp]: "radix_val r [] = 0"
  by (simp add: radix_val_def)

lemma radix_val_snoc [simp]: "radix_val r (bs @ [b]) = radix_val r bs * r + digit_val b"
  by (simp add: radix_val_def)

lemma unat_digit: "d < 10 \<Longrightarrow> unat (of_nat (48 + d) :: byte) = 48 + d"
  by (simp add: unat_of_nat del: of_nat_add)

lemma digit_val_digit: "d < 10 \<Longrightarrow> digit_val (of_nat (48 + d)) = d"
  by (simp add: digit_val_def is_digit_def unat_digit del: of_nat_add)

lemma is_digit_digit: "d < 10 \<Longrightarrow> is_digit (of_nat (48 + d))"
  by (simp add: is_digit_def unat_digit del: of_nat_add)

lemma dec_digits: "list_all is_digit (dec n)"
proof (induction n rule: dec.induct)
  case (1 n)
  show ?case
    using "1.IH" is_digit_digit [of n] is_digit_digit [of "n mod 10"]
    by (simp add: dec.simps [of n] del: of_nat_add)
qed

lemma dec_nonempty [simp]: "dec n \<noteq> []"
  by (subst dec.simps) simp

lemma radix_val_dec [simp]: "radix_val 10 (dec n) = n"
proof (induction n rule: dec.induct)
  case (1 n)
  show ?case
  proof (cases "n < 10")
    case True
    then show ?thesis
      using digit_val_digit [of n] radix_val_snoc [of 10 "[]"]
      by (simp add: dec.simps [of n] del: of_nat_add)
  next
    case False
    then show ?thesis
      using "1.IH" digit_val_digit [of "n mod 10"]
      by (simp add: dec.simps [of n] del: of_nat_add)
  qed
qed

lemma dec_inj: "dec m = dec n \<longleftrightarrow> m = n"
  by (metis radix_val_dec)

lemma digit_val_lt_10: "is_digit b \<Longrightarrow> digit_val b < 10"
  by (auto simp: digit_val_def is_digit_def)

lemma digit_not_plus: "is_digit b \<Longrightarrow> b \<noteq> 43"
  by (auto simp: is_digit_def)

lemma parse_radix_digits:
  assumes "s \<noteq> []" "list_all is_digit s"
  shows "parse_radix 10 m s = (if radix_val 10 s \<le> m then Some (radix_val 10 s) else None)"
proof -
  have "hd s \<noteq> 43"
    using assms digit_not_plus by (cases s) auto
  moreover have "list_all (\<lambda>b. digit_val b < 10) s"
    using assms(2) digit_val_lt_10 by (auto simp: list_all_iff)
  ultimately show ?thesis
    using assms(1) by (simp add: parse_radix_def Let_def)
qed

lemma parse_radix_dec: "n \<le> m \<Longrightarrow> parse_radix 10 m (dec n) = Some n"
  by (simp add: parse_radix_digits dec_digits)

lemma parse_radix_bound: "parse_radix r m s = Some n \<Longrightarrow> n \<le> m"
  by (auto simp: parse_radix_def Let_def split: if_splits)

text \<open>Canonical spelling: a text that prints back as itself is the decimal of its value.\<close>

lemma parse_canonical: "parse_radix 10 m s = Some n \<and> dec n = s \<longleftrightarrow> s = dec n \<and> n \<le> m"
  using parse_radix_dec [of n m] parse_radix_bound [of 10 m s n] by auto

section \<open>Hexadecimal\<close>

definition hex_digit :: "nat \<Rightarrow> byte" where
  "hex_digit d = (if d < 10 then of_nat (48 + d) else of_nat (87 + d))"

text \<open>\<open>{b:02x}\<close> for every byte, collected into a \<open>String\<close>.\<close>

definition hex_lower :: "bytes \<Rightarrow> bytes" where
  "hex_lower bs = concat (map (\<lambda>b. [hex_digit (unat b div 16), hex_digit (unat b mod 16)]) bs)"

text \<open>
  The pairs \<open>&s[i..i + 2]\<close> for \<open>i\<close> in steps of two, each read with
  \<open>u8::from_str_radix(_, 16)\<close>.
\<close>

fun hex_pairs :: "bytes \<Rightarrow> byte option list" where
  "hex_pairs (a # b # s) = map_option of_nat (parse_radix 16 255 [a, b]) # hex_pairs s"
| "hex_pairs _ = []"

lemma hex_digit_val: "d < 16 \<Longrightarrow> digit_val (hex_digit d) = d"
proof -
  assume "d < 16"
  then have "unat (of_nat (48 + d) :: byte) = 48 + d" "unat (of_nat (87 + d) :: byte) = 87 + d"
    by (simp_all add: unat_of_nat del: of_nat_add)
  with \<open>d < 16\<close> show ?thesis
    by (simp add: hex_digit_def digit_val_def is_digit_def del: of_nat_add)
qed

lemma hex_digit_hexdigit: "d < 16 \<Longrightarrow> is_hexdigit (hex_digit d)"
proof -
  assume "d < 16"
  then have "unat (of_nat (48 + d) :: byte) = 48 + d" "unat (of_nat (87 + d) :: byte) = 87 + d"
    by (simp_all add: unat_of_nat del: of_nat_add)
  with \<open>d < 16\<close> show ?thesis
    by (simp add: hex_digit_def is_hexdigit_def is_digit_def del: of_nat_add)
qed

lemma hexdigit_not_plus: "is_hexdigit b \<Longrightarrow> b \<noteq> 43"
  by (auto simp: is_hexdigit_def is_digit_def)

lemma parse_hex_pair:
  assumes "is_hexdigit a" "is_hexdigit b"
  shows "parse_radix 16 255 [a, b] = Some (digit_val a * 16 + digit_val b)"
proof -
  have "digit_val a < 16" "digit_val b < 16"
    using assms by (auto simp: digit_val_def is_hexdigit_def is_digit_def)
  then show ?thesis
    using hexdigit_not_plus [OF assms(1)] by (simp add: parse_radix_def radix_val_def)
qed

lemma length_hex_lower [simp]: "length (hex_lower bs) = 2 * length bs"
  by (induction bs) (simp_all add: hex_lower_def)

lemma hex_lower_hexdigits: "list_all is_hexdigit (hex_lower bs)"
proof -
  have "unat b div 16 < 16" for b :: byte
    using unat_byte_lt [of b] by simp
  then show ?thesis
    by (induction bs) (simp_all add: hex_lower_def hex_digit_hexdigit)
qed

lemma hex_pairs_lower: "hex_pairs (hex_lower bs) = map Some bs"
proof (induction bs)
  case (Cons b bs)
  have "unat b div 16 < 16"
    using unat_byte_lt [of b] by simp
  then have "parse_radix 16 255 [hex_digit (unat b div 16), hex_digit (unat b mod 16)] = Some (unat b)"
    by (simp add: parse_hex_pair hex_digit_hexdigit hex_digit_val)
  with Cons show ?case by (simp add: hex_lower_def)
qed (simp add: hex_lower_def)

lemma hex_pairs_total:
  "list_all is_hexdigit s \<Longrightarrow> even (length s) \<Longrightarrow>
   \<exists>bs. hex_pairs s = map Some bs \<and> length bs = length s div 2"
proof (induction s rule: hex_pairs.induct)
  case (1 a b s)
  then obtain bs where "hex_pairs s = map Some bs" "length bs = length s div 2" by auto
  with 1 show ?case
    by (intro exI [of _ "of_nat (digit_val a * 16 + digit_val b) # bs"])
       (simp add: parse_hex_pair)
qed auto

text \<open>
  The hand-written hexadecimal decoders of the device binaries share one body: an even
  number of hex digits (the guard, with its message), then the pairs (with theirs).
\<close>

definition hex_decode_with :: "err \<Rightarrow> err \<Rightarrow> bytes \<Rightarrow> bytes res" where
  "hex_decode_with e e2 s =
     (if \<not> list_all is_hexdigit s \<or> odd (length s) then Err e
      else collect (map (ok_or e2) (hex_pairs s)))"

lemma collect_oks: "collect (map (ok_or e \<circ> Some) xs) = Inr xs"
  by (simp add: collect_Ok comp_def)

lemma hex_decode_with_lower: "hex_decode_with e e2 (hex_lower bs) = Ok bs"
  by (simp add: hex_decode_with_def hex_lower_hexdigits hex_pairs_lower collect_oks)

lemma hex_decode_with_total:
  "is_ok (hex_decode_with e e2 s) \<longleftrightarrow> list_all is_hexdigit s \<and> even (length s)"
proof (cases "list_all is_hexdigit s \<and> even (length s)")
  case True
  then obtain bs where "hex_pairs s = map Some bs" using hex_pairs_total by blast
  with True show ?thesis by (simp add: hex_decode_with_def collect_oks)
qed (simp add: hex_decode_with_def)

lemma hex_decode_with_length: "hex_decode_with e e2 s = Ok bs \<Longrightarrow> length s = 2 * length bs"
proof -
  assume d: "hex_decode_with e e2 s = Ok bs"
  then have ok: "list_all is_hexdigit s" "even (length s)"
    by (auto simp: hex_decode_with_def split: if_splits)
  then obtain cs where cs: "hex_pairs s = map Some cs" "length cs = length s div 2"
    using hex_pairs_total by blast
  with d ok have "bs = cs" by (simp add: hex_decode_with_def collect_oks)
  with cs(2) ok(2) show ?thesis by auto
qed

end
