(* ===== verification/Io.thy ===== *)
theory Io
  imports NumText
begin

text \<open>
  Effects. A function that talks to the machine takes a world and gives a result and the
  world after it; \<open>sbind\<close> is the \<open>?\<close> operator between such steps. What the machine
  does (processes, files, environment) is outside the sources: a record of parameters.
  The wrappers of \<open>attest-tpm\<close> around a process are here too.
\<close>

section \<open>Results with a state\<close>

type_synonym ('w, 'e, 'a) step = "'w \<Rightarrow> ('e + 'a) \<times> 'w"
type_synonym ('w, 'a) io = "'w \<Rightarrow> (err + 'a) \<times> 'w"

definition sret :: "'a \<Rightarrow> ('w, 'e, 'a) step" where
  "sret x w = (Inr x, w)"

definition sfail :: "'e \<Rightarrow> ('w, 'e, 'a) step" where
  "sfail e w = (Inl e, w)"

definition sres :: "'e + 'a \<Rightarrow> ('w, 'e, 'a) step" where
  "sres m w = (m, w)"

definition sbind :: "('w, 'e, 'a) step \<Rightarrow> ('a \<Rightarrow> ('w, 'e, 'b) step) \<Rightarrow> ('w, 'e, 'b) step" where
  "sbind m f w = (case m w of (Inl e, w') \<Rightarrow> (Inl e, w') | (Inr x, w') \<Rightarrow> f x w')"

text \<open>\<open>map_err\<close> on a step, and a step whose failure is a value (\<open>.ok()\<close>, \<open>match\<close>).\<close>

definition smap_err :: "('e \<Rightarrow> 'd) \<Rightarrow> ('w, 'e, 'a) step \<Rightarrow> ('w, 'd, 'a) step" where
  "smap_err f m w = (case m w of (r, w') \<Rightarrow> (map_err f r, w'))"

definition stry :: "('w, 'e, 'a) step \<Rightarrow> ('w, 'd, 'e + 'a) step" where
  "stry m w = (case m w of (r, w') \<Rightarrow> (Inr r, w'))"

lemma sret_app [simp]: "sret x w = (Inr x, w)" by (simp add: sret_def)
lemma sfail_app [simp]: "sfail e w = (Inl e, w)" by (simp add: sfail_def)
lemma sres_app [simp]: "sres m w = (m, w)" by (simp add: sres_def)

lemma sbind_step [simp]:
  "m w = (Inl e, w') \<Longrightarrow> sbind m f w = (Inl e, w')"
  "m w = (Inr x, w') \<Longrightarrow> sbind m f w = f x w'"
  by (simp_all add: sbind_def)

lemma sbind_Ok [res_simps]:
  "sbind m f w = (Inr y, w'') \<longleftrightarrow> (\<exists>x w'. m w = (Inr x, w') \<and> f x w' = (Inr y, w''))"
  by (auto simp: sbind_def split: prod.splits sum.splits)

lemma sbind_Err:
  "sbind m f w = (Inl e, w'') \<longleftrightarrow>
   m w = (Inl e, w'') \<or> (\<exists>x w'. m w = (Inr x, w') \<and> f x w' = (Inl e, w''))"
  by (auto simp: sbind_def split: prod.splits sum.splits)

lemma sbind_sret [simp]: "sbind (sret x) f = f x"
  by (rule ext) (simp add: sbind_def)

lemma sbind_assoc: "sbind (sbind m f) g = sbind m (\<lambda>x. sbind (f x) g)"
  by (rule ext) (simp add: sbind_def split: prod.splits sum.splits)

lemma smap_err_Ok [res_simps]: "smap_err f m w = (Inr x, w') \<longleftrightarrow> m w = (Inr x, w')"
  by (cases "m w"; cases "fst (m w)") (auto simp: smap_err_def)

lemma smap_err_Err: "smap_err f m w = (Inl d, w') \<longleftrightarrow> (\<exists>e. d = f e \<and> m w = (Inl e, w'))"
  by (cases "m w"; cases "fst (m w)") (auto simp: smap_err_def)

lemma stry_Ok [res_simps]: "stry m w = (Inr r, w') \<longleftrightarrow> m w = (r, w')"
  by (cases "m w") (auto simp: stry_def)

lemma stry_not_Err [simp]: "stry m w \<noteq> (Inl e, w')"
  by (cases "m w") (auto simp: stry_def)

lemma sres_Ok: "sres m w = (Inr x, w') \<longleftrightarrow> m = Inr x \<and> w' = w"
  by auto

section \<open>The machine\<close>

text \<open>
  \<open>os_run\<close> is \<open>Command::output\<close>: it fails to start, or gives the exit status (success or
  not), standard output and standard error. \<open>os_read\<close> is opening and reading a whole
  file, \<open>os_stat\<close> its metadata; a missing file is told apart from any other failure. \<open>os_render\<close> is the text an
  error message is formatted to, which one function searches.
\<close>

datatype io_error = NotFound | OtherIo err

record 'w os =
  os_run :: "bytes list \<Rightarrow> ('w, err, bool \<times> bytes \<times> bytes) step"
  os_read :: "bytes \<Rightarrow> ('w, io_error, bytes) step"
  os_stat :: "bytes \<Rightarrow> ('w, io_error, unit) step"
  os_env :: "bytes \<Rightarrow> bytes option"
  os_render :: "err \<Rightarrow> bytes"

definition io_err :: "io_error \<Rightarrow> err" where
  "io_err e = (case e of NotFound \<Rightarrow> Msg ''No such file or directory'' [] | OtherIo e \<Rightarrow> e)"

definition read_file :: "'w os \<Rightarrow> bytes \<Rightarrow> ('w, bytes) io" where
  "read_file os p = smap_err (\<lambda>e. Ctx ''read'' (io_err e)) (os_read os p)"

text \<open>\<open>Path::join\<close> with a relative name.\<close>

definition path_join :: "bytes \<Rightarrow> bytes \<Rightarrow> bytes" where
  "path_join p n = (if p = [] \<or> last p = 47 then p @ n else p @ 47 # n)"

text \<open>\<open>attest_tpm::run\<close>: standard output on success, the trimmed standard error otherwise.\<close>

definition run_tool :: "'w os \<Rightarrow> bytes list \<Rightarrow> ('w, bytes) io" where
  "run_tool os args =
     sbind (smap_err (Ctx ''spawn'') (os_run os args)) (\<lambda>(ok, out, errs).
     if \<not> ok then sfail (Msg ''tool failed'' [Txt (join_on 32 args), Txt (trim (utf8_lossy errs))])
     else sret out)"

lemma run_tool_Ok:
  "run_tool os args w = (Inr out, w') \<longleftrightarrow> (\<exists>errs. os_run os args w = (Inr (True, out, errs), w'))"
  by (auto simp: run_tool_def sbind_Ok smap_err_Ok split: if_splits)

end
