(* ===== verification/PcrBits.thy ===== *)
theory PcrBits
  imports Prelude
begin

text \<open>
  The bitmap of a PCR selection: bit \<open>i % 8\<close> of byte \<open>i / 8\<close> is PCR \<open>i\<close>. Verifier
  (\<open>attest-appraise/rim.rs\<close>), device (\<open>attest-tpm\<close>, \<open>parse_pcr_spec\<close>) and
  \<open>tactiq-stop-verify\<close> build it with the same expression, so their masks agree bit by
  bit.
\<close>

definition set_pcr_bit :: "bytes \<Rightarrow> nat \<Rightarrow> bytes" where
  "set_pcr_bit m i = m[i div 8 := (m ! (i div 8)) OR push_bit (i mod 8) 1]"

definition pcr_mask :: "nat list \<Rightarrow> bytes" where
  "pcr_mask sel = foldl set_pcr_bit [0, 0, 0] sel"

section \<open>Bits of the mask\<close>

lemma length_pcr_mask_fold: "length (foldl set_pcr_bit m sel) = length m"
  by (induction sel arbitrary: m) (auto simp: set_pcr_bit_def)

lemma length_pcr_mask [simp]: "length (pcr_mask sel) = 3"
  by (simp add: pcr_mask_def length_pcr_mask_fold)

lemma bit_byte_flag: "k < 8 \<Longrightarrow> bit (push_bit k 1 :: byte) j \<longleftrightarrow> j = k"
  by (simp only: bit_push_bit_iff possible_bit_word bit_1_iff) auto

lemma set_pcr_bit_bits:
  assumes "i \<le> 23" "k < 3" "j < 8" "length m = 3"
  shows "bit (set_pcr_bit m i ! k) j \<longleftrightarrow> bit (m ! k) j \<or> 8 * k + j = i"
proof (cases "i div 8 = k")
  case True
  then have "8 * k + j = i \<longleftrightarrow> j = i mod 8" using assms(3) by presburger
  moreover have "set_pcr_bit m i ! k = m ! k OR push_bit (i mod 8) 1"
    using True assms(2,4) by (simp add: set_pcr_bit_def)
  ultimately show ?thesis by (simp only: bit_or_iff bit_byte_flag)
next
  case False
  then have "8 * k + j \<noteq> i" using assms(3) by auto
  with False show ?thesis by (simp add: set_pcr_bit_def)
qed

lemma pcr_mask_bits:
  assumes "list_all (\<lambda>i. i \<le> 23) sel" "k < 3" "j < 8"
  shows "bit (pcr_mask sel ! k) j \<longleftrightarrow> 8 * k + j \<in> set sel"
proof -
  have "bit (foldl set_pcr_bit m sel ! k) j \<longleftrightarrow> bit (m ! k) j \<or> 8 * k + j \<in> set sel"
    if "length m = 3" for m
    using assms(1) that
  proof (induction sel arbitrary: m)
    case (Cons i sel)
    then show ?case
      using set_pcr_bit_bits [of i k j m] assms(2,3) by (auto simp: set_pcr_bit_def)
  qed simp
  then show ?thesis
    using assms(2) by (auto simp: pcr_mask_def nth_Cons numeral_3_eq_3 less_Suc_eq)
qed

end
