(* ===== verification/Envelope.thy ===== *)
theory Envelope
  imports NumText
begin

text \<open>
  Crate \<open>attest-envelope\<close> (\<open>lib.rs\<close>): the canonical 93-byte message and the
  tag/length container of the evidence bundle. The parser of the message is exact in
  length; the parser of the bundle is an iterator that yields one error and then stops.
  The locale \<open>codec\<close> states what the code's encoders and parsers promise each other;
  the bundle container is its first instance.
\<close>

section \<open>The codec interface\<close>

text \<open>
  An encoder that may refuse and a parser that may refuse. \<open>wf\<close> says that a value has
  the fixed array widths its Rust type gives it.
\<close>

locale codec =
  fixes enc :: "'a \<Rightarrow> bytes res"
    and parse :: "bytes \<Rightarrow> 'a res"
    and wf :: "'a \<Rightarrow> bool"
  assumes parse_then_enc: "parse b = Inr x \<Longrightarrow> enc x = Inr b"
    and parse_wf: "parse b = Inr x \<Longrightarrow> wf x"
    and enc_then_parse: "enc x = Inr b \<Longrightarrow> wf x \<Longrightarrow> parse b = Inr x"
begin

lemma parse_iff_enc: "parse b = Inr x \<longleftrightarrow> wf x \<and> enc x = Inr b"
  using parse_then_enc parse_wf enc_then_parse by blast

lemma parse_injective: "parse b = Inr x \<Longrightarrow> parse b' = Inr x \<Longrightarrow> b = b'"
  by (metis parse_then_enc sum.inject(2))

lemma enc_injective: "wf x \<Longrightarrow> wf y \<Longrightarrow> enc x = Inr b \<Longrightarrow> enc y = Inr b \<Longrightarrow> x = y"
  by (metis enc_then_parse sum.inject(2))

lemma refused_by_both: "wf x \<Longrightarrow> \<not> is_ok (enc x) \<longleftrightarrow> (\<forall>b. parse b \<noteq> Inr x)"
  using parse_iff_enc by (auto simp: is_ok_iff)

end

section \<open>The canonical message\<close>

definition DEVICE_ID_LEN :: nat where [simp]: "DEVICE_ID_LEN = 16"
definition PCR_HASH_LEN :: nat where [simp]: "PCR_HASH_LEN = 32"
definition COUNTER_LEN :: nat where [simp]: "COUNTER_LEN = 8"
definition PCR_SELECTION_LEN :: nat where [simp]: "PCR_SELECTION_LEN = 5"
definition EVIDENCE_HASH_LEN :: nat where [simp]: "EVIDENCE_HASH_LEN = 32"

definition MSG_LEN :: nat where
  [simp]: "MSG_LEN = DEVICE_ID_LEN + COUNTER_LEN + PCR_SELECTION_LEN + PCR_HASH_LEN + EVIDENCE_HASH_LEN"

definition evidence_digest :: "hash \<Rightarrow> bytes \<Rightarrow> bytes" where
  "evidence_digest H bundle = sha256 H bundle"

record attestation_message =
  m_device_id :: bytes
  m_counter :: u64
  m_pcr_selection :: bytes
  m_pcr_hash :: bytes
  m_evidence_hash :: bytes

definition parse_message :: "bytes \<Rightarrow> attestation_message res" where
  "parse_message b =
     (if length b \<noteq> MSG_LEN then Err (Msg ''bad message length'' [Num (length b), Num MSG_LEN])
      else
        let sel_off = DEVICE_ID_LEN + COUNTER_LEN;
            hash_off = sel_off + PCR_SELECTION_LEN;
            ev_off = hash_off + PCR_HASH_LEN
        in Ok \<lparr>m_device_id = slice 0 DEVICE_ID_LEN b,
               m_counter = un64 (slice DEVICE_ID_LEN (DEVICE_ID_LEN + COUNTER_LEN) b),
               m_pcr_selection = slice sel_off (sel_off + PCR_SELECTION_LEN) b,
               m_pcr_hash = slice hash_off (hash_off + PCR_HASH_LEN) b,
               m_evidence_hash = drop ev_off b\<rparr>)"

text \<open>The layout the module documentation gives, as a function of the parsed fields.\<close>

definition message_bytes :: "attestation_message \<Rightarrow> bytes" where
  "message_bytes m =
     m_device_id m @ be64 (m_counter m) @ m_pcr_selection m @ m_pcr_hash m @ m_evidence_hash m"

definition wf_message :: "attestation_message \<Rightarrow> bool" where
  "wf_message m \<longleftrightarrow> length (m_device_id m) = DEVICE_ID_LEN
     \<and> length (m_pcr_selection m) = PCR_SELECTION_LEN
     \<and> length (m_pcr_hash m) = PCR_HASH_LEN \<and> length (m_evidence_hash m) = EVIDENCE_HASH_LEN"

text \<open>
  \<open>device_id_display\<close>: lossy UTF-8, then NUL padding off the end, then white space.
\<close>

definition device_id_display :: "bytes \<Rightarrow> bytes" where
  "device_id_display did = trim_end (trim_end_matches (\<lambda>b. b = 0) (utf8_lossy did))"

definition device_id_str :: "attestation_message \<Rightarrow> bytes" where
  "device_id_str m = device_id_display (m_device_id m)"

text \<open>
  Hexadecimal file names. The crate \<open>hex\<close> is outside the sources: its two functions
  are parameters.
\<close>

definition id_to_hex :: "(bytes \<Rightarrow> bytes) \<Rightarrow> bytes \<Rightarrow> bytes" where
  "id_to_hex hex_encode did = hex_encode did"

definition hex_to_id :: "(bytes \<Rightarrow> bytes option) \<Rightarrow> bytes \<Rightarrow> bytes option" where
  "hex_to_id hex_decode s =
     (case hex_decode s of None \<Rightarrow> None
      | Some b \<Rightarrow> if length b \<noteq> DEVICE_ID_LEN then None else Some b)"

definition encode_pcr_selection :: "u16 \<Rightarrow> bytes \<Rightarrow> bytes" where
  "encode_pcr_selection alg_id bitmap = be16 alg_id @ [bitmap ! 0, bitmap ! 1, bitmap ! 2]"

definition build_canonical :: "hash \<Rightarrow> bytes \<Rightarrow> u64 \<Rightarrow> bytes \<Rightarrow> bytes \<Rightarrow> bytes \<Rightarrow> bytes" where
  "build_canonical H device_id counter pcr_selection pcr_state evidence =
     pad_right DEVICE_ID_LEN device_id @ be64 counter @ pcr_selection
       @ sha256 H pcr_state @ evidence_digest H evidence"

subsection \<open>Lemmas on the message\<close>

lemma length_encode_pcr_selection [simp, byte_simps]: "length (encode_pcr_selection a bm) = 5"
  by (simp add: encode_pcr_selection_def)

lemma length_evidence_digest [simp, byte_simps]: "length (evidence_digest H b) = 32"
  by (simp add: evidence_digest_def)

lemma length_build_canonical [byte_simps]:
  "length sel = PCR_SELECTION_LEN \<Longrightarrow> length (build_canonical H did c sel ps ev) = MSG_LEN"
  by (simp add: build_canonical_def)

lemma length_message_bytes: "wf_message m \<Longrightarrow> length (message_bytes m) = MSG_LEN"
  by (simp add: wf_message_def message_bytes_def)

lemma parse_message_bytes: "wf_message m \<Longrightarrow> parse_message (message_bytes m) = Ok m"
  by (simp add: wf_message_def message_bytes_def parse_message_def slice_append_skip)

lemma parse_message_sound:
  assumes "parse_message b = Ok m"
  shows "wf_message m" "message_bytes m = b" "length b = MSG_LEN"
proof -
  from assms have len: "length b = 93"
    and m: "m = \<lparr>m_device_id = slice 0 16 b, m_counter = un64 (slice 16 24 b),
      m_pcr_selection = slice 24 29 b, m_pcr_hash = slice 29 61 b, m_evidence_hash = drop 61 b\<rparr>"
    by (auto simp: parse_message_def split: if_splits)
  show "length b = MSG_LEN" using len by simp
  show "wf_message m" using len by (simp add: m wf_message_def)
  have "drop 61 b = slice 61 93 b" using len by (simp add: slice_def)
  moreover have "be64 (un64 (slice 16 24 b)) = slice 16 24 b"
    using len by (simp add: be_un)
  ultimately have "message_bytes m = slice 0 93 b"
    by (simp add: m message_bytes_def slice_append_slice)
  then show "message_bytes m = b" using len slice_full [of b] by simp
qed

lemma parse_message_iff: "parse_message b = Ok m \<longleftrightarrow> wf_message m \<and> b = message_bytes m"
  using parse_message_sound parse_message_bytes by blast

lemma parse_message_ok_iff: "is_ok (parse_message b) \<longleftrightarrow> length b = MSG_LEN"
  by (simp add: parse_message_def Let_def)

lemma parse_build_canonical:
  assumes "length sel = PCR_SELECTION_LEN"
  shows "parse_message (build_canonical H did c sel ps ev) =
    Ok \<lparr>m_device_id = pad_right DEVICE_ID_LEN did, m_counter = c, m_pcr_selection = sel,
        m_pcr_hash = sha256 H ps, m_evidence_hash = evidence_digest H ev\<rparr>"
    (is "_ = Ok ?m")
proof -
  have "wf_message ?m" using assms by (simp add: wf_message_def)
  moreover have "build_canonical H did c sel ps ev = message_bytes ?m"
    by (simp add: build_canonical_def message_bytes_def)
  ultimately show ?thesis by (simp add: parse_message_bytes)
qed

interpretation message_codec: codec "\<lambda>m. Inr (message_bytes m)" parse_message wf_message
  by unfold_locales (auto simp: parse_message_iff)

section \<open>The evidence bundle\<close>

definition SECTION_HEADER_LEN :: nat where [simp]: "SECTION_HEADER_LEN = 6"
definition TAG_TPM_QUOTE :: u16 where "TAG_TPM_QUOTE = 1"
definition TAG_GPU_ATTEST :: u16 where "TAG_GPU_ATTEST = 2"
definition TAG_CPU_TEE :: u16 where "TAG_CPU_TEE = 3"
definition TAG_STOP_STATE :: u16 where "TAG_STOP_STATE = 4"
definition TAG_VERIFIER_NONCE :: u16 where "TAG_VERIFIER_NONCE = 5"
definition TAG_TPM_NV_CERTIFY :: u16 where "TAG_TPM_NV_CERTIFY = 6"

lemmas tag_defs =
  TAG_TPM_QUOTE_def TAG_GPU_ATTEST_def TAG_CPU_TEE_def TAG_STOP_STATE_def TAG_VERIFIER_NONCE_def
  TAG_TPM_NV_CERTIFY_def

definition tag_forbidden :: "u16 \<Rightarrow> bool" where
  "tag_forbidden tag \<longleftrightarrow> tag = 0 \<or> tag = 0xFFFF"

record bundle_section =
  s_tag :: u16
  s_body :: bytes

record sections_iter =
  it_rest :: bytes
  it_offset :: nat
  it_failed :: bool

definition sections :: "bytes \<Rightarrow> sections_iter" where
  "sections bundle = \<lparr>it_rest = bundle, it_offset = 0, it_failed = False\<rparr>"

text \<open>\<open>Iterator::next\<close>: the item, and the iterator after it.\<close>

definition sections_next :: "sections_iter \<Rightarrow> bundle_section res option \<times> sections_iter" where
  "sections_next it =
     (let r = it_rest it; off = it_offset it; failed = it\<lparr>it_failed := True\<rparr> in
      if it_failed it \<or> r = [] then (None, it)
      else if length r < SECTION_HEADER_LEN then
        (Some (Err (Msg ''truncated section header''
           [Num off, Num (length r), Num SECTION_HEADER_LEN])), failed)
      else
        let tag = un16 (slice 0 2 r) in
        if tag_forbidden tag then (Some (Err (Msg ''forbidden tag'' [Num (unat tag), Num off])), failed)
        else
          let len = unat (un32 (slice 2 6 r)); after_header = drop SECTION_HEADER_LEN r in
          if len > length after_header then
            (Some (Err (Msg ''section claims more than remains''
               [Num (unat tag), Num off, Num len, Num (length after_header)])), failed)
          else
            (Some (Ok \<lparr>s_tag = tag, s_body = take len after_header\<rparr>),
             it\<lparr>it_rest := drop len after_header, it_offset := off + (SECTION_HEADER_LEN + len)\<rparr>))"

lemma sections_next_shrinks:
  "(Some (Ok s), it') = sections_next it \<Longrightarrow> length (it_rest it') < length (it_rest it)"
  by (auto simp: sections_next_def Let_def split: if_splits)

text \<open>The loop of \<open>parse_bundle\<close>, from the iterator and the sections collected so far.\<close>

function parse_bundle_loop ::
  "sections_iter \<Rightarrow> bundle_section list \<Rightarrow> bundle_section list res" where
  "parse_bundle_loop it acc =
     (case sections_next it of
        (None, _) \<Rightarrow> Ok acc
      | (Some (Inl e), _) \<Rightarrow> Err e
      | (Some (Inr s), it') \<Rightarrow> parse_bundle_loop it' (acc @ [s]))"
  by pat_completeness auto
termination
  by (relation "measure (\<lambda>(it, _). length (it_rest it))") (auto dest: sections_next_shrinks)

declare parse_bundle_loop.simps [simp del]

definition parse_bundle :: "bytes \<Rightarrow> bundle_section list res" where
  "parse_bundle bundle = parse_bundle_loop (sections bundle) []"

fun build_bundle_loop :: "(u16 \<times> bytes) list \<Rightarrow> bytes \<Rightarrow> bytes res" where
  "build_bundle_loop [] out = Ok out"
| "build_bundle_loop ((tag, body) # ss) out =
     (if tag_forbidden tag then Err (Msg ''forbidden tag'' [Num (unat tag)])
      else if length body > 2 ^ 32 - 1 then
        Err (Msg ''section body exceeds u32 length field'' [Num (unat tag), Num (length body)])
      else build_bundle_loop ss (out @ be16 tag @ be32 (len32 body) @ body))"

definition build_bundle :: "(u16 \<times> bytes) list \<Rightarrow> bytes res" where
  "build_bundle ss = build_bundle_loop ss []"

subsection \<open>Lemmas on the bundle\<close>

definition section_pair :: "bundle_section \<Rightarrow> u16 \<times> bytes" where
  "section_pair s = (s_tag s, s_body s)"

definition section_ok :: "bundle_section \<Rightarrow> bool" where
  "section_ok s \<longleftrightarrow> \<not> tag_forbidden (s_tag s) \<and> length (s_body s) < 2 ^ 32"

definition section_bytes :: "bundle_section \<Rightarrow> bytes" where
  "section_bytes s = be16 (s_tag s) @ be32 (len32 (s_body s)) @ s_body s"

definition bundle_bytes :: "bundle_section list \<Rightarrow> bytes" where
  "bundle_bytes ss = concat (map section_bytes ss)"

lemma bundle_bytes_simps [simp]:
  "bundle_bytes [] = []" "bundle_bytes (s # ss) = section_bytes s @ bundle_bytes ss"
  by (simp_all add: bundle_bytes_def)

lemma section_bytes_nonempty [simp]: "section_bytes s \<noteq> []"
  by (simp add: section_bytes_def)

lemma section_pair_inj: "map section_pair ss = map section_pair ss' \<longleftrightarrow> ss = ss'"
  by (rule inj_map_eq_map) (auto intro!: injI simp: section_pair_def)

lemma build_bundle_loop_iff:
  "build_bundle_loop (map section_pair ss) out = Ok b \<longleftrightarrow>
   list_all section_ok ss \<and> b = out @ bundle_bytes ss"
proof (induction ss arbitrary: out)
  case (Cons s ss)
  then show ?case
    by (auto simp: section_pair_def section_ok_def section_bytes_def)
qed auto

lemma build_bundle_iff:
  "build_bundle (map section_pair ss) = Ok b \<longleftrightarrow> list_all section_ok ss \<and> b = bundle_bytes ss"
  by (simp add: build_bundle_def build_bundle_loop_iff)

lemma sections_next_empty: "it_rest it = [] \<Longrightarrow> sections_next it = (None, it)"
  by (simp add: sections_next_def Let_def)

text \<open>What one step of the iterator yields, in terms of the layout.\<close>

lemma sections_next_section:
  assumes "section_ok s" "it_rest it = section_bytes s @ r" "\<not> it_failed it"
  shows "sections_next it =
    (Some (Ok s), it\<lparr>it_rest := r, it_offset := it_offset it + (6 + length (s_body s))\<rparr>)"
  using assms
  by (simp add: sections_next_def Let_def section_bytes_def section_ok_def slice_append_skip)

lemma sections_next_Ok:
  assumes "sections_next it = (Some (Ok s), it')"
  shows "section_ok s" "it_rest it = section_bytes s @ it_rest it'" "\<not> it_failed it'"
proof -
  let ?r = "it_rest it"
  let ?len = "unat (un32 (slice 2 6 ?r))"
  from assms have nf: "\<not> it_failed it" and len: "6 \<le> length ?r"
    and tag: "\<not> tag_forbidden (un16 (slice 0 2 ?r))" and fits: "?len \<le> length ?r - 6"
    and s: "s = \<lparr>s_tag = un16 (slice 0 2 ?r), s_body = take ?len (drop 6 ?r)\<rparr>"
    and it': "it' = it\<lparr>it_rest := drop ?len (drop 6 ?r), it_offset := it_offset it + (6 + ?len)\<rparr>"
    by (auto simp: sections_next_def Let_def split: if_splits)
  have blen: "length (s_body s) = ?len" using fits by (simp add: s)
  have bound: "?len < 2 ^ 32" using unat_bound [of "un32 (slice 2 6 ?r)"] by simp
  then show "section_ok s" using tag blen by (simp add: section_ok_def s)
  show "\<not> it_failed it'" using nf by (simp add: it')
  have "len32 (s_body s) = un32 (slice 2 6 ?r)"
    by (simp add: len32_def blen)
  then have "section_bytes s = slice 0 2 ?r @ slice 2 6 ?r @ take ?len (drop 6 ?r)"
    using len by (simp add: section_bytes_def s be_un)
  also have "\<dots> = slice 0 6 ?r @ take ?len (drop 6 ?r)"
    using slice_append_slice [of 0 2 6 ?r] by simp
  finally have "section_bytes s = take 6 ?r @ take ?len (drop 6 ?r)"
    by (simp add: slice_def)
  moreover have "?r = take 6 ?r @ (take ?len (drop 6 ?r) @ drop ?len (drop 6 ?r))"
    by (simp only: append_take_drop_id)
  ultimately show "?r = section_bytes s @ it_rest it'"
    by (simp add: it')
qed

lemma parse_bundle_loop_sections:
  assumes "list_all section_ok ss" "it_rest it = bundle_bytes ss" "\<not> it_failed it"
  shows "parse_bundle_loop it acc = Ok (acc @ ss)"
  using assms
proof (induction ss arbitrary: it acc)
  case Nil
  then show ?case by (simp add: parse_bundle_loop.simps [of it] sections_next_empty)
next
  case (Cons s ss)
  then have "sections_next it = (Some (Ok s),
      it\<lparr>it_rest := bundle_bytes ss, it_offset := it_offset it + (6 + length (s_body s))\<rparr>)"
    by (intro sections_next_section) auto
  with Cons show ?case by (simp add: parse_bundle_loop.simps [of it])
qed

lemma parse_bundle_loop_sound:
  assumes "parse_bundle_loop it acc = Ok out" "\<not> it_failed it"
  shows "\<exists>ss. out = acc @ ss \<and> list_all section_ok ss \<and> it_rest it = bundle_bytes ss"
  using assms
proof (induction it acc rule: parse_bundle_loop.induct)
  case (1 it acc)
  consider (stop) it' where "sections_next it = (None, it')"
    | (bad) e it' where "sections_next it = (Some (Err e), it')"
    | (item) s it' where "sections_next it = (Some (Ok s), it')"
    by (metis old.sum.exhaust option.exhaust surj_pair)
  then show ?case
  proof cases
    case stop
    then have "it_rest it = []"
      using "1.prems"(2) by (auto simp: sections_next_def Let_def split: if_splits)
    with stop "1.prems"(1) show ?thesis
      by (intro exI [of _ "[]"]) (simp add: parse_bundle_loop.simps [of it])
  next
    case bad
    with "1.prems"(1) show ?thesis by (simp add: parse_bundle_loop.simps [of it])
  next
    case item
    note s = sections_next_Ok [OF item]
    from item "1.prems"(1) have "parse_bundle_loop it' (acc @ [s]) = Ok out"
      by (simp add: parse_bundle_loop.simps [of it])
    with "1.IH" [OF item [symmetric] refl refl] s(3)
    obtain ss where "out = (acc @ [s]) @ ss" "list_all section_ok ss" "it_rest it' = bundle_bytes ss"
      by blast
    with s show ?thesis by (intro exI [of _ "s # ss"]) simp
  qed
qed

lemma parse_bundle_iff: "parse_bundle b = Ok ss \<longleftrightarrow> list_all section_ok ss \<and> b = bundle_bytes ss"
proof
  assume "parse_bundle b = Ok ss"
  then show "list_all section_ok ss \<and> b = bundle_bytes ss"
    using parse_bundle_loop_sound [of "sections b" "[]" ss]
    by (auto simp: parse_bundle_def sections_def)
next
  assume "list_all section_ok ss \<and> b = bundle_bytes ss"
  then show "parse_bundle b = Ok ss"
    using parse_bundle_loop_sections [of ss "sections b" "[]"]
    by (simp add: parse_bundle_def sections_def)
qed

interpretation bundle_codec: codec "\<lambda>ss. build_bundle (map section_pair ss)" parse_bundle "\<lambda>_. True"
  by unfold_locales (auto simp: parse_bundle_iff build_bundle_iff)

lemma parse_bundle_append:
  "parse_bundle a = Ok ss \<Longrightarrow> parse_bundle b = Ok ts \<Longrightarrow> parse_bundle (a @ b) = Ok (ss @ ts)"
  by (simp add: parse_bundle_iff bundle_bytes_def)

end
