(* ===== verification/Reader.thy ===== *)
theory Reader
  imports Prelude
begin

text \<open>
  The contract of the big-endian readers. Four modules of the sources carry their own
  reader over a byte slice (\<open>Rd\<close> in \<open>attest-envelope/tpm.rs\<close>, \<open>Be\<close> and
  \<open>Reader\<close> in \<open>attest-stop\<close>, the local functions of \<open>makecred::parse_file\<close>).
  What their clients rely on is stated once here as two locales: a plain reader, whose
  \<open>take\<close> succeeds exactly when enough bytes are left, and a bounded one, which also
  refuses empty and over-long parts.
\<close>

text \<open>A \<open>TPM2B\<close>: a 16-bit length, then that many bytes.\<close>

definition tpm2b_bytes :: "bytes \<Rightarrow> bytes" where
  "tpm2b_bytes v = be16 (len16 v) @ v"

lemma length_tpm2b_bytes [byte_simps]: "length (tpm2b_bytes v) = 2 + length v"
  by (simp add: tpm2b_bytes_def)

lemma take_drop_split: "n \<le> length b \<Longrightarrow> h = take n b \<and> t = drop n b \<longleftrightarrow> b = h @ t \<and> length h = n"
  by auto

locale byte_reader =
  fixes rd_take :: "nat \<Rightarrow> bytes \<Rightarrow> (bytes \<times> bytes) res"
    and rd_u16 :: "bytes \<Rightarrow> (u16 \<times> bytes) res"
    and rd_tpm2b :: "bytes \<Rightarrow> (bytes \<times> bytes) res"
  assumes take_enough: "n \<le> length b \<Longrightarrow> rd_take n b = Inr (take n b, drop n b)"
    and take_short: "length b < n \<Longrightarrow> \<not> is_ok (rd_take n b)"
    and u16_by_take: "rd_u16 b = rbind (rd_take 2 b) (\<lambda>(s, r). Inr (un16 s, r))"
    and tpm2b_by_take: "rd_tpm2b b = rbind (rd_u16 b) (\<lambda>(n, r). rd_take (unat n) r)"
begin

lemma take_iff: "rd_take n b = Inr (h, t) \<longleftrightarrow> b = h @ t \<and> length h = n"
proof (cases "n \<le> length b")
  case True
  then show ?thesis by (auto simp: take_enough)
next
  case False
  then have "\<not> is_ok (rd_take n b)" by (simp add: take_short)
  with False show ?thesis by (auto simp: is_ok_iff)
qed

lemma field_iff:
  assumes "\<And>s. length s = k \<Longrightarrow> enc (dec s) = s" "\<And>a. length (enc a) = k" "\<And>a. dec (enc a) = a"
  shows "rbind (rd_take k b) (\<lambda>(s, r). Inr (dec s, r)) = Inr (a, t) \<longleftrightarrow> b = enc a @ t"
  using assms by (auto simp: rbind_Ok take_iff)

lemma u16_iff: "rd_u16 b = Inr (a, t) \<longleftrightarrow> b = be16 a @ t"
  unfolding u16_by_take by (rule field_iff) (simp_all add: be_un)

lemma tpm2b_iff: "rd_tpm2b b = Inr (v, t) \<longleftrightarrow> length v < 2 ^ 16 \<and> b = tpm2b_bytes v @ t"
proof
  assume "rd_tpm2b b = Inr (v, t)"
  then obtain n r where n: "b = be16 n @ r" and r: "r = v @ t" "length v = unat n"
    by (auto simp: tpm2b_by_take rbind_Ok u16_iff take_iff)
  then have "len16 v = n" by (simp add: len16_def)
  moreover have "length v < 2 ^ 16" using r(2) unat_bound [of n] by simp
  ultimately show "length v < 2 ^ 16 \<and> b = tpm2b_bytes v @ t"
    using n r by (simp add: tpm2b_bytes_def)
next
  assume "length v < 2 ^ 16 \<and> b = tpm2b_bytes v @ t"
  then show "rd_tpm2b b = Inr (v, t)"
    by (auto simp: tpm2b_by_take rbind_Ok u16_iff take_iff tpm2b_bytes_def)
qed

lemma tpm2b_read_back: "length v < 2 ^ 16 \<Longrightarrow> rd_tpm2b (tpm2b_bytes v @ t) = Inr (v, t)"
  by (simp add: tpm2b_iff)

end

text \<open>A reader that also reads 32- and 64-bit fields.\<close>

locale wide_reader = byte_reader +
  fixes rd_u32 :: "bytes \<Rightarrow> (u32 \<times> bytes) res"
    and rd_u64 :: "bytes \<Rightarrow> (u64 \<times> bytes) res"
  assumes u32_by_take: "rd_u32 b = rbind (rd_take 4 b) (\<lambda>(s, r). Inr (un32 s, r))"
    and u64_by_take: "rd_u64 b = rbind (rd_take 8 b) (\<lambda>(s, r). Inr (un64 s, r))"
begin

lemma u32_iff: "rd_u32 b = Inr (a, t) \<longleftrightarrow> b = be32 a @ t"
  unfolding u32_by_take by (rule field_iff) (simp_all add: be_un)

lemma u64_iff: "rd_u64 b = Inr (a, t) \<longleftrightarrow> b = be64 a @ t"
  unfolding u64_by_take by (rule field_iff) (simp_all add: be_un)

end

text \<open>
  The length-prefixed reader: a part is read only if its length is between 1 and the
  bound given for it, and no larger than what is left.
\<close>

definition part16 :: "bytes \<Rightarrow> bytes" where "part16 v = be16 (len16 v) @ v"
definition part32 :: "bytes \<Rightarrow> bytes" where "part32 v = be32 (len32 v) @ v"

locale bounded_reader =
  fixes rd_part :: "nat \<Rightarrow> nat \<Rightarrow> bytes \<Rightarrow> (bytes \<times> bytes) res"
    and rd_take16 rd_take32 :: "nat \<Rightarrow> bytes \<Rightarrow> (bytes \<times> bytes) res"
  assumes part_ok: "rd_part n m b = Inr (h, t) \<longleftrightarrow> 0 < n \<and> n \<le> m \<and> b = h @ t \<and> length h = n"
    and take16_by_part: "2 \<le> length b \<Longrightarrow>
      rd_take16 m b = rd_part (unat (un16 (take 2 b))) m (drop 2 b)"
    and take16_short: "length b < 2 \<Longrightarrow> \<not> is_ok (rd_take16 m b)"
    and take32_by_part: "4 \<le> length b \<Longrightarrow>
      rd_take32 m b = rd_part (unat (un32 (take 4 b))) m (drop 4 b)"
    and take32_short: "length b < 4 \<Longrightarrow> \<not> is_ok (rd_take32 m b)"
begin

lemma take16_iff:
  "rd_take16 m b = Inr (v, t) \<longleftrightarrow>
   v \<noteq> [] \<and> length v \<le> m \<and> length v < 2 ^ 16 \<and> b = part16 v @ t"
proof
  assume a: "rd_take16 m b = Inr (v, t)"
  then have long: "2 \<le> length b" using take16_short [of b m] by (cases "length b < 2") auto
  with a have "rd_part (unat (un16 (take 2 b))) m (drop 2 b) = Inr (v, t)"
    by (simp add: take16_by_part)
  then have p: "v \<noteq> []" "length v \<le> m" "drop 2 b = v @ t" "length v = unat (un16 (take 2 b))"
    by (auto simp: part_ok)
  then have "len16 v = un16 (take 2 b)" by (simp add: len16_def)
  with long have "take 2 b = be16 (len16 v)" by (simp add: be_un)
  moreover have "b = take 2 b @ drop 2 b" by simp
  ultimately have "b = part16 v @ t" using p(3) by (simp add: part16_def)
  moreover have "length v < 2 ^ 16" using p(4) unat_bound [of "un16 (take 2 b)"] by simp
  ultimately show "v \<noteq> [] \<and> length v \<le> m \<and> length v < 2 ^ 16 \<and> b = part16 v @ t"
    using p by simp
next
  assume "v \<noteq> [] \<and> length v \<le> m \<and> length v < 2 ^ 16 \<and> b = part16 v @ t"
  then show "rd_take16 m b = Inr (v, t)"
    using take16_by_part [of b m] by (simp add: part_ok part16_def)
qed

lemma take32_iff:
  "rd_take32 m b = Inr (v, t) \<longleftrightarrow>
   v \<noteq> [] \<and> length v \<le> m \<and> length v < 2 ^ 32 \<and> b = part32 v @ t"
proof
  assume a: "rd_take32 m b = Inr (v, t)"
  then have long: "4 \<le> length b" using take32_short [of b m] by (cases "length b < 4") auto
  with a have "rd_part (unat (un32 (take 4 b))) m (drop 4 b) = Inr (v, t)"
    by (simp add: take32_by_part)
  then have p: "v \<noteq> []" "length v \<le> m" "drop 4 b = v @ t" "length v = unat (un32 (take 4 b))"
    by (auto simp: part_ok)
  then have "len32 v = un32 (take 4 b)" by (simp add: len32_def)
  with long have "take 4 b = be32 (len32 v)" by (simp add: be_un)
  moreover have "b = take 4 b @ drop 4 b" by simp
  ultimately have "b = part32 v @ t" using p(3) by (simp add: part32_def)
  moreover have "length v < 2 ^ 32" using p(4) unat_bound [of "un32 (take 4 b)"] by simp
  ultimately show "v \<noteq> [] \<and> length v \<le> m \<and> length v < 2 ^ 32 \<and> b = part32 v @ t"
    using p by simp
next
  assume "v \<noteq> [] \<and> length v \<le> m \<and> length v < 2 ^ 32 \<and> b = part32 v @ t"
  then show "rd_take32 m b = Inr (v, t)"
    using take32_by_part [of b m] by (simp add: part_ok part32_def)
qed

end

end
