(* ===== verification/TpmWire.thy ===== *)
theory TpmWire
  imports Envelope Reader
begin

text \<open>
  Module \<open>attest-envelope/tpm.rs\<close>: the reader \<open>Rd\<close>, the parser of a quote
  (\<open>TPMS_ATTEST\<close> of type quote) and the bank list it carries unparsed. The parser is
  shown to accept exactly the bytes of its layout.
\<close>

section \<open>Constants\<close>

definition TPM_GENERATED_VALUE :: u32 where "TPM_GENERATED_VALUE = 0xff544347"
definition TPM_ST_ATTEST_QUOTE :: u16 where "TPM_ST_ATTEST_QUOTE = 0x8018"
definition TPM_ALG_SHA256 :: u16 where "TPM_ALG_SHA256 = 0x000B"
definition TPM_ALG_ECC :: u16 where "TPM_ALG_ECC = 0x0023"
definition TPM_ALG_ECDSA :: u16 where "TPM_ALG_ECDSA = 0x0018"
definition TPM_ALG_NULL :: u16 where "TPM_ALG_NULL = 0x0010"
definition TPM_ECC_NIST_P256 :: u16 where "TPM_ECC_NIST_P256 = 0x0003"
definition attr_FIXED_TPM :: u32 where "attr_FIXED_TPM = push_bit 1 1"
definition attr_FIXED_PARENT :: u32 where "attr_FIXED_PARENT = push_bit 4 1"
definition attr_SENSITIVE_DATA_ORIGIN :: u32 where "attr_SENSITIVE_DATA_ORIGIN = push_bit 5 1"
definition attr_RESTRICTED :: u32 where "attr_RESTRICTED = push_bit 16 1"
definition attr_DECRYPT :: u32 where "attr_DECRYPT = push_bit 17 1"
definition attr_SIGN :: u32 where "attr_SIGN = push_bit 18 1"

lemmas tpm_consts =
  TPM_GENERATED_VALUE_def TPM_ST_ATTEST_QUOTE_def TPM_ALG_SHA256_def TPM_ALG_ECC_def
  TPM_ALG_ECDSA_def TPM_ALG_NULL_def TPM_ECC_NIST_P256_def

text \<open>\<open>qualifying_data\<close>: SHA-256 of the 93 bytes, and of nothing else.\<close>

definition qualifying_data :: "hash \<Rightarrow> bytes \<Rightarrow> bytes res" where
  "qualifying_data H msg =
     (if length msg \<noteq> MSG_LEN then Err (Msg ''bad message length'' [Num (length msg), Num MSG_LEN])
      else Ok (sha256 H msg))"

section \<open>The reader \<open>Rd\<close>\<close>

text \<open>\<open>what\<close> and \<open>field\<close> only enter the message of a refusal.\<close>

definition rd_take :: "string \<Rightarrow> string \<Rightarrow> nat \<Rightarrow> bytes \<Rightarrow> (bytes \<times> bytes) res" where
  "rd_take what field n b =
     (if length b < n then Err (Ctx what (Ctx field (Msg ''truncated'' [Num n, Num (length b)])))
      else Ok (take n b, drop n b))"

definition rd_u8 :: "string \<Rightarrow> string \<Rightarrow> bytes \<Rightarrow> (byte \<times> bytes) res" where
  "rd_u8 what f b = rbind (rd_take what f 1 b) (\<lambda>(s, r). Ok (s ! 0, r))"

definition rd_u16 :: "string \<Rightarrow> string \<Rightarrow> bytes \<Rightarrow> (u16 \<times> bytes) res" where
  "rd_u16 what f b = rbind (rd_take what f 2 b) (\<lambda>(s, r). Ok (un16 s, r))"

definition rd_u32 :: "string \<Rightarrow> string \<Rightarrow> bytes \<Rightarrow> (u32 \<times> bytes) res" where
  "rd_u32 what f b = rbind (rd_take what f 4 b) (\<lambda>(s, r). Ok (un32 s, r))"

definition rd_u64 :: "string \<Rightarrow> string \<Rightarrow> bytes \<Rightarrow> (u64 \<times> bytes) res" where
  "rd_u64 what f b = rbind (rd_take what f 8 b) (\<lambda>(s, r). Ok (un64 s, r))"

definition rd_tpm2b :: "string \<Rightarrow> string \<Rightarrow> bytes \<Rightarrow> (bytes \<times> bytes) res" where
  "rd_tpm2b what f b = rbind (rd_u16 what f b) (\<lambda>(n, r). rd_take what f (unat n) r)"

definition rd_end :: "string \<Rightarrow> bytes \<Rightarrow> unit res" where
  "rd_end what b = (if b = [] then Ok () else Err (Ctx what (Msg ''trailing byte(s)'' [Num (length b)])))"

interpretation rd: wide_reader "rd_take w f" "rd_u16 w f" "rd_tpm2b w f" "rd_u32 w f" "rd_u64 w f"
  for w f
  by unfold_locales
     (simp_all add: rd_take_def rd_u16_def rd_u32_def rd_u64_def rd_tpm2b_def is_ok_def)

lemma rd_u8_iff: "rd_u8 w f b = Ok (x, t) \<longleftrightarrow> b = x # t"
  by (auto simp: rd_u8_def rbind_Ok rd.take_iff length_Suc_conv)

lemma rd_end_iff: "rd_end w b = Ok u \<longleftrightarrow> b = []"
  by (simp add: rd_end_def)

lemmas rd_iffs = rd.u16_iff rd.u32_iff rd.u64_iff rd.tpm2b_iff rd.take_iff rd_u8_iff rd_end_iff

section \<open>Quotes\<close>

record clock_info =
  ci_clock :: u64
  ci_reset_count :: u32
  ci_restart_count :: u32
  ci_safe :: bool

record pcr_banks =
  pb_count :: u32
  pb_body :: bytes

record quote =
  q_qualified_signer :: bytes
  q_extra_data :: bytes
  q_clock_info :: clock_info
  q_firmware_version :: u64
  q_pcr_banks :: pcr_banks
  q_pcr_digest :: bytes

definition MAX_BANKS :: nat where [simp]: "MAX_BANKS = 16"

text \<open>
  \<open>PcrBanks::iter\<close>, collected: each step indexes and slices the body without a check,
  so a body that is too short is a panic (\<open>None\<close>).
\<close>

fun banks_iter :: "nat \<Rightarrow> bytes \<Rightarrow> (u16 \<times> bytes) list option" where
  "banks_iter 0 b = Some []"
| "banks_iter (Suc k) b =
     (if length b < 3 then None
      else let n = unat (b ! 2) in
        if length b < 3 + n then None
        else map_option ((#) (un16 [b ! 0, b ! 1], take n (drop 3 b))) (banks_iter k (drop (3 + n) b)))"

text \<open>The validation loop of the parser: reads past \<open>k\<close> entries.\<close>

fun skip_banks :: "nat \<Rightarrow> bytes \<Rightarrow> bytes res" where
  "skip_banks 0 b = Ok b"
| "skip_banks (Suc k) b =
     rbind (rd_u16 ''TPMS_ATTEST'' ''pcrSelect.hash'' b) (\<lambda>(_, b).
     rbind (rd_u8 ''TPMS_ATTEST'' ''pcrSelect.sizeofSelect'' b) (\<lambda>(n, b).
     rbind (rd_take ''TPMS_ATTEST'' ''pcrSelect.pcrSelect'' (unat n) b) (\<lambda>(_, b).
     skip_banks k b)))"

definition safe_of :: "string \<Rightarrow> byte \<Rightarrow> bool res" where
  "safe_of what v =
     (if v = 0 then Ok False else if v = 1 then Ok True
      else Err (Ctx what (Msg ''safe, want 0 or 1'' [Num (unat v)])))"

definition quote_parse :: "bytes \<Rightarrow> quote res" where
  "quote_parse b = (let w = ''TPMS_ATTEST'' in
     rbind (rd_u32 w ''magic'' b) (\<lambda>(magic, b).
     if magic \<noteq> TPM_GENERATED_VALUE then Err (Msg ''TPMS_ATTEST: magic'' [Num (unat magic)]) else
     rbind (rd_u16 w ''type'' b) (\<lambda>(ty, b).
     if ty \<noteq> TPM_ST_ATTEST_QUOTE then Err (Msg ''TPMS_ATTEST: type'' [Num (unat ty)]) else
     rbind (rd_tpm2b w ''qualifiedSigner'' b) (\<lambda>(signer, b).
     rbind (rd_tpm2b w ''extraData'' b) (\<lambda>(extra, b).
     rbind (rd_u64 w ''clock'' b) (\<lambda>(clock, b).
     rbind (rd_u32 w ''resetCount'' b) (\<lambda>(reset, b).
     rbind (rd_u32 w ''restartCount'' b) (\<lambda>(restart, b).
     rbind (rd_u8 w ''safe'' b) (\<lambda>(sf, b).
     rbind (safe_of w sf) (\<lambda>safe.
     rbind (rd_u64 w ''firmwareVersion'' b) (\<lambda>(fw, b).
     rbind (rd_u32 w ''pcrSelect.count'' b) (\<lambda>(count, body_start).
     if unat count > MAX_BANKS then Err (Msg ''TPMS_ATTEST: PCR banks'' [Num (unat count), Num MAX_BANKS]) else
     rbind (skip_banks (unat count) body_start) (\<lambda>b.
     let body = take (length body_start - length b) body_start in
     rbind (rd_tpm2b w ''pcrDigest'' b) (\<lambda>(digest, b).
     rbind (rd_end w b) (\<lambda>_.
     Ok \<lparr>q_qualified_signer = signer, q_extra_data = extra,
         q_clock_info = \<lparr>ci_clock = clock, ci_reset_count = reset, ci_restart_count = restart, ci_safe = safe\<rparr>,
         q_firmware_version = fw, q_pcr_banks = \<lparr>pb_count = count, pb_body = body\<rparr>,
         q_pcr_digest = digest\<rparr>)))))))))))))))"

subsection \<open>The layout a quote has\<close>

definition bank_bytes :: "u16 \<times> bytes \<Rightarrow> bytes" where
  "bank_bytes x = be16 (fst x) @ of_nat (length (snd x)) # snd x"

definition bank_ok :: "u16 \<times> bytes \<Rightarrow> bool" where
  "bank_ok x \<longleftrightarrow> length (snd x) < 256"

definition safe_byte :: "bool \<Rightarrow> byte" where
  "safe_byte s = (if s then 1 else 0)"

definition banks_of :: "(u16 \<times> bytes) list \<Rightarrow> pcr_banks" where
  "banks_of bs = \<lparr>pb_count = of_nat (length bs), pb_body = concat (map bank_bytes bs)\<rparr>"

definition clock_bytes :: "clock_info \<Rightarrow> bytes" where
  "clock_bytes c = be64 (ci_clock c) @ be32 (ci_reset_count c) @ be32 (ci_restart_count c) @ [safe_byte (ci_safe c)]"

definition quote_bytes :: "quote \<Rightarrow> bytes" where
  "quote_bytes q =
     be32 TPM_GENERATED_VALUE @ be16 TPM_ST_ATTEST_QUOTE @ tpm2b_bytes (q_qualified_signer q)
     @ tpm2b_bytes (q_extra_data q) @ clock_bytes (q_clock_info q) @ be64 (q_firmware_version q)
     @ be32 (pb_count (q_pcr_banks q)) @ pb_body (q_pcr_banks q) @ tpm2b_bytes (q_pcr_digest q)"

definition wf_quote :: "quote \<Rightarrow> bool" where
  "wf_quote q \<longleftrightarrow> length (q_qualified_signer q) < 2 ^ 16 \<and> length (q_extra_data q) < 2 ^ 16
     \<and> length (q_pcr_digest q) < 2 ^ 16
     \<and> (\<exists>bs. list_all bank_ok bs \<and> length bs \<le> MAX_BANKS \<and> q_pcr_banks q = banks_of bs)"

lemma skip_banks_iff:
  "skip_banks k b = Ok t \<longleftrightarrow>
   (\<exists>bs. length bs = k \<and> list_all bank_ok bs \<and> b = concat (map bank_bytes bs) @ t)"
proof (induction k arbitrary: b)
  case 0
  then show ?case by auto
next
  case (Suc k)
  have "skip_banks (Suc k) b = Ok t \<longleftrightarrow>
      (\<exists>a n d r. b = be16 a @ n # d @ r \<and> length d = unat n \<and> skip_banks k r = Ok t)"
    by (simp add: rbind_Ok rd_iffs split_beta split_paired_Ex) blast
  also have "\<dots> \<longleftrightarrow> (\<exists>x r. bank_ok x \<and> b = bank_bytes x @ r \<and> skip_banks k r = Ok t)"
  proof safe
    fix a :: u16 and n :: byte and d r :: bytes assume "length d = unat n" "skip_banks k r = Ok t"
    then show "\<exists>x ra. bank_ok x \<and> be16 a @ n # d @ r = bank_bytes x @ ra \<and> skip_banks k ra = Ok t"
      using unat_byte_lt [of n]
      by (intro exI [of _ "(a, d)"] exI [of _ r]) (simp add: bank_ok_def bank_bytes_def)
  next
    fix a :: u16 and d r :: bytes assume "bank_ok (a, d)" "skip_banks k r = Ok t"
    then show "\<exists>aa n da ra. bank_bytes (a, d) @ r = be16 aa @ n # da @ ra \<and> length da = unat n
        \<and> skip_banks k ra = Ok t"
      by (intro exI [of _ a] exI [of _ "of_nat (length d)"] exI [of _ d] exI [of _ r])
         (simp add: bank_ok_def bank_bytes_def unat_of_nat)
  qed
  also have "\<dots> \<longleftrightarrow> (\<exists>bs. length bs = Suc k \<and> list_all bank_ok bs \<and> b = concat (map bank_bytes bs) @ t)"
  proof
    assume "\<exists>x r. bank_ok x \<and> b = bank_bytes x @ r \<and> skip_banks k r = Ok t"
    then obtain x bs where "bank_ok x" "b = bank_bytes x @ concat (map bank_bytes bs) @ t"
        "length bs = k" "list_all bank_ok bs"
      unfolding Suc.IH by blast
    then show "\<exists>bs. length bs = Suc k \<and> list_all bank_ok bs \<and> b = concat (map bank_bytes bs) @ t"
      by (intro exI [of _ "x # bs"]) simp
  next
    assume "\<exists>bs. length bs = Suc k \<and> list_all bank_ok bs \<and> b = concat (map bank_bytes bs) @ t"
    then obtain ys where ys: "length ys = Suc k" "list_all bank_ok ys"
        "b = concat (map bank_bytes ys) @ t" by blast
    then obtain x bs where "ys = x # bs" by (cases ys) auto
    with ys have "length bs = k" "list_all bank_ok (x # bs)"
        "b = concat (map bank_bytes (x # bs)) @ t" by simp_all
    then show "\<exists>x r. bank_ok x \<and> b = bank_bytes x @ r \<and> skip_banks k r = Ok t"
      unfolding Suc.IH
      by (intro exI [of _ x] exI [of _ "concat (map bank_bytes bs) @ t"] conjI exI [of _ bs]) simp_all
  qed
  finally show ?case .
qed

lemma safe_of_iff: "safe_of w v = Ok s \<longleftrightarrow> v = safe_byte s"
  by (auto simp: safe_of_def safe_byte_def)

text \<open>The parser accepts exactly the layout.\<close>

lemma quote_parse_sound:
  assumes "quote_parse b = Ok q"
  shows "wf_quote q \<and> b = quote_bytes q"
proof -
  from assms obtain signer extra clock reset restart safe fw count start r digest bs where
    b: "b = be32 TPM_GENERATED_VALUE @ be16 TPM_ST_ATTEST_QUOTE @ tpm2b_bytes signer
      @ tpm2b_bytes extra @ be64 clock @ be32 reset @ be32 restart @ safe_byte safe # be64 fw
      @ be32 count @ start"
    and small: "length signer < 2 ^ 16" "length extra < 2 ^ 16" "length digest < 2 ^ 16"
    and count: "unat count \<le> 16" and bs: "length bs = unat count" "list_all bank_ok bs"
    and start: "start = concat (map bank_bytes bs) @ r" and r: "r = tpm2b_bytes digest"
    and q: "q = \<lparr>q_qualified_signer = signer, q_extra_data = extra,
         q_clock_info = \<lparr>ci_clock = clock, ci_reset_count = reset, ci_restart_count = restart, ci_safe = safe\<rparr>,
         q_firmware_version = fw,
         q_pcr_banks = \<lparr>pb_count = count, pb_body = take (length start - length r) start\<rparr>,
         q_pcr_digest = digest\<rparr>"
    unfolding quote_parse_def Let_def
    by (clarsimp simp only: rbind_Ok rd_iffs if_Err_Ok safe_of_iff skip_banks_iff MAX_BANKS_def
        split_beta split_paired_Ex fst_conv snd_conv append_Nil2 simp_thms sum.inject linorder_not_less)
  have "q_pcr_banks q = banks_of bs"
    using bs(1) by (simp add: q start banks_of_def)
  moreover have "length bs \<le> MAX_BANKS" using count bs(1) by simp
  ultimately have "wf_quote q"
    using small bs by (auto simp: wf_quote_def q)
  moreover have "b = quote_bytes q"
    by (simp add: b q start r quote_bytes_def clock_bytes_def)
  ultimately show ?thesis by simp
qed

lemma quote_parse_complete:
  assumes "wf_quote q"
  shows "quote_parse (quote_bytes q) = Ok q"
proof -
  from assms obtain bs where bs: "list_all bank_ok bs" "length bs \<le> 16" "q_pcr_banks q = banks_of bs"
    and small: "length (q_qualified_signer q) < 2 ^ 16" "length (q_extra_data q) < 2 ^ 16"
      "length (q_pcr_digest q) < 2 ^ 16"
    by (auto simp: wf_quote_def)
  have count: "unat (pb_count (q_pcr_banks q)) = length bs"
    using bs(2) by (simp add: bs(3) banks_of_def unat_of_nat)
  have body: "pb_body (q_pcr_banks q) = concat (map bank_bytes bs)"
    by (simp add: bs(3) banks_of_def)
  note reads = rd_u8_iff [THEN iffD2] rd.u16_iff [THEN iffD2] rd.u32_iff [THEN iffD2]
    rd.u64_iff [THEN iffD2] rd.tpm2b_iff [THEN iffD2, OF conjI]
  have skip: "skip_banks (length bs) (concat (map bank_bytes bs) @ t) = Ok t" for t
    using bs(1) by (auto simp: skip_banks_iff)
  have "quote_parse (quote_bytes q) =
    Ok \<lparr>q_qualified_signer = q_qualified_signer q, q_extra_data = q_extra_data q,
         q_clock_info = \<lparr>ci_clock = ci_clock (q_clock_info q), ci_reset_count = ci_reset_count (q_clock_info q),
           ci_restart_count = ci_restart_count (q_clock_info q), ci_safe = ci_safe (q_clock_info q)\<rparr>,
         q_firmware_version = q_firmware_version q,
         q_pcr_banks = \<lparr>pb_count = pb_count (q_pcr_banks q), pb_body = pb_body (q_pcr_banks q)\<rparr>,
         q_pcr_digest = q_pcr_digest q\<rparr>"
    unfolding quote_parse_def quote_bytes_def clock_bytes_def Let_def append_assoc body
    using bs(2)
    by (simp only: reads(1-4) reads(5) [OF small(1)] reads(5) [OF small(2)] rbind_simps case_prod_conv
        simp_thms if_False append.simps)
      (simp add: count skip safe_of_iff [THEN iffD2, OF refl] rd_end_def
        reads(5) [OF small(3), of _ "[]"])
  then show ?thesis by simp
qed

lemma quote_parse_iff: "quote_parse b = Ok q \<longleftrightarrow> wf_quote q \<and> b = quote_bytes q"
  using quote_parse_sound quote_parse_complete by blast

interpretation quote_codec: codec "\<lambda>q. Inr (quote_bytes q)" quote_parse wf_quote
  by unfold_locales (auto simp: quote_parse_iff)

lemma banks_iter_bytes:
  "list_all bank_ok bs \<Longrightarrow> banks_iter (length bs) (concat (map bank_bytes bs) @ t) = Some bs"
proof (induction bs)
  case (Cons x bs)
  obtain a d where x: "x = (a, d)" by (cases x)
  have d: "length d < 256" using Cons.prems by (simp add: x bank_ok_def)
  obtain h l where hl: "be16 a = [h, l]"
    by (simp add: be16_def numeral_2_eq_2)
  have "un16 [h, l] = a" using un_be(1) [of a] by (simp add: hl)
  moreover have "drop (3 + length d) (h # l # n # d @ r) = r" for n r
    by (simp add: numeral_3_eq_3)
  ultimately show ?case
    using Cons d by (simp add: x bank_bytes_def hl unat_of_nat Let_def)
qed simp

text \<open>Iterating the banks of a parsed quote never goes out of bounds.\<close>

lemma quote_banks_total:
  assumes "quote_parse b = Ok q"
  shows "\<exists>bs. banks_iter (unat (pb_count (q_pcr_banks q))) (pb_body (q_pcr_banks q)) = Some bs
     \<and> length bs \<le> MAX_BANKS \<and> q_pcr_banks q = banks_of bs"
proof -
  from assms obtain bs where bs: "list_all bank_ok bs" "length bs \<le> MAX_BANKS" "q_pcr_banks q = banks_of bs"
    by (auto simp: quote_parse_iff wf_quote_def)
  then have "unat (pb_count (q_pcr_banks q)) = length bs"
    by (simp add: banks_of_def unat_of_nat)
  with bs banks_iter_bytes [OF bs(1), of "[]"] show ?thesis
    by (auto simp: banks_of_def)
qed

end
