(* ===== verification/EccWire.thy ===== *)
theory EccWire
  imports TpmWire
begin

text \<open>
  The second half of \<open>attest-envelope/tpm.rs\<close>: the parser of an ECC public area
  (\<open>TPM2B_PUBLIC\<close>) and the name of a key. The parser accepts exactly the bytes of its
  layout; the parameters a non-null algorithm brings are skipped, not interpreted.
\<close>

section \<open>ECC public areas\<close>

record ecc_public =
  e_tpmt :: bytes
  e_name_alg :: u16
  e_attributes :: u32
  e_auth_policy :: bytes
  e_symmetric :: u16
  e_scheme :: u16
  e_scheme_hash :: u16
  e_curve :: u16
  e_kdf :: u16
  e_x :: bytes
  e_y :: bytes

definition ecc_parse_tpmt :: "bytes \<Rightarrow> ecc_public res" where
  "ecc_parse_tpmt tpmt = (let w = ''TPMT_PUBLIC'' in
     rbind (rd_u16 w ''type'' tpmt) (\<lambda>(ty, b).
     if ty \<noteq> TPM_ALG_ECC then Err (Msg ''TPMT_PUBLIC: type'' [Num (unat ty)]) else
     rbind (rd_u16 w ''nameAlg'' b) (\<lambda>(name_alg, b).
     rbind (rd_u32 w ''objectAttributes'' b) (\<lambda>(attributes, b).
     rbind (rd_tpm2b w ''authPolicy'' b) (\<lambda>(auth_policy, b).
     rbind (rd_u16 w ''symmetric.algorithm'' b) (\<lambda>(symmetric, b).
     rbind (if symmetric \<noteq> TPM_ALG_NULL then
              rbind (rd_u16 w ''symmetric.keyBits'' b) (\<lambda>(_, b).
              rbind (rd_u16 w ''symmetric.mode'' b) (\<lambda>(_, b). Ok b))
            else Ok b) (\<lambda>b.
     rbind (rd_u16 w ''scheme.scheme'' b) (\<lambda>(scheme, b).
     rbind (if scheme \<noteq> TPM_ALG_NULL then rd_u16 w ''scheme.hashAlg'' b else Ok (0, b)) (\<lambda>(scheme_hash, b).
     rbind (rd_u16 w ''curveID'' b) (\<lambda>(curve, b).
     rbind (rd_u16 w ''kdf.scheme'' b) (\<lambda>(kdf, b).
     rbind (if kdf \<noteq> TPM_ALG_NULL then
              rbind (rd_u16 w ''kdf.hashAlg'' b) (\<lambda>(_, b). Ok b)
            else Ok b) (\<lambda>b.
     rbind (rd_tpm2b w ''unique.x'' b) (\<lambda>(x, b).
     rbind (rd_tpm2b w ''unique.y'' b) (\<lambda>(y, b).
     rbind (rd_end w b) (\<lambda>_.
     Ok \<lparr>e_tpmt = tpmt, e_name_alg = name_alg, e_attributes = attributes,
         e_auth_policy = auth_policy, e_symmetric = symmetric, e_scheme = scheme,
         e_scheme_hash = scheme_hash, e_curve = curve, e_kdf = kdf, e_x = x, e_y = y\<rparr>)))))))))))))))"

definition ecc_parse_tpm2b :: "bytes \<Rightarrow> ecc_public res" where
  "ecc_parse_tpm2b b = (let w = ''TPM2B_PUBLIC'' in
     rbind (rd_tpm2b w ''size'' b) (\<lambda>(tpmt, b).
     rbind (rd_end w b) (\<lambda>_.
     ecc_parse_tpmt tpmt)))"

definition ecc_name :: "hash \<Rightarrow> ecc_public \<Rightarrow> bytes res" where
  "ecc_name H p =
     (if e_name_alg p \<noteq> TPM_ALG_SHA256 then
        Err (Msg ''nameAlg not supported (sha256 only)'' [Num (unat (e_name_alg p))])
      else Ok (be16 TPM_ALG_SHA256 @ sha256 H (e_tpmt p)))"

subsection \<open>The layout of a public area\<close>

text \<open>
  The symmetric and KDF parameters that a non-null algorithm brings are skipped by the
  parser: the layout quantifies over them.
\<close>

definition tpmt_layout :: "ecc_public \<Rightarrow> bool" where
  "tpmt_layout p \<longleftrightarrow>
     length (e_auth_policy p) < 2 ^ 16 \<and> length (e_x p) < 2 ^ 16 \<and> length (e_y p) < 2 ^ 16
     \<and> (e_scheme p = TPM_ALG_NULL \<longrightarrow> e_scheme_hash p = 0)
     \<and> (\<exists>sym kd.
         (if e_symmetric p = TPM_ALG_NULL then sym = [] else length sym = 4)
         \<and> (if e_kdf p = TPM_ALG_NULL then kd = [] else length kd = 2)
         \<and> e_tpmt p = be16 TPM_ALG_ECC @ be16 (e_name_alg p) @ be32 (e_attributes p)
             @ tpm2b_bytes (e_auth_policy p) @ be16 (e_symmetric p) @ sym @ be16 (e_scheme p)
             @ (if e_scheme p = TPM_ALG_NULL then [] else be16 (e_scheme_hash p))
             @ be16 (e_curve p) @ be16 (e_kdf p) @ kd @ tpm2b_bytes (e_x p) @ tpm2b_bytes (e_y p))"

lemma skip_two: "rbind (rd_u16 w f b) (\<lambda>(_, b). rbind (rd_u16 w g b) (\<lambda>(_, b). Ok b)) = Ok t
    \<longleftrightarrow> (\<exists>s. length s = 4 \<and> b = s @ t)"
proof
  assume "\<exists>s. length s = 4 \<and> b = s @ t"
  then obtain s where s: "length s = 4" "b = s @ t" by blast
  then have "b = be16 (un16 (take 2 s)) @ be16 (un16 (drop 2 s)) @ t"
    by (simp add: be_un)
  then show "rbind (rd_u16 w f b) (\<lambda>(_, b). rbind (rd_u16 w g b) (\<lambda>(_, b). Ok b)) = Ok t"
    by (simp add: rd.u16_iff [THEN iffD2])
next
  assume "rbind (rd_u16 w f b) (\<lambda>(_, b). rbind (rd_u16 w g b) (\<lambda>(_, b). Ok b)) = Ok t"
  then obtain a c where "b = (be16 a @ be16 c) @ t"
    by (auto simp: rbind_Ok rd_iffs)
  then show "\<exists>s. length s = 4 \<and> b = s @ t"
    by (intro exI [of _ "be16 a @ be16 c"]) simp
qed

lemma skip_one: "rbind (rd_u16 w f b) (\<lambda>(_, b). Ok b) = Ok t \<longleftrightarrow> (\<exists>s. length s = 2 \<and> b = s @ t)"
proof
  assume "\<exists>s. length s = 2 \<and> b = s @ t"
  then obtain s where s: "length s = 2" "b = s @ t" by blast
  then have "b = be16 (un16 s) @ t" by (simp add: be_un)
  then show "rbind (rd_u16 w f b) (\<lambda>(_, b). Ok b) = Ok t"
    by (simp add: rd.u16_iff [THEN iffD2])
next
  assume "rbind (rd_u16 w f b) (\<lambda>(_, b). Ok b) = Ok t"
  then show "\<exists>s. length s = 2 \<and> b = s @ t"
    by (auto simp: rbind_Ok rd_iffs intro: length_be)
qed

text \<open>Each optional part, read as one step.\<close>

lemma symmetric_part:
  "(if alg \<noteq> TPM_ALG_NULL then
      rbind (rd_u16 w f b) (\<lambda>(_, b). rbind (rd_u16 w g b) (\<lambda>(_, b). Ok b)) else Ok b) = Ok t
   \<longleftrightarrow> (\<exists>s. (if alg = TPM_ALG_NULL then s = [] else length s = 4) \<and> b = s @ t)"
  by (simp add: skip_two)

lemma scheme_part:
  "(if alg \<noteq> TPM_ALG_NULL then rd_u16 w f b else Ok (0, b)) = Ok (h, t)
   \<longleftrightarrow> (alg = TPM_ALG_NULL \<longrightarrow> h = 0) \<and> b = (if alg = TPM_ALG_NULL then [] else be16 h) @ t"
  by (auto simp: rd_iffs)

lemma kdf_part:
  "(if alg \<noteq> TPM_ALG_NULL then rbind (rd_u16 w f b) (\<lambda>(_, b). Ok b) else Ok b) = Ok t
   \<longleftrightarrow> (\<exists>s. (if alg = TPM_ALG_NULL then s = [] else length s = 2) \<and> b = s @ t)"
  by (simp add: skip_one)

lemma ecc_parse_tpmt_sound:
  assumes "ecc_parse_tpmt b = Ok p"
  shows "e_tpmt p = b \<and> tpmt_layout p"
proof -
  from assms obtain na att pol sa s1 sc sh cu ka s2 x y where
    b: "b = be16 TPM_ALG_ECC @ be16 na @ be32 att @ tpm2b_bytes pol @ be16 sa @ s1 @ be16 sc
      @ (if sc = TPM_ALG_NULL then [] else be16 sh) @ be16 cu @ be16 ka @ s2
      @ tpm2b_bytes x @ tpm2b_bytes y"
    and small: "length pol < 2 ^ 16" "length x < 2 ^ 16" "length y < 2 ^ 16"
    and opt: "if sa = TPM_ALG_NULL then s1 = [] else length s1 = 4"
      "if ka = TPM_ALG_NULL then s2 = [] else length s2 = 2" "sc = TPM_ALG_NULL \<longrightarrow> sh = 0"
    and p: "p = \<lparr>e_tpmt = b, e_name_alg = na, e_attributes = att, e_auth_policy = pol,
      e_symmetric = sa, e_scheme = sc, e_scheme_hash = sh, e_curve = cu, e_kdf = ka, e_x = x, e_y = y\<rparr>"
    unfolding ecc_parse_tpmt_def Let_def
    by (clarsimp simp only: rbind_Ok rd_iffs if_Err_Ok symmetric_part scheme_part kdf_part
        split_beta split_paired_Ex fst_conv snd_conv append_Nil2 simp_thms sum.inject)
  have "tpmt_layout p"
    unfolding tpmt_layout_def
  proof (intro conjI)
    show "\<exists>sym kd.
         (if e_symmetric p = TPM_ALG_NULL then sym = [] else length sym = 4)
         \<and> (if e_kdf p = TPM_ALG_NULL then kd = [] else length kd = 2)
         \<and> e_tpmt p = be16 TPM_ALG_ECC @ be16 (e_name_alg p) @ be32 (e_attributes p)
             @ tpm2b_bytes (e_auth_policy p) @ be16 (e_symmetric p) @ sym @ be16 (e_scheme p)
             @ (if e_scheme p = TPM_ALG_NULL then [] else be16 (e_scheme_hash p))
             @ be16 (e_curve p) @ be16 (e_kdf p) @ kd @ tpm2b_bytes (e_x p) @ tpm2b_bytes (e_y p)"
      by (rule exI [of _ s1], rule exI [of _ s2]) (unfold p, use opt b in \<open>simp\<close>)
  qed (use small opt in \<open>simp_all add: p\<close>)
  then show ?thesis by (simp add: p)
qed

lemma ecc_parse_tpmt_complete:
  assumes "tpmt_layout p"
  shows "ecc_parse_tpmt (e_tpmt p) = Ok p"
proof -
  from assms obtain s1 s2 where
    opt: "if e_symmetric p = TPM_ALG_NULL then s1 = [] else length s1 = 4"
      "if e_kdf p = TPM_ALG_NULL then s2 = [] else length s2 = 2"
      "e_scheme p = TPM_ALG_NULL \<longrightarrow> e_scheme_hash p = 0"
    and small: "length (e_auth_policy p) < 2 ^ 16" "length (e_x p) < 2 ^ 16" "length (e_y p) < 2 ^ 16"
    and b: "e_tpmt p = be16 TPM_ALG_ECC @ be16 (e_name_alg p) @ be32 (e_attributes p)
      @ tpm2b_bytes (e_auth_policy p) @ be16 (e_symmetric p) @ s1 @ be16 (e_scheme p)
      @ (if e_scheme p = TPM_ALG_NULL then [] else be16 (e_scheme_hash p))
      @ be16 (e_curve p) @ be16 (e_kdf p) @ s2 @ tpm2b_bytes (e_x p) @ tpm2b_bytes (e_y p)"
    by (auto simp: tpmt_layout_def)
  note reads = rd.u16_iff [THEN iffD2] rd.u32_iff [THEN iffD2] rd.tpm2b_iff [THEN iffD2, OF conjI]
  have sym: "(if e_symmetric p \<noteq> TPM_ALG_NULL then
      rbind (rd_u16 w f (s1 @ t)) (\<lambda>(_, b). rbind (rd_u16 w g b) (\<lambda>(_, b). Ok b)) else Ok (s1 @ t)) = Ok t"
    for w f g t using opt(1) by (auto simp: symmetric_part)
  have kdf: "(if e_kdf p \<noteq> TPM_ALG_NULL then rbind (rd_u16 w f (s2 @ t)) (\<lambda>(_, b). Ok b)
      else Ok (s2 @ t)) = Ok t"
    for w f t using opt(2) by (auto simp: kdf_part)
  have sch: "(if e_scheme p \<noteq> TPM_ALG_NULL then
      rd_u16 w f ((if e_scheme p = TPM_ALG_NULL then [] else be16 (e_scheme_hash p)) @ t)
      else Ok (0, (if e_scheme p = TPM_ALG_NULL then [] else be16 (e_scheme_hash p)) @ t))
      = Ok (e_scheme_hash p, t)"
    for w f t using opt(3) by (auto simp: scheme_part)
  have parsed: "ecc_parse_tpmt b = Ok (p \<lparr>e_tpmt := b\<rparr>)" if "b = e_tpmt p" for b
    unfolding ecc_parse_tpmt_def Let_def
    unfolding that using small
    by (simp add: b reads sym sch kdf rd_end_def cong: rbind_weak_cong)
  from parsed [OF refl] show ?thesis by simp
qed

lemma ecc_parse_tpmt_iff: "ecc_parse_tpmt b = Ok p \<longleftrightarrow> e_tpmt p = b \<and> tpmt_layout p"
  using ecc_parse_tpmt_sound ecc_parse_tpmt_complete by blast

lemma ecc_parse_tpm2b_iff:
  "ecc_parse_tpm2b b = Ok p \<longleftrightarrow>
   tpmt_layout p \<and> length (e_tpmt p) < 2 ^ 16 \<and> b = tpm2b_bytes (e_tpmt p)"
  by (auto simp: ecc_parse_tpm2b_def Let_def rbind_Ok rd_iffs ecc_parse_tpmt_iff)

interpretation ecc_codec: codec "\<lambda>p. Inr (tpm2b_bytes (e_tpmt p))" ecc_parse_tpm2b
    "\<lambda>p. tpmt_layout p \<and> length (e_tpmt p) < 2 ^ 16"
  by unfold_locales (auto simp: ecc_parse_tpm2b_iff)

lemma length_ecc_name: "ecc_name H p = Ok n \<Longrightarrow> length n = 34"
  by (auto simp: ecc_name_def split: if_splits)

end
