(* ===== verification/TpmTools.thy ===== *)
theory TpmTools
  imports Io PcrBits EccWire
begin

text \<open>
  Crate \<open>attest-tpm\<close> (\<open>lib.rs\<close>): the calls of tpm2-tools that the device binaries make.
  The tools are processes (the parameter \<open>os\<close>); modelled are the arguments the code
  passes, the order of the calls, and every parser of what the tools print. The parsers'
  acceptance conditions are stated exactly.
\<close>

section \<open>Constants and handles\<close>

definition DEFAULT_AK_HANDLE :: bytes where "DEFAULT_AK_HANDLE = lit ''0x81010100''"
definition DEFAULT_NV_COUNTER :: bytes where "DEFAULT_NV_COUNTER = lit ''0x1500016''"
definition STOP_NV_COUNTER :: bytes where "STOP_NV_COUNTER = lit ''0x1500017''"
definition TPMA_NV_AUTHWRITE :: u32 where "TPMA_NV_AUTHWRITE = push_bit 2 1"
definition TPMA_NV_AUTHREAD :: u32 where "TPMA_NV_AUTHREAD = push_bit 18 1"
definition TPMA_NV_WRITTEN :: u32 where "TPMA_NV_WRITTEN = push_bit 29 1"
definition TPMA_NV_ORDERLY :: u32 where "TPMA_NV_ORDERLY = push_bit 26 1"
definition TPMA_NV_TPM_NT_MASK :: u32 where "TPMA_NV_TPM_NT_MASK = push_bit 4 0xF"
definition TPM_NT_COUNTER :: u32 where "TPM_NT_COUNTER = push_bit 4 0x1"

definition COUNTER_NV_ATTRIBUTES :: u32 where
  "COUNTER_NV_ATTRIBUTES = TPM_NT_COUNTER OR TPMA_NV_AUTHWRITE OR TPMA_NV_AUTHREAD"

definition STOP_NV_ATTRIBUTES :: u32 where
  "STOP_NV_ATTRIBUTES = COUNTER_NV_ATTRIBUTES"

definition COUNTER_NV_ATTRIBUTES_ARG :: bytes where
  "COUNTER_NV_ATTRIBUTES_ARG = lit ''nt=counter|authread|authwrite''"

lemmas nv_attr_defs =
  TPMA_NV_AUTHWRITE_def TPMA_NV_AUTHREAD_def TPMA_NV_WRITTEN_def TPMA_NV_ORDERLY_def
  TPMA_NV_TPM_NT_MASK_def TPM_NT_COUNTER_def COUNTER_NV_ATTRIBUTES_def STOP_NV_ATTRIBUTES_def

text \<open>\<open>{n:x}\<close> of an integer.\<close>

fun hex_nat :: "nat \<Rightarrow> bytes" where
  "hex_nat n = (if n < 16 then [hex_digit n] else hex_nat (n div 16) @ [hex_digit (n mod 16)])"

declare hex_nat.simps [simp del]

definition strip_0x :: "bytes \<Rightarrow> bytes option" where
  "strip_0x v = (case strip_prefix (lit ''0x'') v of Some h \<Rightarrow> Some h | None \<Rightarrow> strip_prefix (lit ''0X'') v)"

definition parse_handle :: "bytes \<Rightarrow> nat \<Rightarrow> nat \<Rightarrow> bytes res" where
  "parse_handle v lo hi =
     rbind (ok_or (Msg ''handle must be hex with 0x prefix'' []) (strip_0x v)) (\<lambda>hex.
     rbind (ok_or (Msg ''from_str_radix'' [Txt hex]) (parse_radix 16 (2 ^ 32 - 1) hex)) (\<lambda>n.
     if n < lo \<or> n > hi then Err (Msg ''outside the handle range'' [Num lo, Num hi])
     else Ok (lit ''0x'' @ hex_nat n)))"

definition handle_from_env :: "'w os \<Rightarrow> bytes \<Rightarrow> bytes \<Rightarrow> nat \<Rightarrow> nat \<Rightarrow> bytes res" where
  "handle_from_env os key dflt lo hi =
     (let v = (case os_env os key of Some x \<Rightarrow> x | None \<Rightarrow> dflt) in
      map_err (Ctx ''handle from environment'') (parse_handle v lo hi))"

definition ak_handle :: "'w os \<Rightarrow> bytes res" where
  "ak_handle os = handle_from_env os (lit ''TACTIQ_AK_HANDLE'') DEFAULT_AK_HANDLE 0x81000000 0x81FFFFFF"

definition nv_counter :: "'w os \<Rightarrow> bytes res" where
  "nv_counter os = handle_from_env os (lit ''TACTIQ_NV_INDEX'') DEFAULT_NV_COUNTER 0x01000000 0x01FFFFFF"

section \<open>Running the tools\<close>

definition owner_auth :: "'w os \<Rightarrow> ('w, bytes option) io" where
  "owner_auth os = (case os_env os (lit ''TACTIQ_OWNER_AUTH_FILE'') of
     None \<Rightarrow> sret None
   | Some p \<Rightarrow> sbind (smap_err (\<lambda>e. Ctx ''TACTIQ_OWNER_AUTH_FILE'' (io_err e)) (os_stat os p)) (\<lambda>_.
       sret (Some (lit ''file:'' @ p))))"

fun contains :: "bytes \<Rightarrow> bytes \<Rightarrow> bool" where
  "contains p [] = (p = [])"
| "contains p (x # xs) = (starts_with p (x # xs) \<or> contains p xs)"

definition run_owner :: "'w os \<Rightarrow> bytes list \<Rightarrow> ('w, bytes) io" where
  "run_owner os args =
     sbind (owner_auth os) (\<lambda>auth.
     smap_err (\<lambda>e. let t = os_render os e in
         if auth = None \<and> (contains (lit ''auth'') t \<or> contains (lit ''0x9a2'') t \<or> contains (lit ''0x98e'') t)
         then Ctx ''hint: the owner hierarchy has an authorization on this TPM'' e else e)
       (run_tool os (args @ (case auth of Some a \<Rightarrow> [lit ''-P'', a] | None \<Rightarrow> []))))"

definition listing_has :: "bytes \<Rightarrow> bytes \<Rightarrow> bool" where
  "listing_has listing handle \<longleftrightarrow>
     list_ex (\<lambda>l. case strip_prefix (lit ''- '') (trim l) of
        Some h \<Rightarrow> eq_ignore_case (trim h) handle | None \<Rightarrow> False) (str_lines listing)"

definition handle_exists :: "'w os \<Rightarrow> bytes \<Rightarrow> ('w, bool) io" where
  "handle_exists os handle =
     sbind (run_tool os [lit ''tpm2_getcap'', lit ''handles-persistent'']) (\<lambda>out.
     sret (listing_has (utf8_lossy out) handle))"

definition nv_defined :: "'w os \<Rightarrow> bytes \<Rightarrow> ('w, bool) io" where
  "nv_defined os index =
     sbind (run_tool os [lit ''tpm2_getcap'', lit ''handles-nv-index'']) (\<lambda>out.
     sret (listing_has (utf8_lossy out) index))"

section \<open>The attestation key\<close>

definition create_ek :: "'w os \<Rightarrow> bytes \<Rightarrow> ('w, bytes) io" where
  "create_ek os work =
     (let ctx = utf8_lossy (path_join work (lit ''ek.ctx''));
          pubf = utf8_lossy (path_join work (lit ''ek.pub'')) in
      sbind (run_tool os [lit ''tpm2_createek'', lit ''-c'', ctx, lit ''-G'', lit ''rsa'', lit ''-u'', pubf]) (\<lambda>_.
      sbind (stry (run_tool os [lit ''tpm2_flushcontext'', lit ''-t''])) (\<lambda>_.
      sret ctx)))"

definition create_ak :: "'w os \<Rightarrow> bytes \<Rightarrow> ('w, unit) io" where
  "create_ak os work =
     (let pubf = utf8_lossy (path_join work (lit ''ak.pub''));
          privf = utf8_lossy (path_join work (lit ''ak.priv''));
          ctx = utf8_lossy (path_join work (lit ''ak.ctx'')) in
      sbind (create_ek os work) (\<lambda>ek.
      sbind (run_tool os
        [lit ''tpm2_createak'', lit ''-C'', ek, lit ''-c'', ctx, lit ''-G'', lit ''ecc'', lit ''-g'',
         lit ''sha256'', lit ''-s'', lit ''ecdsa'', lit ''-u'', pubf, lit ''-r'', privf]) (\<lambda>_.
      sbind (stry (run_tool os [lit ''tpm2_flushcontext'', lit ''-t''])) (\<lambda>_.
      sbind (sres (ak_handle os)) (\<lambda>h.
      sbind (run_owner os [lit ''tpm2_evictcontrol'', lit ''-C'', lit ''o'', lit ''-c'', ctx, h]) (\<lambda>_.
      sbind (stry (run_tool os [lit ''tpm2_flushcontext'', lit ''-t''])) (\<lambda>_.
      sret ())))))))"

definition read_ak_public :: "'w os \<Rightarrow> bytes \<Rightarrow> ('w, unit) io" where
  "read_ak_public os out =
     sbind (sres (ak_handle os)) (\<lambda>h.
     sbind (run_tool os [lit ''tpm2_readpublic'', lit ''-c'', h, lit ''-o'', utf8_lossy out]) (\<lambda>_.
     sret ()))"

definition same_ak :: "hash \<Rightarrow> bytes \<Rightarrow> bytes \<Rightarrow> unit res" where
  "same_ak H recorded at_handle =
     rbind (ctx ''recorded AK public area unusable'' (rbind (ecc_parse_tpm2b recorded) (ecc_name H))) (\<lambda>r.
     rbind (ctx ''object at the AK handle is not an ECC AK''
              (rbind (ecc_parse_tpm2b at_handle) (ecc_name H))) (\<lambda>h.
     if r \<noteq> h then Err (Msg ''refusing to use a key that is not the one provisioned''
        [Txt (hex_lower h), Txt (hex_lower r)])
     else Ok ()))"

definition verify_ak :: "hash \<Rightarrow> 'w os \<Rightarrow> bytes \<Rightarrow> bytes \<Rightarrow> ('w, unit) io" where
  "verify_ak H os recorded work =
     sbind (sres (ak_handle os)) (\<lambda>akh.
     sbind (handle_exists os akh) (\<lambda>there.
     if \<not> there then sfail (Msg ''no object at the handle; the recorded AK is not in this TPM'' [Txt akh])
     else
     sbind (read_file os recorded) (\<lambda>rc.
     let cur_path = path_join work (lit ''ak.handle.pub'') in
     sbind (read_ak_public os cur_path) (\<lambda>_.
     sbind (read_file os cur_path) (\<lambda>cur.
     sres (same_ak H rc cur))))))"

section \<open>The counters\<close>

definition nv_define :: "'w os \<Rightarrow> ('w, unit) io" where
  "nv_define os =
     sbind (sres (nv_counter os)) (\<lambda>nv.
     sbind (run_owner os [lit ''tpm2_nvdefine'', nv, lit ''-C'', lit ''o'', lit ''-a'', COUNTER_NV_ATTRIBUTES_ARG]) (\<lambda>_.
     sbind (run_tool os [lit ''tpm2_nvincrement'', nv, lit ''-C'', nv]) (\<lambda>_.
     sret ())))"

definition check_counter_attributes :: "u32 \<Rightarrow> unit res" where
  "check_counter_attributes attrs =
     (if attrs AND TPMA_NV_TPM_NT_MASK \<noteq> TPM_NT_COUNTER then
        Err (Msg ''not a counter index'' [Num (unat attrs)])
      else if attrs AND TPMA_NV_ORDERLY \<noteq> 0 then
        Err (Msg ''orderly: its value can roll back after a power cut'' [Num (unat attrs)])
      else if attrs AND NOT TPMA_NV_WRITTEN \<noteq> COUNTER_NV_ATTRIBUTES then
        Err (Msg ''the epoch counter must be exactly counter, authwrite, authread'' [Num (unat attrs)])
      else Ok ())"

fun nv_attr_scan :: "bytes list \<Rightarrow> u32 res" where
  "nv_attr_scan [] = Err (Msg ''no value line in the attributes block'' [])"
| "nv_attr_scan (l # ls) =
     (case strip_prefix (lit ''value:'') l of
        Some v0 \<Rightarrow>
          let v = trim v0 in
          rbind (ok_or (Msg ''attributes value is not hex'' [Txt v]) (strip_0x v)) (\<lambda>hex.
          rbind (ok_or (Msg ''attributes value'' [Txt v]) (parse_radix 16 (2 ^ 32 - 1) hex)) (\<lambda>n.
          Ok (of_nat n)))
      | None \<Rightarrow>
          if ends_with (lit '':'') l \<and> \<not> starts_with (lit ''friendly'') l
          then Err (Msg ''no value line in the attributes block'' [])
          else nv_attr_scan ls)"

definition parse_nv_attributes :: "bytes \<Rightarrow> u32 res" where
  "parse_nv_attributes listing =
     (case dropWhile (\<lambda>l. l \<noteq> lit ''attributes:'') (map trim (str_lines listing)) of
        [] \<Rightarrow> Err (Msg ''no attributes block in tpm2_nvreadpublic output'' [])
      | _ # ls \<Rightarrow> nv_attr_scan ls)"

definition verify_counter :: "'w os \<Rightarrow> ('w, unit) io" where
  "verify_counter os =
     sbind (sres (nv_counter os)) (\<lambda>nv.
     sbind (run_tool os [lit ''tpm2_nvreadpublic'', nv]) (\<lambda>out.
     sres (rbind (parse_nv_attributes (utf8_lossy out)) check_counter_attributes)))"

definition counter_of_bytes :: "bytes \<Rightarrow> u64 res" where
  "counter_of_bytes raw =
     (if length raw \<noteq> 8 then Err (Msg ''counter bytes, expected 8'' [Num (length raw)])
      else Ok (un64 raw))"

definition nv_increment_and_read :: "'w os \<Rightarrow> bytes \<Rightarrow> ('w, u64) io" where
  "nv_increment_and_read os work =
     sbind (sres (nv_counter os)) (\<lambda>nv.
     sbind (run_tool os [lit ''tpm2_nvincrement'', nv, lit ''-C'', nv]) (\<lambda>_.
     let f = path_join work (lit ''counter.bin'') in
     sbind (run_tool os [lit ''tpm2_nvread'', nv, lit ''-C'', nv, lit ''-o'', utf8_lossy f]) (\<lambda>_.
     sbind (read_file os f) (\<lambda>raw.
     sres (counter_of_bytes raw)))))"

definition stop_nv_first_write :: "'w os \<Rightarrow> ('w, unit) io" where
  "stop_nv_first_write os =
     sbind (run_tool os [lit ''tpm2_nvincrement'', STOP_NV_COUNTER, lit ''-C'', STOP_NV_COUNTER]) (\<lambda>_. sret ())"

definition stop_nv_define :: "'w os \<Rightarrow> ('w, unit) io" where
  "stop_nv_define os =
     sbind (run_owner os [lit ''tpm2_nvdefine'', STOP_NV_COUNTER, lit ''-C'', lit ''o'', lit ''-a'',
       COUNTER_NV_ATTRIBUTES_ARG]) (\<lambda>_.
     stop_nv_first_write os)"

definition check_stop_attributes :: "u32 \<Rightarrow> unit res" where
  "check_stop_attributes attrs =
     (if attrs AND NOT TPMA_NV_WRITTEN \<noteq> STOP_NV_ATTRIBUTES then
        Err (Msg ''the stop counter must be exactly counter, authwrite, authread'' [Num (unat attrs)])
      else Ok ())"

definition stop_nv_attributes :: "'w os \<Rightarrow> ('w, u32) io" where
  "stop_nv_attributes os =
     sbind (run_tool os [lit ''tpm2_nvreadpublic'', STOP_NV_COUNTER]) (\<lambda>out.
     sres (parse_nv_attributes (utf8_lossy out)))"

definition verify_stop_counter :: "'w os \<Rightarrow> ('w, unit) io" where
  "verify_stop_counter os = sbind (stop_nv_attributes os) (\<lambda>a. sres (check_stop_attributes a))"

definition stop_attributes_written :: "u32 \<Rightarrow> bool" where
  "stop_attributes_written attrs \<longleftrightarrow> attrs AND TPMA_NV_WRITTEN \<noteq> 0"

fun first_name :: "bytes list \<Rightarrow> bytes option" where
  "first_name [] = None"
| "first_name (l # ls) = (case strip_prefix (lit ''name:'') l of Some v \<Rightarrow> Some v | None \<Rightarrow> first_name ls)"

definition parse_nv_name :: "bytes \<Rightarrow> bytes res" where
  "parse_nv_name listing =
     rbind (ok_or (Msg ''no name line in tpm2_nvreadpublic output'' [])
              (map_option trim (first_name (map trim (str_lines listing))))) (\<lambda>hex.
     if hex = [] then Err (Msg ''name is not hex'' [Txt hex])
     else hex_decode_with (Msg ''name is not hex'' [Txt hex]) (Msg ''from_str_radix'' []) hex)"

definition stop_nv_name :: "'w os \<Rightarrow> ('w, bytes) io" where
  "stop_nv_name os =
     sbind (run_tool os [lit ''tpm2_nvreadpublic'', STOP_NV_COUNTER]) (\<lambda>out.
     sres (parse_nv_name (utf8_lossy out)))"

definition stop_nv_read :: "'w os \<Rightarrow> ('w, u64) io" where
  "stop_nv_read os =
     sbind (run_tool os [lit ''tpm2_nvread'', STOP_NV_COUNTER, lit ''-C'', STOP_NV_COUNTER,
       lit ''--size'', lit ''8'']) (\<lambda>raw.
     sres (counter_of_bytes raw))"

definition stop_nv_increment :: "'w os \<Rightarrow> ('w, unit) io" where
  "stop_nv_increment os =
     sbind (run_tool os [lit ''tpm2_nvincrement'', STOP_NV_COUNTER, lit ''-C'', STOP_NV_COUNTER]) (\<lambda>_. sret ())"

definition stop_nv_certify :: "'w os \<Rightarrow> bytes \<Rightarrow> bytes \<Rightarrow> bytes \<Rightarrow> ('w, unit) io" where
  "stop_nv_certify os qualifying attest sig =
     sbind (sres (ak_handle os)) (\<lambda>h.
     sbind (run_tool os
       [lit ''tpm2_nvcertify'', lit ''-C'', h, lit ''-c'', STOP_NV_COUNTER, lit ''-g'', lit ''sha256'',
        lit ''-s'', lit ''ecdsa'', lit ''-f'', lit ''plain'', lit ''-q'', hex_lower qualifying,
        lit ''--size'', lit ''8'', lit ''--offset'', lit ''0'', lit ''--attestation'', utf8_lossy attest,
        lit ''-o'', utf8_lossy sig, STOP_NV_COUNTER]) (\<lambda>_. sret ()))"

section \<open>PCRs and quotes\<close>

definition pcr_read :: "'w os \<Rightarrow> bytes \<Rightarrow> bytes \<Rightarrow> ('w, bytes) io" where
  "pcr_read os spec work =
     (let f = path_join work (lit ''pcrs.bin'') in
      sbind (run_tool os [lit ''tpm2_pcrread'', spec, lit ''-o'', utf8_lossy f]) (\<lambda>_.
      read_file os f))"

definition pcr_alg :: "bytes \<Rightarrow> u16 option" where
  "pcr_alg alg =
     (let a = trim alg in
      if a = lit ''sha1'' then Some 0x0004
      else if a = lit ''sha256'' then Some 0x000B
      else if a = lit ''sha384'' then Some 0x000C
      else if a = lit ''sha512'' then Some 0x000D
      else None)"

text \<open>The loop over the tokens: the bitmap so far and the previous index (\<open>last\<close>).\<close>

fun pcr_tokens :: "bytes list \<Rightarrow> bytes \<Rightarrow> nat option \<Rightarrow> (bytes \<times> nat option) res" where
  "pcr_tokens [] bitmap prev = Ok (bitmap, prev)"
| "pcr_tokens (t # ts) bitmap prev =
     (let tok = trim t in
      if tok = [] then Err (Msg ''empty PCR index'' [])
      else rbind (ok_or (Msg ''bad PCR index'' [Txt tok]) (parse_u8 tok)) (\<lambda>n.
      if n > 23 then Err (Msg ''PCR out of range 0..=23'' [Num n])
      else if (case prev of Some p \<Rightarrow> n \<le> p | None \<Rightarrow> False) then
        Err (Msg ''PCR indices must be strictly ascending'' [Num n])
      else pcr_tokens ts (set_pcr_bit bitmap n) (Some n)))"

definition parse_pcr_spec :: "bytes \<Rightarrow> (u16 \<times> bytes) res" where
  "parse_pcr_spec spec =
     (if 43 \<in> set spec then Err (Msg ''multi-bank selection cannot be encoded in the envelope'' [Txt spec])
      else
      rbind (ok_or (Msg ''expected <alg>:<pcr,...>'' [Txt spec]) (split_once 58 spec)) (\<lambda>(alg, lst).
      rbind (ok_or (Msg ''unknown algorithm'' [Txt alg]) (pcr_alg alg)) (\<lambda>alg_id.
      rbind (pcr_tokens (split_on 44 lst) [0, 0, 0] None) (\<lambda>(bitmap, prev).
      if prev = None then Err (Msg ''no PCRs selected'' []) else Ok (alg_id, bitmap)))))"

definition quote_qualified :: "'w os \<Rightarrow> bytes \<Rightarrow> bytes \<Rightarrow> bytes \<Rightarrow> bytes \<Rightarrow> ('w, unit) io" where
  "quote_qualified os qd spec attest sig =
     sbind (sres (ak_handle os)) (\<lambda>h.
     sbind (run_tool os
       [lit ''tpm2_quote'', lit ''-c'', h, lit ''-l'', spec, lit ''-q'', hex_lower qd,
        lit ''-m'', utf8_lossy attest, lit ''-s'', utf8_lossy sig, lit ''-g'', lit ''sha256'',
        lit ''-f'', lit ''plain'']) (\<lambda>_. sret ()))"

definition tpm_quote :: "hash \<Rightarrow> 'w os \<Rightarrow> bytes \<Rightarrow> bytes \<Rightarrow> bytes \<Rightarrow> bytes \<Rightarrow> ('w, unit) io" where
  "tpm_quote H os msg spec attest sig =
     sbind (sres (qualifying_data H msg)) (\<lambda>qd. quote_qualified os qd spec attest sig)"

section \<open>Lemmas\<close>

subsection \<open>Attributes\<close>

lemma mask_split: "a = (a AND NOT m) OR (a AND m)" for a m :: "'a :: len word"
  by (rule bit_word_eqI) (auto simp: bit_simps)

lemma and_flag: "a AND push_bit k 1 = (if bit a k then push_bit k 1 else 0)" for a :: "'a :: len word"
  by (rule bit_word_eqI) (auto simp: bit_simps simp del: push_bit_of_1)

lemma without_flag:
  fixes a c :: "'a :: len word"
  assumes "\<not> bit c k"
  shows "a AND NOT (push_bit k 1) = c \<longleftrightarrow> a = c \<or> a = c OR push_bit k 1"
proof -
  have "c AND NOT (push_bit k 1) = c"
    using assms by (intro bit_word_eqI) (auto simp: bit_simps simp del: push_bit_of_1)
  moreover have "(c OR push_bit k 1) AND NOT (push_bit k 1) = c"
    using assms by (intro bit_word_eqI) (auto simp: bit_simps simp del: push_bit_of_1)
  moreover have "a AND NOT (push_bit k 1) = c \<Longrightarrow> a = c \<or> a = c OR push_bit k 1"
    using mask_split [of a "push_bit k 1"] and_flag [of a k] by (auto split: if_splits)
  ultimately show ?thesis by auto
qed

lemma counter_attributes_value: "COUNTER_NV_ATTRIBUTES = 0x40014"
  by (simp add: nv_attr_defs)

lemma counter_not_written: "\<not> bit COUNTER_NV_ATTRIBUTES 29"
  by (simp add: counter_attributes_value)

lemma check_stop_attributes_iff:
  "check_stop_attributes a = Ok () \<longleftrightarrow> a = STOP_NV_ATTRIBUTES \<or> a = STOP_NV_ATTRIBUTES OR TPMA_NV_WRITTEN"
  unfolding check_stop_attributes_def if_Err_Ok STOP_NV_ATTRIBUTES_def TPMA_NV_WRITTEN_def
  using without_flag [OF counter_not_written, of a] by auto

lemma check_counter_attributes_iff:
  "check_counter_attributes a = Ok () \<longleftrightarrow>
   a = COUNTER_NV_ATTRIBUTES \<or> a = COUNTER_NV_ATTRIBUTES OR TPMA_NV_WRITTEN"
proof -
  have *: "a AND NOT TPMA_NV_WRITTEN = COUNTER_NV_ATTRIBUTES \<longleftrightarrow>
      a = COUNTER_NV_ATTRIBUTES \<or> a = COUNTER_NV_ATTRIBUTES OR TPMA_NV_WRITTEN"
    unfolding TPMA_NV_WRITTEN_def by (rule without_flag [OF counter_not_written])
  have "COUNTER_NV_ATTRIBUTES AND TPMA_NV_TPM_NT_MASK = TPM_NT_COUNTER"
      "(COUNTER_NV_ATTRIBUTES OR TPMA_NV_WRITTEN) AND TPMA_NV_TPM_NT_MASK = TPM_NT_COUNTER"
      "COUNTER_NV_ATTRIBUTES AND TPMA_NV_ORDERLY = 0"
      "(COUNTER_NV_ATTRIBUTES OR TPMA_NV_WRITTEN) AND TPMA_NV_ORDERLY = 0"
    by (simp_all add: nv_attr_defs)
  then show ?thesis
    unfolding check_counter_attributes_def if_Err_Ok * by auto
qed

lemma stop_attributes_written_iff: "stop_attributes_written a \<longleftrightarrow> bit a 29"
proof -
  have "(push_bit 29 1 :: u32) \<noteq> 0" by simp
  then show ?thesis
    unfolding stop_attributes_written_def TPMA_NV_WRITTEN_def and_flag by presburger
qed

subsection \<open>Handles\<close>

lemma hex_nat_hexdigits: "list_all is_hexdigit (hex_nat n)"
proof (induction n rule: hex_nat.induct)
  case (1 n)
  then show ?case by (simp add: hex_nat.simps [of n] hex_digit_hexdigit)
qed

lemma hex_nat_nonempty [simp]: "hex_nat n \<noteq> []"
  by (subst hex_nat.simps) simp

lemma radix_val_hex_nat [simp]: "radix_val 16 (hex_nat n) = n"
proof (induction n rule: hex_nat.induct)
  case (1 n)
  then show ?case
    using radix_val_snoc [of 16 "[]"] by (simp add: hex_nat.simps [of n] hex_digit_val)
qed

lemma parse_radix_hex_nat: "n \<le> m \<Longrightarrow> parse_radix 16 m (hex_nat n) = Some n"
proof -
  assume n: "n \<le> m"
  have "hd (hex_nat n) \<noteq> 43"
    using hex_nat_hexdigits [of n] hexdigit_not_plus by (cases "hex_nat n") auto
  moreover have "list_all (\<lambda>b. digit_val b < 16) (hex_nat n)"
  proof -
    have "is_hexdigit b \<Longrightarrow> digit_val b < 16" for b
      by (auto simp: digit_val_def is_hexdigit_def is_digit_def)
    then show ?thesis using hex_nat_hexdigits [of n] by (auto simp: list_all_iff)
  qed
  ultimately show ?thesis using n by (simp add: parse_radix_def)
qed

lemma parse_handle_iff:
  "parse_handle v lo hi = Ok h \<longleftrightarrow>
   (\<exists>hex n. strip_0x v = Some hex \<and> parse_radix 16 (2 ^ 32 - 1) hex = Some n
      \<and> lo \<le> n \<and> n \<le> hi \<and> h = lit ''0x'' @ hex_nat n)"
  by (auto simp: parse_handle_def rbind_Ok ok_or_Ok if_Err_Ok not_less)

lemma parse_handle_canonical:
  assumes "parse_handle v lo hi = Ok h"
  shows "parse_handle h lo hi = Ok h"
proof -
  from assms obtain n where n: "lo \<le> n" "n \<le> hi" "h = lit ''0x'' @ hex_nat n" "n \<le> 2 ^ 32 - 1"
    by (auto simp: parse_handle_iff dest: parse_radix_bound)
  then have "strip_0x h = Some (hex_nat n)"
    by (simp add: strip_0x_def strip_prefix_Some [THEN iffD2, OF refl])
  with n show ?thesis
    by (auto simp: parse_handle_iff parse_radix_hex_nat)
qed

subsection \<open>The attestation key at its handle\<close>

lemma same_ak_iff:
  "same_ak H rc at = Ok () \<longleftrightarrow>
   (\<exists>p q. ecc_parse_tpm2b rc = Ok p \<and> ecc_parse_tpm2b at = Ok q
      \<and> e_name_alg p = TPM_ALG_SHA256 \<and> e_name_alg q = TPM_ALG_SHA256
      \<and> sha256 H (e_tpmt p) = sha256 H (e_tpmt q))"
  by (auto simp: same_ak_def rbind_Ok ctx_Ok if_Err_Ok ecc_name_def split: if_splits)

subsection \<open>PCR specifications\<close>

lemma parse_u8_nonempty: "parse_u8 t = Some n \<Longrightarrow> t \<noteq> []"
  by (auto simp: parse_u8_def parse_radix_def)

lemma pcr_tokens_iff:
  "pcr_tokens ts bm prev = Ok (bm', prev') \<longleftrightarrow>
   (\<exists>is. map (\<lambda>t. parse_u8 (trim t)) ts = map Some is \<and> list_all (\<lambda>i. i \<le> 23) is
      \<and> sorted_wrt (<) is \<and> (\<forall>p. prev = Some p \<longrightarrow> list_all ((<) p) is)
      \<and> bm' = foldl set_pcr_bit bm is \<and> prev' = (if is = [] then prev else Some (last is)))"
proof (induction ts arbitrary: bm prev)
  case (Cons t ts)
  show ?case
  proof (cases "parse_u8 (trim t)")
    case None
    then show ?thesis by (auto simp: Let_def Cons_eq_map_conv)
  next
    case (Some n)
    then have ne: "trim t \<noteq> []" by (rule parse_u8_nonempty)
    have "pcr_tokens (t # ts) bm prev = Ok (bm', prev') \<longleftrightarrow>
        n \<le> 23 \<and> (\<forall>p. prev = Some p \<longrightarrow> p < n) \<and> pcr_tokens ts (set_pcr_bit bm n) (Some n) = Ok (bm', prev')"
      using ne Some by (cases prev) (auto simp: Let_def not_le not_less)
    also have "\<dots> \<longleftrightarrow> (\<exists>is. map (\<lambda>t. parse_u8 (trim t)) (t # ts) = map Some is \<and> list_all (\<lambda>i. i \<le> 23) is
      \<and> sorted_wrt (<) is \<and> (\<forall>p. prev = Some p \<longrightarrow> list_all ((<) p) is)
      \<and> bm' = foldl set_pcr_bit bm is \<and> prev' = (if is = [] then prev else Some (last is)))" (is "_ \<longleftrightarrow> ?R")
    proof
      assume "n \<le> 23 \<and> (\<forall>p. prev = Some p \<longrightarrow> p < n) \<and> pcr_tokens ts (set_pcr_bit bm n) (Some n) = Ok (bm', prev')"
      then obtain ns where ns: "n \<le> 23" "\<forall>p. prev = Some p \<longrightarrow> p < n"
          "map (\<lambda>t. parse_u8 (trim t)) ts = map Some ns" "list_all (\<lambda>i. i \<le> 23) ns"
          "sorted_wrt (<) ns" "list_all ((<) n) ns" "bm' = foldl set_pcr_bit (set_pcr_bit bm n) ns"
          "prev' = (if ns = [] then Some n else Some (last ns))"
        unfolding Cons.IH by auto
      then show ?R
        using Some by (intro exI [of _ "n # ns"]) (auto simp: list_all_iff dest: less_trans)
    next
      assume ?R
      then obtain ns where "map (\<lambda>t. parse_u8 (trim t)) ts = map Some ns" "list_all (\<lambda>i. i \<le> 23) (n # ns)"
          "sorted_wrt (<) (n # ns)" "\<forall>p. prev = Some p \<longrightarrow> list_all ((<) p) (n # ns)"
          "bm' = foldl set_pcr_bit bm (n # ns)" "prev' = Some (last (n # ns))"
        using Some by (auto simp: Cons_eq_map_conv)
      then show "n \<le> 23 \<and> (\<forall>p. prev = Some p \<longrightarrow> p < n) \<and> pcr_tokens ts (set_pcr_bit bm n) (Some n) = Ok (bm', prev')"
        unfolding Cons.IH by (auto simp: list_all_iff)
    qed
    finally show ?thesis .
  qed
qed auto

lemma parse_pcr_spec_iff:
  "parse_pcr_spec spec = Ok (alg_id, bm) \<longleftrightarrow>
   43 \<notin> set spec \<and> (\<exists>alg lst is. split_once 58 spec = Some (alg, lst) \<and> pcr_alg alg = Some alg_id
      \<and> map (\<lambda>t. parse_u8 (trim t)) (split_on 44 lst) = map Some is
      \<and> list_all (\<lambda>i. i \<le> 23) is \<and> sorted_wrt (<) is \<and> bm = pcr_mask is)"
proof -
  have "map f (split_on 44 lst) = map Some is \<Longrightarrow> is \<noteq> []" for f :: "bytes \<Rightarrow> nat option" and lst "is"
    by (metis list.map_disc_iff split_on_nonempty)
  then show ?thesis
    by (fastforce simp: parse_pcr_spec_def if_Err_Ok rbind_Ok ok_or_Ok pcr_tokens_iff pcr_mask_def)
qed

lemma split_join: "list_all (\<lambda>p. c \<notin> set p) ps \<Longrightarrow> ps \<noteq> [] \<Longrightarrow> split_on c (join_on c ps) = ps"
  by (induction c ps rule: join_on.induct) (auto simp: split_on_no_sep_id split_on_append_sep)

lemma dec_graphic: "b \<in> set (dec n) \<Longrightarrow> is_graphic b \<and> b \<noteq> 44 \<and> b \<noteq> 43 \<and> b \<noteq> 58"
  using dec_digits [of n] by (force simp: list_all_iff is_digit_def is_graphic_def)

lemma trim_dec [simp]: "trim (dec n) = dec n"
  using dec_graphic [of _ n] by (intro trim_graphic_edges) auto

text \<open>The spelling the agent uses for a selection parses to its mask.\<close>

definition pcr_spec :: "nat list \<Rightarrow> bytes" where
  "pcr_spec sel = lit ''sha256'' @ 58 # join_on 44 (map dec sel)"

lemma set_join_on: "set (join_on c ps) \<subseteq> insert c (\<Union> (set ` set ps))"
  by (induction c ps rule: join_on.induct) auto

lemma pcr_alg_sha256: "pcr_alg (lit ''sha256'') = Some 0x000B"
proof -
  have "trim (lit ''sha256'') = lit ''sha256''"
    by (rule trim_graphic_edges) (simp_all add: lit_def is_graphic_def)
  then show ?thesis by (simp add: pcr_alg_def lit_def)
qed

lemma parse_pcr_spec_canonical:
  assumes "sel \<noteq> []" "sorted_wrt (<) sel" "list_all (\<lambda>i. i \<le> 23) sel"
  shows "parse_pcr_spec (pcr_spec sel) = Ok (0x000B, pcr_mask sel)"
proof -
  have "set (join_on 44 (map dec sel)) \<subseteq> insert 44 (\<Union> (set ` set (map dec sel)))"
    by (rule set_join_on)
  moreover have "43 \<notin> insert 44 (\<Union> (set ` set (map dec sel)))"
    using dec_graphic [of 43] by auto
  ultimately have "43 \<notin> set (join_on 44 (map dec sel))" by blast
  moreover have "43 \<notin> set (lit ''sha256'')" "58 \<notin> set (lit ''sha256'')"
    by (simp_all add: lit_def)
  ultimately have plus: "43 \<notin> set (pcr_spec sel)"
    and split: "split_once 58 (pcr_spec sel) = Some (lit ''sha256'', join_on 44 (map dec sel))"
    unfolding pcr_spec_def split_once_Some by simp_all
  have "split_on 44 (join_on 44 (map dec sel)) = map dec sel"
    using assms(1) dec_graphic by (intro split_join) (auto simp: list_all_iff)
  moreover have "map (\<lambda>t. parse_u8 (trim t)) (map dec sel) = map Some sel"
    using assms(3) by (auto simp: parse_u8_def parse_radix_dec list_all_iff)
  ultimately show ?thesis
    unfolding parse_pcr_spec_iff using plus split pcr_alg_sha256 assms(2,3)
    by (intro conjI exI [of _ "lit ''sha256''"] exI [of _ "join_on 44 (map dec sel)"] exI [of _ sel]) simp_all
qed

end
