(* ===== verification/Verdict.thy ===== *)
theory Verdict
  imports Envelope
begin

text \<open>
  The vocabulary of crate \<open>attest-appraise\<close>: evidence kinds (\<open>evidence.rs\<close>), verdicts
  (\<open>verdict.rs\<close>), reference values (\<open>reference.rs\<close>), and the cryptography the crate
  takes from \<open>p256\<close> and \<open>sha2\<close> as one record of parameters.
\<close>

section \<open>Cryptography, a parameter\<close>

text \<open>
  ECDSA and the curve are the crate \<open>p256\<close>: the two signature decoders, the
  verification of a signature over a message under a key, and the decoder of an
  uncompressed point. No property is assumed of them.
\<close>

record ('k, 's) crypto =
  c_hash :: hash
  c_sig_from_der :: "bytes \<Rightarrow> 's option"
  c_sig_from_slice :: "bytes \<Rightarrow> 's option"
  c_verify :: "'k \<Rightarrow> bytes \<Rightarrow> 's \<Rightarrow> bool"
  c_vk_from_point :: "bytes \<Rightarrow> bytes \<Rightarrow> 'k option"

text \<open>DER first, then the fixed 64-byte form.\<close>

definition decode_sig :: "('k, 's) crypto \<Rightarrow> bytes \<Rightarrow> 's option" where
  "decode_sig C b = (case c_sig_from_der C b of Some s \<Rightarrow> Some s | None \<Rightarrow> c_sig_from_slice C b)"

definition signed_by :: "('k, 's) crypto \<Rightarrow> 'k \<Rightarrow> bytes \<Rightarrow> bytes \<Rightarrow> bool" where
  "signed_by C vk m b = (case decode_sig C b of None \<Rightarrow> False | Some s \<Rightarrow> c_verify C vk m s)"

section \<open>Evidence kinds\<close>

datatype evidence_kind = TpmQuote | GpuAttest | CpuTee

definition kind_from_tag :: "u16 \<Rightarrow> evidence_kind option" where
  "kind_from_tag tag =
     (if tag = TAG_TPM_QUOTE then Some TpmQuote
      else if tag = TAG_GPU_ATTEST then Some GpuAttest
      else if tag = TAG_CPU_TEE then Some CpuTee
      else None)"

section \<open>Verdicts\<close>

datatype outcome = Accept | Reject

datatype reason =
    Accepted | SignatureFail | UnknownDevice | Malformed | EvidenceBindingFail | QuoteBindingFail
  | Stale | PersistFail | UnrecognizedState | EvidenceUnparseable
  | EvidenceMissing evidence_kind | EvidenceUnrecognized evidence_kind

record verdict =
  v_outcome :: outcome
  v_reason :: reason

definition verdict_accept :: verdict where
  "verdict_accept = \<lparr>v_outcome = Accept, v_reason = Accepted\<rparr>"

definition verdict_reject :: "reason \<Rightarrow> verdict" where
  "verdict_reject r = \<lparr>v_outcome = Reject, v_reason = r\<rparr>"

definition is_accept :: "verdict \<Rightarrow> bool" where
  "is_accept v \<longleftrightarrow> v_outcome v = Accept"

lemma verdict_simps [simp]:
  "is_accept verdict_accept" "\<not> is_accept (verdict_reject r)"
  "verdict_reject r \<noteq> verdict_accept" "verdict_accept \<noteq> verdict_reject r"
  "verdict_reject r = verdict_reject r' \<longleftrightarrow> r = r'"
  by (simp_all add: is_accept_def verdict_accept_def verdict_reject_def)

section \<open>Reference values\<close>

record pcr_selection =
  ps_hash_alg :: u16
  ps_pcr_mask :: bytes

definition selection_from_canonical :: "bytes \<Rightarrow> pcr_selection" where
  "selection_from_canonical b = \<lparr>ps_hash_alg = un16 [b ! 0, b ! 1], ps_pcr_mask = [b ! 2, b ! 3, b ! 4]\<rparr>"

definition selection_to_canonical :: "pcr_selection \<Rightarrow> bytes" where
  "selection_to_canonical s =
     (let a = be16 (ps_hash_alg s) in
      [a ! 0, a ! 1, ps_pcr_mask s ! 0, ps_pcr_mask s ! 1, ps_pcr_mask s ! 2])"

record attested_state =
  as_selection :: pcr_selection
  as_composite :: bytes

record reference_set =
  rs_expected_selection :: pcr_selection
  rs_allowed :: "bytes list"
  rs_required_evidence :: "evidence_kind list"

definition reference_new :: "pcr_selection \<Rightarrow> bytes list \<Rightarrow> reference_set" where
  "reference_new sel al =
     \<lparr>rs_expected_selection = sel, rs_allowed = al, rs_required_evidence = []\<rparr>"

definition reference_require :: "reference_set \<Rightarrow> evidence_kind \<Rightarrow> reference_set" where
  "reference_require rs k = rs\<lparr>rs_required_evidence := rs_required_evidence rs @ [k]\<rparr>"

definition reference_contains :: "reference_set \<Rightarrow> bytes \<Rightarrow> bool" where
  "reference_contains rs c \<longleftrightarrow> list_ex (\<lambda>g. g = c) (rs_allowed rs)"

lemma reference_contains_iff: "reference_contains rs c \<longleftrightarrow> c \<in> set (rs_allowed rs)"
  by (auto simp: reference_contains_def list_ex_iff)

lemma two_bytes: "length b = 2 \<Longrightarrow> [b ! 0, b ! Suc 0] = b"
  by (auto simp: numeral_eq_Suc length_Suc_conv)

lemma selection_to_from:
  assumes "length b = PCR_SELECTION_LEN"
  shows "selection_to_canonical (selection_from_canonical b) = b"
proof -
  have "be16 (un16 [b ! 0, b ! 1]) = [b ! 0, b ! 1]" by (simp add: be_un)
  moreover have "[b ! 0, b ! Suc 0, b ! 2, b ! 3, b ! 4] = b"
    using assms by (auto simp: numeral_eq_Suc length_Suc_conv)
  ultimately show ?thesis
    by (simp add: selection_to_canonical_def selection_from_canonical_def)
qed

lemma selection_from_to:
  assumes "length (ps_pcr_mask s) = 3"
  shows "selection_from_canonical (selection_to_canonical s) = s"
proof -
  from assms obtain a b c where "ps_pcr_mask s = [a, b, c]"
    by (auto simp: numeral_eq_Suc length_Suc_conv)
  moreover have "[be16 (ps_hash_alg s) ! 0, be16 (ps_hash_alg s) ! Suc 0] = be16 (ps_hash_alg s)"
    by (simp add: two_bytes)
  ultimately show ?thesis
    by (simp add: selection_to_canonical_def selection_from_canonical_def Let_def)
qed

end
