(* ===== verification/Release.thy ===== *)
theory Release
  imports Verdict
begin

text \<open>
  The operator's release (\<open>tactiq-stop/release.rs\<close>): the two-line record, its strict
  parser and the check of a release for a device and an epoch. The parser accepts one
  spelling of each record, so the signed bytes have one reading.
\<close>

section \<open>Operations\<close>

definition MAX_RECORD :: nat where [simp]: "MAX_RECORD = 256"
definition MAX_SIG :: nat where [simp]: "MAX_SIG = 80"

record release =
  r_device_id :: bytes
  r_epoch :: u64

text \<open>\<open>OperatorKey::from_pem\<close>; reading the PEM is the crate \<open>p256\<close>.\<close>

definition operator_key_from_pem :: "(bytes \<Rightarrow> 'k option) \<Rightarrow> bytes \<Rightarrow> 'k res" where
  "operator_key_from_pem from_public_key_pem pem =
     ok_or (Msg ''operator key: not a P-256 public key'' []) (from_public_key_pem pem)"

definition release_parse :: "bytes \<Rightarrow> release res" where
  "release_parse rc =
     (if length rc > MAX_RECORD then Err (Msg ''release: too many bytes'' [Num (length rc)])
      else if \<not> utf8_valid rc then Err (Msg ''release: not ASCII'' [])
      else if \<not> list_all is_ascii rc \<or> 13 \<in> set rc then
        Err (Msg ''release: not plain ASCII with LF line ends'' [])
      else
      rbind (ok_or (Msg ''release: must end with a newline'' []) (strip_suffix [10] rc)) (\<lambda>body.
      case split_on 10 body of
        [dev, ep] \<Rightarrow>
          rbind (ok_or (Msg ''release: first line must be device <id>'' [])
                   (strip_prefix (lit ''device '') dev)) (\<lambda>device_id.
          if device_id = [] \<or> length device_id > DEVICE_ID_LEN \<or> \<not> list_all is_graphic device_id then
            Err (Msg ''release: not a valid device id'' [])
          else
          rbind (ok_or (Msg ''release: second line must be epoch <n>'' [])
                   (strip_prefix (lit ''epoch '') ep)) (\<lambda>n.
          rbind (ok_or (Msg ''release: epoch is not a number'' [Txt n]) (parse_u64 n)) (\<lambda>epoch.
          if dec epoch \<noteq> n then Err (Msg ''release: epoch is not written canonically'' [Txt n])
          else if odd epoch then Err (Msg ''release: epoch is odd'' [Num epoch])
          else Ok \<lparr>r_device_id = device_id, r_epoch = of_nat epoch\<rparr>)))
      | ls \<Rightarrow> Err (Msg ''release: lines, expected 2 (device, epoch)'' [Num (length ls)])))"

definition release_check :: "('k, 's) crypto \<Rightarrow> 'k \<Rightarrow> bytes \<Rightarrow> bytes \<Rightarrow> bytes \<Rightarrow> u64 \<Rightarrow> unit res" where
  "release_check C key rc sig_der device_id epoch =
     (if length sig_der > MAX_SIG then Err (Msg ''release: signature of too many bytes'' [Num (length sig_der)])
      else
      rbind (ok_or (Msg ''release: signature is not DER ECDSA'' []) (c_sig_from_der C sig_der)) (\<lambda>sig.
      if \<not> c_verify C key rc sig then
        Err (Msg ''release: signature does not verify against the operator key'' [])
      else
      rbind (release_parse rc) (\<lambda>r.
      if r_device_id r \<noteq> device_id then
        Err (Msg ''release names another device'' [Txt (r_device_id r), Txt device_id])
      else if r_epoch r \<noteq> epoch then
        Err (Msg ''release names another epoch'' [Num (unat (r_epoch r)), Num (unat epoch)])
      else Ok ())))"

section \<open>The one spelling of a release\<close>

definition release_bytes :: "release \<Rightarrow> bytes" where
  "release_bytes r =
     lit ''device '' @ r_device_id r @ 10 # lit ''epoch '' @ dec (unat (r_epoch r)) @ [10]"

definition valid_device_id :: "bytes \<Rightarrow> bool" where
  "valid_device_id d \<longleftrightarrow> d \<noteq> [] \<and> length d \<le> DEVICE_ID_LEN \<and> list_all is_graphic d"

definition wf_release :: "release \<Rightarrow> bool" where
  "wf_release r \<longleftrightarrow> valid_device_id (r_device_id r) \<and> even (unat (r_epoch r))"

lemma length_dec: "n < 10 ^ k \<Longrightarrow> 0 < k \<Longrightarrow> length (dec n) \<le> k"
proof (induction n arbitrary: k rule: dec.induct)
  case (1 n)
  show ?case
  proof (cases "n < 10")
    case True
    then show ?thesis using "1.prems"(2) by (simp add: dec.simps [of n])
  next
    case False
    then obtain j where k: "k = Suc j" "0 < j"
      using "1.prems" by (cases k; cases "k - 1") auto
    then have "n div 10 < 10 ^ j" using "1.prems"(1) by (simp add: less_mult_imp_div_less mult.commute)
    then have "length (dec (n div 10)) \<le> j" using "1.IH" [of j] False k(2) by simp
    then show ?thesis using False k(1) by (simp add: dec.simps [of n])
  qed
qed

lemma length_dec_u64: "length (dec (unat (e :: u64))) \<le> 20"
  using unat_bound [of e] by (intro length_dec) simp_all

lemma graphic_facts: "is_graphic b \<Longrightarrow> is_ascii b \<and> b \<noteq> 10 \<and> b \<noteq> 13"
  by (auto simp: is_graphic_def is_ascii_def)

lemma digit_graphic: "is_digit b \<Longrightarrow> is_graphic b"
  by (auto simp: is_graphic_def is_digit_def)

lemma release_bytes_plain:
  assumes "wf_release r"
  shows "list_all is_ascii (release_bytes r)" "13 \<notin> set (release_bytes r)" "length (release_bytes r) \<le> 256"
proof -
  let ?d = "r_device_id r" and ?n = "dec (unat (r_epoch r))"
  have g: "list_all is_graphic ?d" "list_all is_graphic ?n"
    using assms dec_digits [of "unat (r_epoch r)"] digit_graphic
    by (auto simp: wf_release_def valid_device_id_def list_all_iff)
  have l: "list_all is_ascii (lit ''device '' @ lit ''epoch '')" "13 \<notin> set (lit ''device '' @ lit ''epoch '')"
    by (simp_all add: lit_def is_ascii_def)
  show "list_all is_ascii (release_bytes r)"
    using g l(1) graphic_facts by (auto simp: release_bytes_def list_all_iff is_ascii_def)
  show "13 \<notin> set (release_bytes r)"
    using g l(2) graphic_facts by (auto simp: release_bytes_def list_all_iff)
  show "length (release_bytes r) \<le> 256"
    using assms length_dec_u64 [of "r_epoch r"]
    by (simp add: release_bytes_def wf_release_def valid_device_id_def)
qed

lemma release_parse_complete:
  assumes "wf_release r"
  shows "release_parse (release_bytes r) = Ok r"
proof -
  let ?d = "r_device_id r" and ?n = "dec (unat (r_epoch r))"
  let ?dev = "lit ''device '' @ ?d" and ?ep = "lit ''epoch '' @ ?n"
  note plain = release_bytes_plain [OF assms]
  have body: "release_bytes r = (?dev @ 10 # ?ep) @ [10]" by (simp add: release_bytes_def)
  have g: "list_all is_graphic ?d" "list_all is_graphic ?n"
    using assms dec_digits [of "unat (r_epoch r)"] digit_graphic
    by (auto simp: wf_release_def valid_device_id_def list_all_iff)
  have no: "10 \<notin> set ?d" "10 \<notin> set ?n"
    using g graphic_facts unfolding list_all_iff by blast+
  then have "10 \<notin> set ?dev" "10 \<notin> set ?ep"
    by (auto simp: lit_def)
  then have split: "split_on 10 (?dev @ 10 # ?ep) = [?dev, ?ep]"
    by (metis split_on_append_sep split_on_no_sep_id)
  have "parse_u64 ?n = Some (unat (r_epoch r))"
    unfolding parse_u64_def using unat_bound [of "r_epoch r"] by (intro parse_radix_dec) simp
  moreover have "utf8_valid (release_bytes r)" using plain(1) by (rule utf8_valid_ascii)
  ultimately show ?thesis
    using plain assms
    by (simp add: release_parse_def body [THEN strip_suffix_Some [THEN iffD2]] split [simplified]
        strip_prefix_Some [THEN iffD2, OF refl] wf_release_def valid_device_id_def)
qed

lemma release_parse_sound:
  assumes "release_parse rc = Ok r"
  shows "wf_release r \<and> rc = release_bytes r"
proof -
  from assms obtain body where body: "rc = body @ [10]"
    and rest: "(case split_on 10 body of
        [dev, ep] \<Rightarrow>
          rbind (ok_or (Msg ''release: first line must be device <id>'' [])
                   (strip_prefix (lit ''device '') dev)) (\<lambda>device_id.
          if device_id = [] \<or> length device_id > DEVICE_ID_LEN \<or> \<not> list_all is_graphic device_id then
            Err (Msg ''release: not a valid device id'' [])
          else
          rbind (ok_or (Msg ''release: second line must be epoch <n>'' [])
                   (strip_prefix (lit ''epoch '') ep)) (\<lambda>n.
          rbind (ok_or (Msg ''release: epoch is not a number'' [Txt n]) (parse_u64 n)) (\<lambda>epoch.
          if dec epoch \<noteq> n then Err (Msg ''release: epoch is not written canonically'' [Txt n])
          else if odd epoch then Err (Msg ''release: epoch is odd'' [Num epoch])
          else Ok \<lparr>r_device_id = device_id, r_epoch = of_nat epoch\<rparr>)))
      | ls \<Rightarrow> Err (Msg ''release: lines, expected 2 (device, epoch)'' [Num (length ls)])) = Ok r"
    unfolding release_parse_def if_Err_Ok rbind_Ok ok_or_Ok strip_suffix_Some by blast
  from rest obtain dev ep where lines: "split_on 10 body = [dev, ep]"
    by (auto split: list.splits)
  with rest obtain d n e where d: "dev = lit ''device '' @ d" "valid_device_id d"
    and n: "ep = lit ''epoch '' @ n" "parse_u64 n = Some e" "dec e = n" "even e"
    and r: "r = \<lparr>r_device_id = d, r_epoch = of_nat e\<rparr>"
    by (auto simp: if_Err_Ok rbind_Ok ok_or_Ok strip_prefix_Some valid_device_id_def not_less)
  have "e < 2 ^ 64" using parse_radix_bound [OF n(2) [unfolded parse_u64_def]] by simp
  then have e: "unat (r_epoch r) = e" by (simp add: r unat_of_nat)
  have "body = dev @ 10 # ep" using join_split [of 10 body] by (simp add: lines)
  then show ?thesis
    using d n e by (simp add: r wf_release_def release_bytes_def body)
qed

lemma release_parse_iff: "release_parse rc = Ok r \<longleftrightarrow> wf_release r \<and> rc = release_bytes r"
  using release_parse_sound release_parse_complete by blast

interpretation release_codec: codec "\<lambda>r. Inr (release_bytes r)" release_parse wf_release
  by unfold_locales (auto simp: release_parse_iff)

lemma release_check_iff:
  "release_check C key rc sig d e = Ok () \<longleftrightarrow>
   length sig \<le> 80 \<and> (\<exists>s. c_sig_from_der C sig = Some s \<and> c_verify C key rc s)
   \<and> valid_device_id d \<and> even (unat e) \<and> rc = release_bytes \<lparr>r_device_id = d, r_epoch = e\<rparr>"
proof -
  have "(\<exists>r. release_parse rc = Ok r \<and> r_device_id r = d \<and> r_epoch r = e) \<longleftrightarrow>
      valid_device_id d \<and> even (unat e) \<and> rc = release_bytes \<lparr>r_device_id = d, r_epoch = e\<rparr>"
    by (auto simp: release_parse_iff wf_release_def intro: exI [of _ "\<lparr>r_device_id = d, r_epoch = e\<rparr>"])
      (metis (full_types) release.surjective old.unit.exhaust)
  then show ?thesis
    by (auto simp: release_check_def if_Err_Ok rbind_Ok ok_or_Ok)
qed

end
