(* ===== verification/StopPort.thy ===== *)
theory StopPort
  imports TpmTools Release
begin

text \<open>
  The view the stop service has of the machine (\<open>tactiq-stop/port.rs\<close>): the trait
  \<open>StopTpm\<close> as a record of steps over a world, the release files, and \<open>Real\<close>, the
  instance the binary uses, over the tools of \<open>attest-tpm\<close>.
\<close>

section \<open>The traits\<close>

record 'w stop_tpm =
  t_read_counter :: "('w, u64) io"
  t_increment :: "('w, unit) io"
  t_certify :: "bytes \<Rightarrow> ('w, bytes \<times> bytes) io"
  t_pcr_read :: "bytes \<Rightarrow> ('w, bytes) io"
  t_quote :: "bytes \<Rightarrow> bytes \<Rightarrow> ('w, bytes \<times> bytes) io"

type_synonym 'w release_store = "('w, (bytes \<times> bytes) option) io"

section \<open>Release files\<close>

text \<open>
  \<open>read_bounded\<close>: at most one byte past the limit is read, a longer file is an error, a
  missing one is \<open>None\<close>.
\<close>

definition read_bounded :: "'w os \<Rightarrow> bytes \<Rightarrow> nat \<Rightarrow> ('w, bytes option) io" where
  "read_bounded os p limit =
     sbind (stry (os_read os p)) (\<lambda>r.
     case r of
       Inl NotFound \<Rightarrow> sret None
     | Inl (OtherIo e) \<Rightarrow> sfail (Ctx ''read'' e)
     | Inr content \<Rightarrow>
         let buf = take (limit + 1) content in
         if length buf > limit then sfail (Msg ''more than limit bytes'' [Txt p, Num limit])
         else sret (Some buf))"

record release_files =
  rf_record :: bytes
  rf_sig :: bytes

definition release_files_read :: "'w os \<Rightarrow> release_files \<Rightarrow> 'w release_store" where
  "release_files_read os rf =
     sbind (read_bounded os (rf_record rf) MAX_RECORD) (\<lambda>rc.
     case rc of
       None \<Rightarrow> sret None
     | Some rc \<Rightarrow>
         sbind (read_bounded os (rf_sig rf) MAX_SIG) (\<lambda>sig.
         case sig of Some sig \<Rightarrow> sret (Some (rc, sig)) | None \<Rightarrow> sret None))"

section \<open>The chip through the tools\<close>

definition read_pair :: "'w os \<Rightarrow> bytes \<Rightarrow> bytes \<Rightarrow> ('w, bytes \<times> bytes) io" where
  "read_pair os a s =
     sbind (read_file os a) (\<lambda>attest. sbind (read_file os s) (\<lambda>sig. sret (attest, sig)))"

definition real_tpm :: "'w os \<Rightarrow> bytes \<Rightarrow> 'w stop_tpm" where
  "real_tpm os scratch =
     \<lparr>t_read_counter = stop_nv_read os,
      t_increment = stop_nv_increment os,
      t_certify = (\<lambda>qualifying.
        let a = path_join scratch (lit ''certify.attest''); s = path_join scratch (lit ''certify.sig'') in
        sbind (stop_nv_certify os qualifying a s) (\<lambda>_. read_pair os a s)),
      t_pcr_read = (\<lambda>spec. pcr_read os spec scratch),
      t_quote = (\<lambda>qualifying spec.
        let a = path_join scratch (lit ''quote.attest''); s = path_join scratch (lit ''quote.sig'') in
        sbind (quote_qualified os qualifying spec a s) (\<lambda>_. read_pair os a s))\<rparr>"

section \<open>Lemmas\<close>

lemma read_bounded_Ok:
  "read_bounded os p n w = (Inr r, w') \<longleftrightarrow>
   (case r of
      None \<Rightarrow> os_read os p w = (Inl NotFound, w')
    | Some b \<Rightarrow> os_read os p w = (Inr b, w') \<and> length b \<le> n)"
proof (cases "os_read os p w")
  case (Pair x w1)
  then have step: "read_bounded os p n w = (case x of
       Inl NotFound \<Rightarrow> (Inr None, w1)
     | Inl (OtherIo e) \<Rightarrow> (Inl (Ctx ''read'' e), w1)
     | Inr content \<Rightarrow>
         if length (take (n + 1) content) > n then (Inl (Msg ''more than limit bytes'' [Txt p, Num n]), w1)
         else (Inr (Some (take (n + 1) content)), w1))"
    by (simp add: read_bounded_def sbind_def stry_def Let_def split: sum.split io_error.split)
  show ?thesis
  proof (cases x)
    case (Inl e)
    with step Pair show ?thesis by (cases e; cases r) auto
  next
    case (Inr b)
    have "length (take (n + 1) b) \<le> n \<longleftrightarrow> length b \<le> n" by auto
    with Inr step Pair show ?thesis by (cases "length b \<le> n"; cases r) auto
  qed
qed

lemma release_files_read_Some:
  "release_files_read os rf w = (Inr (Some (rc, sig)), w') \<longleftrightarrow>
   (\<exists>w1. os_read os (rf_record rf) w = (Inr rc, w1) \<and> length rc \<le> MAX_RECORD
      \<and> os_read os (rf_sig rf) w1 = (Inr sig, w') \<and> length sig \<le> MAX_SIG)"
proof -
  have "release_files_read os rf w = (Inr (Some (rc, sig)), w') \<longleftrightarrow>
      (\<exists>w1. read_bounded os (rf_record rf) MAX_RECORD w = (Inr (Some rc), w1)
         \<and> read_bounded os (rf_sig rf) MAX_SIG w1 = (Inr (Some sig), w'))"
    by (auto simp: release_files_read_def sbind_Ok split: option.splits)
  then show ?thesis by (simp add: read_bounded_Ok)
qed

lemma counter_of_bytes_iff: "counter_of_bytes raw = Ok c \<longleftrightarrow> raw = be64 c"
  by (auto simp: counter_of_bytes_def be_un)

text \<open>The service reads the counter from the tool's standard output, eight bytes exactly.\<close>

lemma real_read_counter_Ok:
  "t_read_counter (real_tpm os scratch) w = (Inr c, w') \<longleftrightarrow>
   (\<exists>errs. os_run os [lit ''tpm2_nvread'', STOP_NV_COUNTER, lit ''-C'', STOP_NV_COUNTER,
       lit ''--size'', lit ''8''] w = (Inr (True, be64 c, errs), w'))"
  by (auto simp: real_tpm_def stop_nv_read_def sbind_Ok run_tool_Ok counter_of_bytes_iff)

end
