(* ===== verification/StopFormat.thy ===== *)
theory StopFormat
  imports Envelope Reader
begin

text \<open>
  Crate \<open>attest-stop\<close> (\<open>lib.rs\<close>): the stop record, the NV certify section, the
  receipt, the domain-separated digests, the parser of \<open>TPM2_NV_Certify\<close> output and
  the check that a certify proves the epoch of a record. Encoders and parsers are shown
  to be each other's inverses on exactly the layouts of the module documentation.
\<close>

section \<open>Stop records\<close>

definition STOP_RECORD_VERSION :: byte where "STOP_RECORD_VERSION = 0x01"
definition HEAD_LEN :: nat where [simp]: "HEAD_LEN = 1 + 1 + 1 + 1 + 8 + 32"
definition STATUS_LEN :: nat where [simp]: "STATUS_LEN = HEAD_LEN"
definition REFUSAL_LEN :: nat where [simp]: "REFUSAL_LEN = HEAD_LEN + 32"
definition NONCE_MIN :: nat where [simp]: "NONCE_MIN = 16"
definition NONCE_MAX :: nat where [simp]: "NONCE_MAX = 64"
definition KIND_REFUSAL :: byte where "KIND_REFUSAL = 0x01"
definition KIND_STATUS :: byte where "KIND_STATUS = 0x02"
definition STATE_RUNNING :: byte where "STATE_RUNNING = 0x01"
definition STATE_STOPPED :: byte where "STATE_STOPPED = 0x02"

lemmas stop_consts =
  STOP_RECORD_VERSION_def KIND_REFUSAL_def KIND_STATUS_def STATE_RUNNING_def STATE_STOPPED_def

datatype stop_state = Running | Stopped

definition state_to_byte :: "stop_state \<Rightarrow> byte" where
  "state_to_byte s = (case s of Running \<Rightarrow> STATE_RUNNING | Stopped \<Rightarrow> STATE_STOPPED)"

definition state_from_byte :: "byte \<Rightarrow> stop_state res" where
  "state_from_byte b =
     (if b = STATE_RUNNING then Ok Running else if b = STATE_STOPPED then Ok Stopped
      else Err (Msg ''stop record: state byte is not valid'' [Num (unat b)]))"

datatype stop_kind = Refusal (kind_request_digest: bytes) | Status

record stop_record =
  sr_kind :: stop_kind
  sr_state :: stop_state
  sr_stop_epoch :: u64
  sr_policy_digest :: bytes

definition is_refusal :: "stop_kind \<Rightarrow> bool" where
  "is_refusal k = (case k of Refusal _ \<Rightarrow> True | Status \<Rightarrow> False)"

definition record_encode :: "stop_record \<Rightarrow> bytes res" where
  "record_encode r =
     (if is_refusal (sr_kind r) \<and> sr_state r = Running then
        Err (Msg ''stop record: a refusal must carry state = stopped'' [])
      else Ok ([STOP_RECORD_VERSION,
           (case sr_kind r of Refusal _ \<Rightarrow> KIND_REFUSAL | Status \<Rightarrow> KIND_STATUS),
           state_to_byte (sr_state r), 0]
         @ be64 (sr_stop_epoch r) @ sr_policy_digest r
         @ (case sr_kind r of Refusal d \<Rightarrow> d | Status \<Rightarrow> [])))"

definition parse_kind :: "bytes \<Rightarrow> stop_state \<Rightarrow> stop_kind res" where
  "parse_kind body state =
     (let k = body ! 1 in
      if k = KIND_STATUS then
        if length body \<noteq> STATUS_LEN then Err (Msg ''stop record: status length'' [Num (length body)])
        else Ok Status
      else if k = KIND_REFUSAL then
        if length body \<noteq> REFUSAL_LEN then Err (Msg ''stop record: refusal length'' [Num (length body)])
        else if state \<noteq> Stopped then Err (Msg ''stop record: refusal with state = running'' [])
        else Ok (Refusal (slice HEAD_LEN REFUSAL_LEN body))
      else Err (Msg ''stop record: kind byte is not valid'' [Num (unat k)]))"

definition record_parse :: "bytes \<Rightarrow> stop_record res" where
  "record_parse body =
     (if length body < HEAD_LEN then
        Err (Msg ''stop record: shorter than the head'' [Num (length body)])
      else if body ! 0 \<noteq> STOP_RECORD_VERSION then
        Err (Msg ''stop record: unknown version'' [Num (unat (body ! 0))])
      else rbind (state_from_byte (body ! 2)) (\<lambda>state.
      if body ! 3 \<noteq> 0 then Err (Msg ''stop record: reserved byte'' [Num (unat (body ! 3))])
      else
        let epoch = un64 (slice 4 12 body); policy_digest = slice 12 HEAD_LEN body in
        rbind (parse_kind body state) (\<lambda>kind.
        Ok \<lparr>sr_kind = kind, sr_state = state, sr_stop_epoch = epoch,
            sr_policy_digest = policy_digest\<rparr>)))"

definition check_nonce :: "bytes \<Rightarrow> unit res" where
  "check_nonce body =
     (if length body < NONCE_MIN \<or> length body > NONCE_MAX
      then Err (Msg ''verifier nonce'' [Num (length body)]) else Ok ())"

text \<open>The array widths that the Rust type gives a record.\<close>

definition wf_record :: "stop_record \<Rightarrow> bool" where
  "wf_record r \<longleftrightarrow> length (sr_policy_digest r) = 32
     \<and> (case sr_kind r of Refusal d \<Rightarrow> length d = 32 | Status \<Rightarrow> True)"

lemma state_from_byte_iff: "state_from_byte b = Ok s \<longleftrightarrow> b = state_to_byte s"
  by (cases s) (auto simp: state_from_byte_def state_to_byte_def stop_consts)

lemma parse_kind_iff:
  assumes "44 \<le> length body"
  shows "parse_kind body s = Ok k \<longleftrightarrow>
    (case k of
       Status \<Rightarrow> body ! 1 = KIND_STATUS \<and> length body = 44
     | Refusal d \<Rightarrow> body ! 1 = KIND_REFUSAL \<and> length body = 76 \<and> s = Stopped \<and> d = drop 44 body)"
  by (cases k) (auto simp: parse_kind_def Let_def slice_def stop_consts)

lemma list_four: "4 \<le> length b \<Longrightarrow> b = [b ! 0, b ! 1, b ! 2, b ! 3] @ drop 4 b"
  by (auto simp: numeral_eq_Suc Suc_le_length_iff)

lemma record_parse_sound:
  assumes "record_parse b = Ok r"
  shows "wf_record r \<and> record_encode r = Ok b"
proof -
  from assms obtain state kind where len: "44 \<le> length b"
    and v: "b ! 0 = STOP_RECORD_VERSION" "b ! 2 = state_to_byte state" "b ! 3 = 0"
    and k: "parse_kind b state = Ok kind"
    and r: "r = \<lparr>sr_kind = kind, sr_state = state, sr_stop_epoch = un64 (slice 4 12 b),
                 sr_policy_digest = slice 12 44 b\<rparr>"
    by (auto simp: record_parse_def Let_def rbind_Ok if_Err_Ok state_from_byte_iff)
  have "b = [b ! 0, b ! 1, b ! 2, b ! 3] @ drop 4 b"
    using len by (intro list_four) simp
  moreover have "drop 4 b = be64 (un64 (slice 4 12 b)) @ slice 12 44 b @ drop 44 b"
  proof -
    have "drop 4 b = slice 4 12 b @ drop 12 b"
      using append_take_drop_id [of 8 "drop 4 b"] by (simp add: slice_def add.commute)
    moreover have "drop 12 b = slice 12 44 b @ drop 44 b"
      using append_take_drop_id [of 32 "drop 12 b"] by (simp add: slice_def add.commute)
    ultimately show ?thesis using len by (simp add: be_un)
  qed
  ultimately have b: "b = [b ! 0, b ! 1, b ! 2, b ! 3]
      @ be64 (un64 (slice 4 12 b)) @ slice 12 44 b @ drop 44 b" by simp
  show ?thesis
    using k b v len unfolding parse_kind_iff [OF len]
    by (cases kind) (auto simp: r wf_record_def record_encode_def is_refusal_def)
qed

lemma record_parse_complete:
  assumes "record_encode r = Ok b" "wf_record r"
  shows "record_parse b = Ok r"
proof -
  from assms(1) have b: "b = [STOP_RECORD_VERSION,
       (case sr_kind r of Refusal _ \<Rightarrow> KIND_REFUSAL | Status \<Rightarrow> KIND_STATUS),
       state_to_byte (sr_state r), 0]
     @ be64 (sr_stop_epoch r) @ sr_policy_digest r
     @ (case sr_kind r of Refusal d \<Rightarrow> d | Status \<Rightarrow> [])"
    and stopped: "is_refusal (sr_kind r) \<Longrightarrow> sr_state r = Stopped"
    by (auto simp: record_encode_def if_Err_Ok intro: stop_state.exhaust)
  have len: "44 \<le> length b" and pd: "length (sr_policy_digest r) = 32"
    using assms(2) by (simp_all add: b wf_record_def)
  have e: "un64 (slice 4 12 b) = sr_stop_epoch r"
    by (simp add: b slice_def)
  have p: "slice 12 44 b = sr_policy_digest r"
    using pd by (simp add: b slice_def)
  have k: "parse_kind b (sr_state r) = Ok (sr_kind r)"
    unfolding parse_kind_iff [OF len]
    using assms(2) stopped pd by (auto simp: b wf_record_def is_refusal_def split: stop_kind.splits)
  show ?thesis
    using len k e p
    by (simp add: record_parse_def Let_def state_from_byte_iff [THEN iffD2, OF refl]
        b [THEN arg_cong [of _ _ "\<lambda>x. x ! 0"]] b [THEN arg_cong [of _ _ "\<lambda>x. x ! 2"]]
        b [THEN arg_cong [of _ _ "\<lambda>x. x ! 3"]])
qed

lemma record_parse_iff: "record_parse b = Ok r \<longleftrightarrow> wf_record r \<and> record_encode r = Ok b"
  using record_parse_sound record_parse_complete by blast

interpretation record_codec: codec record_encode record_parse wf_record
  by unfold_locales (simp_all add: record_parse_iff)

lemma record_encode_ok_iff: "is_ok (record_encode r) \<longleftrightarrow> (is_refusal (sr_kind r) \<longrightarrow> sr_state r = Stopped)"
  by (cases "sr_state r") (simp_all add: record_encode_def)

lemma length_record_encode:
  "record_encode r = Ok b \<Longrightarrow> wf_record r \<Longrightarrow>
   length b = (if is_refusal (sr_kind r) then REFUSAL_LEN else STATUS_LEN)"
  by (auto simp: record_encode_def wf_record_def is_refusal_def if_Err_Ok split: stop_kind.splits)

section \<open>Domain-separated digests\<close>

definition request_digest :: "hash \<Rightarrow> bytes \<Rightarrow> bytes \<Rightarrow> bytes \<Rightarrow> bytes" where
  "request_digest H meth path body =
     sha256 H (lit ''tactiq-stop/request/v1'' @ [0] @ meth @ [0] @ path @ [0] @ body)"

definition stop_quote_qualifying :: "hash \<Rightarrow> bytes \<Rightarrow> bytes" where
  "stop_quote_qualifying H msg = sha256 H (lit ''tactiq-stop/quote/v1'' @ [0] @ msg)"

definition certify_qualifying :: "hash \<Rightarrow> bytes \<Rightarrow> bytes \<Rightarrow> bytes" where
  "certify_qualifying H record_body nonce =
     sha256 H (lit ''tactiq-stop/certify/v1'' @ [0] @ record_body @ nonce)"

lemma length_digests [simp, byte_simps]:
  "length (request_digest H m p b) = 32" "length (stop_quote_qualifying H msg) = 32"
  "length (certify_qualifying H r n) = 32"
  by (simp_all add: request_digest_def stop_quote_qualifying_def certify_qualifying_def)

text \<open>A NUL ends method and path: the fields cannot be moved across the separators.\<close>

lemma append_zero_inj:
  assumes "a @ 0 # x = a' @ (0 :: byte) # y" "0 \<notin> set a" "0 \<notin> set a'"
  shows "a = a' \<and> x = y"
proof -
  have "takeWhile (\<lambda>b. b \<noteq> 0) (a @ 0 # x) = a" "takeWhile (\<lambda>b. b \<noteq> 0) (a' @ 0 # y) = a'"
    using assms(2,3) by (auto simp: takeWhile_append2 takeWhile_tail)
  with assms(1) have "a = a'" by metis
  with assms(1) show ?thesis by simp
qed

lemma request_preimage_inj:
  assumes "0 \<notin> set m" "0 \<notin> set p" "0 \<notin> set m'" "0 \<notin> set p'"
    and "m @ [0] @ p @ [0] @ b = m' @ [0] @ p' @ [0] @ (b' :: bytes)"
  shows "m = m' \<and> p = p' \<and> b = b'"
proof -
  have "m = m' \<and> p @ 0 # b = p' @ 0 # b'"
    using assms by (intro append_zero_inj) auto
  moreover from this have "p = p' \<and> b = b'"
    using assms by (intro append_zero_inj) auto
  ultimately show ?thesis by simp
qed

text \<open>
  The record is a prefix of the certify preimage whose length its own kind byte fixes:
  record and nonce cannot trade bytes.
\<close>

lemma record_kind_byte:
  "record_encode r = Ok b \<Longrightarrow>
   \<exists>x. b = STOP_RECORD_VERSION # (if is_refusal (sr_kind r) then KIND_REFUSAL else KIND_STATUS) # x"
  by (cases "sr_kind r") (auto simp: record_encode_def is_refusal_def if_Err_Ok)

lemma record_nonce_inj:
  assumes "record_parse a = Ok r" "record_parse a' = Ok r'" "a @ n = a' @ n'"
  shows "a = a' \<and> n = n'"
proof -
  from assms have w: "wf_record r" "wf_record r'" "record_encode r = Ok a" "record_encode r' = Ok a'"
    by (simp_all add: record_parse_iff)
  have "is_refusal (sr_kind r) = is_refusal (sr_kind r')"
    using record_kind_byte [OF w(3)] record_kind_byte [OF w(4)] assms(3)
    by (auto simp: stop_consts split: if_splits)
  then have "length a = length a'"
    using w length_record_encode by metis
  with assms(3) show ?thesis by simp
qed

section \<open>The bounded reader \<open>Reader\<close>\<close>

definition ATTEST_MAX :: nat where [simp]: "ATTEST_MAX = 2048"
definition SIG_MAX :: nat where [simp]: "SIG_MAX = 512"
definition BUNDLE_MAX :: nat where [simp]: "BUNDLE_MAX = 64 * 1024"

definition lr_take :: "string \<Rightarrow> nat \<Rightarrow> nat \<Rightarrow> bytes \<Rightarrow> (bytes \<times> bytes) res" where
  "lr_take what n m b =
     (if n = 0 \<or> n > m then Err (Ctx what (Msg ''length outside bounds'' [Num n, Num m]))
      else if n > length b then Err (Ctx what (Msg ''length exceeds the bytes left'' [Num n, Num (length b)]))
      else Ok (take n b, drop n b))"

definition lr_take16 :: "string \<Rightarrow> nat \<Rightarrow> bytes \<Rightarrow> (bytes \<times> bytes) res" where
  "lr_take16 what m b =
     (if length b < 2 then Err (Ctx what (Msg ''truncated length'' []))
      else lr_take what (unat (un16 [b ! 0, b ! 1])) m (drop 2 b))"

definition lr_take32 :: "string \<Rightarrow> nat \<Rightarrow> bytes \<Rightarrow> (bytes \<times> bytes) res" where
  "lr_take32 what m b =
     (if length b < 4 then Err (Ctx what (Msg ''truncated length'' []))
      else lr_take what (unat (un32 [b ! 0, b ! 1, b ! 2, b ! 3])) m (drop 4 b))"

definition lr_finish :: "string \<Rightarrow> bytes \<Rightarrow> unit res" where
  "lr_finish what b = (if b \<noteq> [] then Err (Ctx what (Msg ''trailing bytes'' [Num (length b)])) else Ok ())"

lemma take_2_4:
  "2 \<le> length b \<Longrightarrow> [b ! 0, b ! Suc 0] = take 2 b"
  "4 \<le> length c \<Longrightarrow> [c ! 0, c ! Suc 0, c ! 2, c ! 3] = take 4 c"
  by (auto simp: numeral_eq_Suc Suc_le_length_iff)

interpretation lr: bounded_reader "lr_take w" "lr_take16 w" "lr_take32 w" for w
  by unfold_locales (auto simp: lr_take_def lr_take16_def lr_take32_def is_ok_def take_2_4)

lemma lr_finish_iff: "lr_finish w b = Ok u \<longleftrightarrow> b = []"
  by (simp add: lr_finish_def)

lemmas lr_iffs = lr.take16_iff lr.take32_iff lr_finish_iff

end
