(* ===== verification/StopReceipt.thy ===== *)
theory StopReceipt
  imports StopFormat
begin

text \<open>
  The second half of \<open>attest-stop\<close>: the NV certify section, the receipt, the parser of
  the structure \<open>TPM2_NV_Certify\<close> signs, and \<open>check_counter_certify\<close>. Each codec is
  an instance of the \<open>codec\<close> interface, the reader \<open>Be\<close> of the reader interface.
\<close>

section \<open>The certify section\<close>

record nv_certify =
  nc_attest :: bytes
  nc_sig :: bytes

definition bounded_part :: "nat \<Rightarrow> bytes \<Rightarrow> bool" where
  "bounded_part m v \<longleftrightarrow> v \<noteq> [] \<and> length v \<le> m"

definition nv_certify_encode :: "nv_certify \<Rightarrow> bytes res" where
  "nv_certify_encode n =
     (if nc_attest n = [] \<or> length (nc_attest n) > ATTEST_MAX then
        Err (Msg ''nv certify: attest bytes'' [Num (length (nc_attest n))])
      else if nc_sig n = [] \<or> length (nc_sig n) > SIG_MAX then
        Err (Msg ''nv certify: signature bytes'' [Num (length (nc_sig n))])
      else Ok (be16 (len16 (nc_attest n)) @ nc_attest n @ be16 (len16 (nc_sig n)) @ nc_sig n))"

definition nv_certify_parse :: "bytes \<Rightarrow> nv_certify res" where
  "nv_certify_parse body =
     rbind (lr_take16 ''nv certify attest'' ATTEST_MAX body) (\<lambda>(attest, r).
     rbind (lr_take16 ''nv certify signature'' SIG_MAX r) (\<lambda>(sig, r).
     rbind (lr_finish ''nv certify'' r) (\<lambda>_.
     Ok \<lparr>nc_attest = attest, nc_sig = sig\<rparr>)))"

lemma nv_certify_encode_iff:
  "nv_certify_encode n = Ok b \<longleftrightarrow> bounded_part ATTEST_MAX (nc_attest n) \<and> bounded_part SIG_MAX (nc_sig n)
     \<and> b = part16 (nc_attest n) @ part16 (nc_sig n)"
  by (auto simp: nv_certify_encode_def part16_def bounded_part_def)

lemma nv_certify_parse_iff: "nv_certify_parse b = Ok n \<longleftrightarrow> nv_certify_encode n = Ok b"
  unfolding nv_certify_encode_iff
  by (cases n) (auto simp: nv_certify_parse_def rbind_Ok lr_iffs bounded_part_def)

interpretation nv_certify_codec: codec nv_certify_encode nv_certify_parse "\<lambda>_. True"
  by unfold_locales (simp_all add: nv_certify_parse_iff)

section \<open>Receipts\<close>

definition RECEIPT_MAGIC :: bytes where "RECEIPT_MAGIC = lit ''TQSR''"
definition RECEIPT_VERSION :: byte where "RECEIPT_VERSION = 0x01"
definition RECEIPT_MSG_LEN :: nat where [simp]: "RECEIPT_MSG_LEN = 93"

lemma length_RECEIPT_MAGIC [simp]: "length RECEIPT_MAGIC = 4"
  by (simp add: RECEIPT_MAGIC_def)

record receipt =
  rc_msg :: bytes
  rc_quote_attest :: bytes
  rc_quote_sig :: bytes
  rc_bundle :: bytes

fun check_parts :: "(string \<times> bytes \<times> nat) list \<Rightarrow> unit res" where
  "check_parts [] = Ok ()"
| "check_parts ((name, v, m) # ps) =
     (if v = [] \<or> length v > m then Err (Msg ''receipt: part bytes'' [Txt (lit name), Num (length v)])
      else check_parts ps)"

definition receipt_encode :: "receipt \<Rightarrow> bytes res" where
  "receipt_encode r =
     (if length (rc_msg r) \<noteq> RECEIPT_MSG_LEN then Err (Msg ''receipt: message bytes'' [Num (length (rc_msg r))])
      else rbind (check_parts [(''quote attest'', rc_quote_attest r, ATTEST_MAX),
                               (''quote signature'', rc_quote_sig r, SIG_MAX),
                               (''bundle'', rc_bundle r, BUNDLE_MAX)]) (\<lambda>_.
      Ok (RECEIPT_MAGIC @ RECEIPT_VERSION
        # concat (map (\<lambda>v. be32 (len32 v) @ v)
            [rc_msg r, rc_quote_attest r, rc_quote_sig r, rc_bundle r]))))"

definition receipt_parse :: "bytes \<Rightarrow> receipt res" where
  "receipt_parse b =
     (if length b < 5 \<or> take 4 b \<noteq> RECEIPT_MAGIC then Err (Msg ''receipt: missing TQSR magic'' [])
      else if b ! 4 \<noteq> RECEIPT_VERSION then Err (Msg ''receipt: unknown version'' [Num (unat (b ! 4))])
      else
     rbind (lr_take32 ''receipt message'' RECEIPT_MSG_LEN (drop 5 b)) (\<lambda>(msg, r).
     if length msg \<noteq> RECEIPT_MSG_LEN then Err (Msg ''receipt: message bytes'' [Num (length msg)])
     else
     rbind (lr_take32 ''receipt quote attest'' ATTEST_MAX r) (\<lambda>(attest, r).
     rbind (lr_take32 ''receipt quote signature'' SIG_MAX r) (\<lambda>(sig, r).
     rbind (lr_take32 ''receipt bundle'' BUNDLE_MAX r) (\<lambda>(bundle, r).
     rbind (lr_finish ''receipt'' r) (\<lambda>_.
     Ok \<lparr>rc_msg = msg, rc_quote_attest = attest, rc_quote_sig = sig, rc_bundle = bundle\<rparr>))))))"

lemma receipt_encode_iff:
  "receipt_encode r = Ok b \<longleftrightarrow> length (rc_msg r) = 93 \<and> bounded_part ATTEST_MAX (rc_quote_attest r)
     \<and> bounded_part SIG_MAX (rc_quote_sig r) \<and> bounded_part BUNDLE_MAX (rc_bundle r)
     \<and> b = RECEIPT_MAGIC @ RECEIPT_VERSION # part32 (rc_msg r) @ part32 (rc_quote_attest r)
           @ part32 (rc_quote_sig r) @ part32 (rc_bundle r)"
  by (auto simp: receipt_encode_def part32_def bounded_part_def)

lemma receipt_head:
  "\<not> (length b < 5 \<or> take 4 b \<noteq> RECEIPT_MAGIC) \<and> b ! 4 = RECEIPT_VERSION
   \<longleftrightarrow> b = RECEIPT_MAGIC @ RECEIPT_VERSION # drop 5 b" (is "?l \<longleftrightarrow> ?r")
proof
  assume l: ?l
  then have "drop 4 b = b ! 4 # drop 5 b"
    using Cons_nth_drop_Suc [of 4 b] by simp
  with l show ?r using append_take_drop_id [of 4 b] by metis
next
  assume r: ?r
  then have "length b = length (RECEIPT_MAGIC @ RECEIPT_VERSION # drop 5 b)" by simp
  then have "5 \<le> length b" by simp
  moreover have "take 4 b = RECEIPT_MAGIC" by (subst r) simp
  moreover have "b ! 4 = RECEIPT_VERSION" by (subst r) (simp add: nth_append)
  ultimately show ?l by simp
qed

lemma receipt_parse_iff: "receipt_parse b = Ok r \<longleftrightarrow> receipt_encode r = Ok b"
proof -
  have "receipt_parse b = Ok r \<longleftrightarrow> (b = RECEIPT_MAGIC @ RECEIPT_VERSION # drop 5 b) \<and>
      drop 5 b = part32 (rc_msg r) @ part32 (rc_quote_attest r) @ part32 (rc_quote_sig r) @ part32 (rc_bundle r)
      \<and> length (rc_msg r) = 93 \<and> bounded_part ATTEST_MAX (rc_quote_attest r)
      \<and> bounded_part SIG_MAX (rc_quote_sig r) \<and> bounded_part BUNDLE_MAX (rc_bundle r)"
    unfolding receipt_head [symmetric]
    by (cases r) (auto simp: receipt_parse_def rbind_Ok if_Err_Ok lr_iffs bounded_part_def)
  also have "\<dots> \<longleftrightarrow> receipt_encode r = Ok b"
    unfolding receipt_encode_iff by (auto dest: arg_cong [of _ _ "drop 5"])
  finally show ?thesis .
qed

interpretation receipt_codec: codec receipt_encode receipt_parse "\<lambda>_. True"
  by unfold_locales (simp_all add: receipt_parse_iff)

section \<open>The structure \<open>TPM2_NV_Certify\<close> signs\<close>

definition TPM_GENERATED :: u32 where "TPM_GENERATED = 0xFF544347"
definition ST_ATTEST_NV :: u16 where "ST_ATTEST_NV = 0x8014"

record tpm_clock =
  tc_clock :: u64
  tc_reset_count :: u32
  tc_restart_count :: u32
  tc_safe :: bool

definition same_boot :: "tpm_clock \<Rightarrow> tpm_clock \<Rightarrow> bool" where
  "same_boot a b \<longleftrightarrow> tc_reset_count a = tc_reset_count b \<and> tc_restart_count a = tc_restart_count b"

record nv_certify_info =
  ni_qualified_signer :: bytes
  ni_extra_data :: bytes
  ni_clock :: tpm_clock
  ni_index_name :: bytes
  ni_offset :: u16
  ni_contents :: bytes

definition be_take :: "nat \<Rightarrow> bytes \<Rightarrow> (bytes \<times> bytes) res" where
  "be_take n b =
     (if n > length b then Err (Msg ''nv certify: needs bytes'' [Num n, Num (length b)])
      else Ok (take n b, drop n b))"

definition be_skip :: "nat \<Rightarrow> bytes \<Rightarrow> bytes res" where
  "be_skip n b = rbind (be_take n b) (\<lambda>(_, r). Ok r)"

definition be_u16 :: "bytes \<Rightarrow> (u16 \<times> bytes) res" where
  "be_u16 b = rbind (be_take 2 b) (\<lambda>(h, r). Ok (un16 h, r))"

definition be_u32 :: "bytes \<Rightarrow> (u32 \<times> bytes) res" where
  "be_u32 b = rbind (be_take 4 b) (\<lambda>(h, r). Ok (un32 h, r))"

definition be_u64 :: "bytes \<Rightarrow> (u64 \<times> bytes) res" where
  "be_u64 b = rbind (be_take 8 b) (\<lambda>(h, r). Ok (un64 h, r))"

definition be_tpm2b :: "bytes \<Rightarrow> (bytes \<times> bytes) res" where
  "be_tpm2b b = rbind (be_u16 b) (\<lambda>(n, r). be_take (unat n) r)"

interpretation be: wide_reader be_take be_u16 be_tpm2b be_u32 be_u64
  by unfold_locales
     (simp_all add: be_take_def be_u16_def be_u32_def be_u64_def be_tpm2b_def is_ok_def)

lemma be_skip_iff: "be_skip n b = Ok t \<longleftrightarrow> (\<exists>h. b = h @ t \<and> length h = n)"
  by (simp add: be_skip_def rbind_Ok be.take_iff split_beta split_paired_Ex)

lemmas be_iffs = be.u16_iff be.u32_iff be.u64_iff be.tpm2b_iff be.take_iff be_skip_iff

definition nv_safe_of :: "byte \<Rightarrow> bool res" where
  "nv_safe_of v =
     (if v = 0 then Ok False else if v = 1 then Ok True
      else Err (Msg ''nv certify: safe, want 0 or 1'' [Num (unat v)]))"

definition parse_nv_certify_info :: "bytes \<Rightarrow> nv_certify_info res" where
  "parse_nv_certify_info attest =
     rbind (be_u32 attest) (\<lambda>(magic, r).
     if magic \<noteq> TPM_GENERATED then Err (Msg ''nv certify: not a TPM-generated structure'' []) else
     rbind (be_u16 r) (\<lambda>(t, r).
     if t \<noteq> ST_ATTEST_NV then Err (Msg ''nv certify: type'' [Num (unat t)]) else
     rbind (be_tpm2b r) (\<lambda>(signer, r).
     rbind (be_tpm2b r) (\<lambda>(extra, r).
     rbind (be_u64 r) (\<lambda>(clock, r).
     rbind (be_u32 r) (\<lambda>(reset, r).
     rbind (be_u32 r) (\<lambda>(restart, r).
     rbind (be_take 1 r) (\<lambda>(s, r).
     rbind (nv_safe_of (s ! 0)) (\<lambda>safe.
     rbind (be_skip 8 r) (\<lambda>r.
     rbind (be_tpm2b r) (\<lambda>(index_name, r).
     rbind (be_u16 r) (\<lambda>(offset, r).
     rbind (be_tpm2b r) (\<lambda>(contents, r).
     if r \<noteq> [] then Err (Msg ''nv certify: trailing bytes'' [Num (length r)]) else
     Ok \<lparr>ni_qualified_signer = signer, ni_extra_data = extra,
         ni_clock = \<lparr>tc_clock = clock, tc_reset_count = reset, tc_restart_count = restart, tc_safe = safe\<rparr>,
         ni_index_name = index_name, ni_offset = offset, ni_contents = contents\<rparr>)))))))))))))"

definition bool_byte :: "bool \<Rightarrow> byte" where
  "bool_byte s = (if s then 1 else 0)"

text \<open>
  The layout, with the eight bytes of firmware version that the parser skips;
  \<open>build_nv_certify_info_for_tests\<close> is the instance with a fixed firmware version.
\<close>

definition nv_info_bytes :: "bytes \<Rightarrow> nv_certify_info \<Rightarrow> bytes" where
  "nv_info_bytes fw i =
     be32 TPM_GENERATED @ be16 ST_ATTEST_NV
     @ tpm2b_bytes (ni_qualified_signer i) @ tpm2b_bytes (ni_extra_data i)
     @ be64 (tc_clock (ni_clock i)) @ be32 (tc_reset_count (ni_clock i))
     @ be32 (tc_restart_count (ni_clock i)) @ bool_byte (tc_safe (ni_clock i)) # fw
     @ tpm2b_bytes (ni_index_name i) @ be16 (ni_offset i) @ tpm2b_bytes (ni_contents i)"

definition build_nv_certify_info_for_tests :: "nv_certify_info \<Rightarrow> bytes" where
  "build_nv_certify_info_for_tests i = nv_info_bytes (replicate 8 0x22) i"

definition wf_nv_info :: "nv_certify_info \<Rightarrow> bool" where
  "wf_nv_info i \<longleftrightarrow> length (ni_qualified_signer i) < 2 ^ 16 \<and> length (ni_extra_data i) < 2 ^ 16
     \<and> length (ni_index_name i) < 2 ^ 16 \<and> length (ni_contents i) < 2 ^ 16"

lemma nv_safe_of_iff: "nv_safe_of v = Ok s \<longleftrightarrow> v = bool_byte s"
  by (auto simp: nv_safe_of_def bool_byte_def)

lemma take_one_iff: "be_take 1 b = Ok (h, t) \<longleftrightarrow> (\<exists>x. h = [x] \<and> b = x # t)"
  by (auto simp: be.take_iff length_Suc_conv)

lemma nv_info_parse_sound:
  assumes "parse_nv_certify_info b = Ok i"
  shows "wf_nv_info i \<and> (\<exists>fw. length fw = 8 \<and> b = nv_info_bytes fw i)"
proof -
  from assms obtain fw where "length fw = 8" "b = nv_info_bytes fw i" "wf_nv_info i"
    unfolding parse_nv_certify_info_def
    by (clarsimp simp: rbind_Ok be.u16_iff be.u32_iff be.u64_iff be.tpm2b_iff be_skip_iff
        take_one_iff [simplified] if_Err_Ok nv_safe_of_iff nv_info_bytes_def wf_nv_info_def)
  then show ?thesis by blast
qed

lemma nv_info_parse_complete:
  assumes "wf_nv_info i" "length fw = 8"
  shows "parse_nv_certify_info (nv_info_bytes fw i) = Ok i"
proof -
  note reads = be.u16_iff [THEN iffD2] be.u32_iff [THEN iffD2]
    be.u64_iff [THEN iffD2] be.tpm2b_read_back be.tpm2b_read_back [of _ "[]", unfolded append_Nil2]
  have skip: "be_skip 8 (fw @ t) = Ok t" for t
    using assms(2) by (auto simp: be_skip_iff)
  have one: "be_take (Suc 0) (x # t) = Ok ([x], t)" for x t
    by (simp add: be_take_def)
  show ?thesis
    unfolding parse_nv_certify_info_def nv_info_bytes_def
    using assms(1) unfolding wf_nv_info_def
    by (simp add: reads skip one nv_safe_of_iff [THEN iffD2, OF refl] cong: rbind_weak_cong)
qed

lemma nv_info_parse_iff:
  "parse_nv_certify_info b = Ok i \<longleftrightarrow> wf_nv_info i \<and> (\<exists>fw. length fw = 8 \<and> b = nv_info_bytes fw i)"
  using nv_info_parse_sound nv_info_parse_complete by blast

section \<open>The check of a certify\<close>

definition check_counter_certify :: "bytes \<Rightarrow> bytes \<Rightarrow> bytes \<Rightarrow> u64 \<Rightarrow> unit res" where
  "check_counter_certify attest qualifying index_name stop_epoch =
     rbind (parse_nv_certify_info attest) (\<lambda>i.
     if ni_extra_data i \<noteq> qualifying then Err (Msg ''nv certify: bound to a different record or nonce'' [])
     else if ni_index_name i \<noteq> index_name then Err (Msg ''nv certify: certifies a different NV index'' [])
     else if ni_offset i \<noteq> 0 \<or> length (ni_contents i) \<noteq> 8 then
       Err (Msg ''nv certify: covers bytes at offset'' [Num (length (ni_contents i)), Num (unat (ni_offset i))])
     else
       let v = un64 (ni_contents i) in
       if v \<noteq> stop_epoch then Err (Msg ''nv certify: the TPM read'' [Num (unat v), Num (unat stop_epoch)])
       else Ok ())"

lemma check_counter_certify_iff:
  "check_counter_certify a q n e = Ok () \<longleftrightarrow>
   (\<exists>i. parse_nv_certify_info a = Ok i \<and> ni_extra_data i = q \<and> ni_index_name i = n
      \<and> ni_offset i = 0 \<and> ni_contents i = be64 e)"
proof -
  have "length c = 8 \<and> un64 c = e \<longleftrightarrow> c = be64 e" for c
    by (auto simp: be_un)
  then show ?thesis
    by (auto simp: check_counter_certify_def rbind_Ok if_Err_Ok Let_def)
qed

definition STOP_NV_INDEX :: u32 where "STOP_NV_INDEX = 0x01500017"
definition STOP_NV_ATTRIBUTES_WRITTEN :: u32 where "STOP_NV_ATTRIBUTES_WRITTEN = 0x20040014"

definition stop_index_name :: "hash \<Rightarrow> bytes" where
  "stop_index_name H =
     (let pub_area = be32 STOP_NV_INDEX @ be16 0x000B @ be32 STOP_NV_ATTRIBUTES_WRITTEN @ be16 0 @ be16 8
      in be16 0x000B @ sha256 H pub_area)"

lemma length_stop_index_name [simp, byte_simps]: "length (stop_index_name H) = 34"
  by (simp add: stop_index_name_def)

end
