(* ===== verification/StopCore.thy ===== *)
theory StopCore
  imports StopPort StopReceipt
begin

text \<open>
  The decisions of the stop service (\<open>tactiq-stop/core.rs\<close>): the gate, the admission of
  one call, the signed status, the assembly of a receipt, and the transitions of the stop
  counter. Each operation is a step over the world of the TPM; a failure of any call is a
  value, and every caller turns it into a refusal.
\<close>

section \<open>The gate\<close>

definition state_of :: "u64 \<Rightarrow> stop_state" where
  "state_of counter = (if counter mod 2 = 0 then Running else Stopped)"

record ('w, 'k) lift =
  l_device_id :: bytes
  l_operator_key :: 'k
  l_release :: "'w release_store"

datatype gate_answer = Open | GateStopped | Unreleased err

definition gate_state :: "gate_answer \<Rightarrow> stop_state" where
  "gate_state g = (case g of Open \<Rightarrow> Running | _ \<Rightarrow> Stopped)"

definition gate :: "('k, 's) crypto \<Rightarrow> ('w, 'k) lift \<Rightarrow> u64 \<Rightarrow> ('w, gate_answer) io" where
  "gate C lift counter =
     (if state_of counter = Stopped then sret GateStopped
      else sbind (l_release lift) (\<lambda>r.
        case r of
          None \<Rightarrow> sret (Unreleased (Msg ''no operator release on the device'' []))
        | Some (rc, sig) \<Rightarrow>
            (case release_check C (l_operator_key lift) rc sig (l_device_id lift) counter of
               Inr _ \<Rightarrow> sret Open
             | Inl e \<Rightarrow> sret (Unreleased e))))"

section \<open>Receipts\<close>

record ('w, 'k) stop_ctx =
  x_lift :: "('w, 'k) lift"
  x_device_id :: bytes
  x_pcr_spec :: bytes
  x_pcr_alg :: u16
  x_pcr_bitmap :: bytes
  x_policy_digest :: bytes
  x_stop_index_name :: bytes

text \<open>What is bound before the quote: the bundle and the canonical message.\<close>

definition sign ::
  "('k, 's) crypto \<Rightarrow> 'w stop_tpm \<Rightarrow> ('w, 'k) stop_ctx \<Rightarrow> stop_record \<Rightarrow> bytes \<Rightarrow> ('w, bytes) io" where
  "sign C T x rcd nonce =
     sbind (sres (record_encode rcd)) (\<lambda>body.
     let qd = certify_qualifying (c_hash C) body nonce in
     sbind (t_certify T qd) (\<lambda>(c_attest, c_sig).
     sbind (sres (check_counter_certify c_attest qd (x_stop_index_name x) (sr_stop_epoch rcd))) (\<lambda>_.
     sbind (sres (nv_certify_encode \<lparr>nc_attest = c_attest, nc_sig = c_sig\<rparr>)) (\<lambda>cert.
     let sections = [(TAG_STOP_STATE, body), (TAG_TPM_NV_CERTIFY, cert)]
           @ (if nonce \<noteq> [] then [(TAG_VERIFIER_NONCE, nonce)] else []) in
     sbind (sres (build_bundle sections)) (\<lambda>bundle.
     sbind (t_pcr_read T (x_pcr_spec x)) (\<lambda>pcr_state.
     let selection = encode_pcr_selection (x_pcr_alg x) (x_pcr_bitmap x);
         msg = build_canonical (c_hash C) (x_device_id x) (sr_stop_epoch rcd) selection pcr_state bundle in
     if length msg \<noteq> MSG_LEN then sfail (Msg ''built bytes, expected'' [Num (length msg), Num MSG_LEN])
     else
     sbind (t_quote T (stop_quote_qualifying (c_hash C) msg) (x_pcr_spec x)) (\<lambda>(q_attest, q_sig).
     sres (receipt_encode \<lparr>rc_msg = msg, rc_quote_attest = q_attest, rc_quote_sig = q_sig,
                           rc_bundle = bundle\<rparr>))))))))"

section \<open>Answers\<close>

datatype admission = Allow | Refuse bytes

definition admit ::
  "('k, 's) crypto \<Rightarrow> 'w stop_tpm \<Rightarrow> ('w, 'k) stop_ctx \<Rightarrow> bytes \<Rightarrow> ('w, admission) io" where
  "admit C T x rdig =
     sbind (t_read_counter T) (\<lambda>counter.
     sbind (gate C (x_lift x) counter) (\<lambda>g.
     if g = Open then sret Allow
     else
         sbind (sign C T x
           \<lparr>sr_kind = Refusal rdig, sr_state = Stopped, sr_stop_epoch = counter,
            sr_policy_digest = x_policy_digest x\<rparr> []) (\<lambda>receipt.
         sret (Refuse receipt))))"

definition status ::
  "('k, 's) crypto \<Rightarrow> 'w stop_tpm \<Rightarrow> ('w, 'k) stop_ctx \<Rightarrow> bytes \<Rightarrow> ('w, bytes) io" where
  "status C T x nonce =
     sbind (sres (if nonce \<noteq> [] then check_nonce nonce else Ok ())) (\<lambda>_.
     sbind (t_read_counter T) (\<lambda>counter.
     sbind (gate C (x_lift x) counter) (\<lambda>g.
     sign C T x
       \<lparr>sr_kind = Status, sr_state = gate_state g, sr_stop_epoch = counter,
        sr_policy_digest = x_policy_digest x\<rparr> nonce)))"

definition record_of :: "bytes \<Rightarrow> stop_record res" where
  "record_of receipt =
     rbind (receipt_parse receipt) (\<lambda>r.
     rbind (parse_bundle (rc_bundle r)) (\<lambda>ss.
     case filter (\<lambda>s. s_tag s = TAG_STOP_STATE) ss of
       [s] \<Rightarrow> record_parse (s_body s)
     | found \<Rightarrow> Err (Msg ''receipt: stop records, expected one'' [Num (length found)])))"

section \<open>Transitions\<close>

datatype transition = Changed u64 u64 | AlreadyThere u64

record transition_error =
  te_message :: err
  te_now :: "u64 option"

type_synonym 'w transition_step = "('w, transition_error, transition) step"

text \<open>\<open>fail\<close>: the counter is read once more, and its value reported if it can be.\<close>

definition transition_fail :: "'w stop_tpm \<Rightarrow> err \<Rightarrow> ('w, transition_error, 'a) step" where
  "transition_fail T e = sbind (stry (t_read_counter T)) (\<lambda>r. sfail \<lparr>te_message = e, te_now = res_ok r\<rparr>)"

definition read_or_fail :: "'w stop_tpm \<Rightarrow> ('w, transition_error, u64) step" where
  "read_or_fail T = smap_err (\<lambda>e. \<lparr>te_message = e, te_now = None\<rparr>) (t_read_counter T)"

definition move_to :: "'w stop_tpm \<Rightarrow> stop_state \<Rightarrow> 'w transition_step" where
  "move_to T want =
     sbind (read_or_fail T) (\<lambda>from.
     if state_of from = want then sret (AlreadyThere from)
     else
     sbind (stry (t_increment T)) (\<lambda>inc.
     case inc of
       Inl e \<Rightarrow> transition_fail T (Ctx ''increment failed'' e)
     | Inr _ \<Rightarrow>
         sbind (stry (t_read_counter T)) (\<lambda>v.
         case v of
           Inl e \<Rightarrow> transition_fail T (Ctx ''increment sent, but the counter could not be read back'' e)
         | Inr to \<Rightarrow>
             if to \<noteq> from + 1 then
               sfail \<lparr>te_message = Msg ''another writer moved the counter'' [Num (unat from), Num (unat to)],
                      te_now = Some to\<rparr>
             else sret (Changed from to))))"

definition trip :: "'w stop_tpm \<Rightarrow> 'w transition_step" where
  "trip T = move_to T Stopped"

definition recover :: "('k, 's) crypto \<Rightarrow> 'w stop_tpm \<Rightarrow> ('w, 'k) lift \<Rightarrow> 'w transition_step" where
  "recover C T lift =
     sbind (read_or_fail T) (\<lambda>from.
     let target = (if state_of from = Running then from else from + 1);
         refuse = (\<lambda>why. sfail \<lparr>te_message = Ctx ''no valid operator release'' why, te_now = Some from\<rparr>) in
     sbind (stry (gate C lift target)) (\<lambda>g.
     case g of
       Inl e \<Rightarrow> refuse e
     | Inr GateStopped \<Rightarrow> refuse (Msg ''odd epoch'' [])
     | Inr (Unreleased why) \<Rightarrow> refuse why
     | Inr Open \<Rightarrow> if target = from then sret (AlreadyThere from) else move_to T Running))"

definition settle :: "'w stop_tpm \<Rightarrow> stop_state \<Rightarrow> 'w transition_step" where
  "settle T want = move_to T want"

section \<open>Parity\<close>

lemma mod2_word: "(c :: u64) mod 2 = 0 \<longleftrightarrow> even (unat c)"
proof -
  have "unat (c mod 2) = unat c mod 2" by (simp add: unat_mod)
  moreover have "c mod 2 = 0 \<longleftrightarrow> unat (c mod 2) = 0" by (metis unat_inject unsigned_0)
  ultimately show ?thesis by (simp add: even_iff_mod_2_eq_zero)
qed

lemma state_of_iff [simp]:
  "state_of c = Running \<longleftrightarrow> even (unat c)" "state_of c = Stopped \<longleftrightarrow> odd (unat c)"
  by (simp_all add: state_of_def mod2_word)

lemma even_unat_add_1: "even (unat (c + 1 :: u64)) \<longleftrightarrow> odd (unat c)"
proof (cases "unat c + 1 < 2 ^ 64")
  case True
  then have "unat (c + 1) = unat c + 1" by (simp add: unat_word_ariths)
  then show ?thesis by simp
next
  case False
  then have "unat c = 2 ^ 64 - 1" using unat_bound [of c] by simp
  moreover from this have "unat (c + 1) = 0" by (simp add: unat_word_ariths)
  ultimately show ?thesis by simp
qed

lemma state_of_next: "state_of (c + 1) = Running \<longleftrightarrow> state_of c = Stopped"
  by (simp add: even_unat_add_1)

section \<open>Lemmas on the gate and the admission\<close>

lemma gate_Open_iff:
  "gate C lift c w = (Inr Open, w') \<longleftrightarrow>
   even (unat c) \<and> (\<exists>rc sig. l_release lift w = (Inr (Some (rc, sig)), w')
      \<and> release_check C (l_operator_key lift) rc sig (l_device_id lift) c = Ok ())"
  unfolding gate_def sbind_def by (auto split: prod.splits option.splits sum.splits)

lemma gate_odd: "odd (unat c) \<Longrightarrow> gate C lift c w = (Inr GateStopped, w)"
  by (simp add: gate_def)

lemma gate_state_iff: "gate_state g = Running \<longleftrightarrow> g = Open"
  by (cases g) (simp_all add: gate_state_def)

lemma admit_Allow_iff:
  "admit C T x d w = (Inr Allow, w') \<longleftrightarrow>
   (\<exists>c w1. t_read_counter T w = (Inr c, w1) \<and> gate C (x_lift x) c w1 = (Inr Open, w'))"
  by (auto simp: admit_def sbind_Ok split: if_splits)

lemma admit_Refuse_iff:
  "admit C T x d w = (Inr (Refuse receipt), w') \<longleftrightarrow>
   (\<exists>c w1 g w2. t_read_counter T w = (Inr c, w1) \<and> gate C (x_lift x) c w1 = (Inr g, w2) \<and> g \<noteq> Open
      \<and> sign C T x \<lparr>sr_kind = Refusal d, sr_state = Stopped, sr_stop_epoch = c,
                   sr_policy_digest = x_policy_digest x\<rparr> [] w2 = (Inr receipt, w'))"
  by (auto simp: admit_def sbind_Ok split: if_splits)

lemma status_iff:
  "status C T x nonce w = (Inr receipt, w') \<longleftrightarrow>
   (nonce \<noteq> [] \<longrightarrow> check_nonce nonce = Ok ())
   \<and> (\<exists>c w1 g w2. t_read_counter T w = (Inr c, w1) \<and> gate C (x_lift x) c w1 = (Inr g, w2)
      \<and> sign C T x \<lparr>sr_kind = Status, sr_state = gate_state g, sr_stop_epoch = c,
                   sr_policy_digest = x_policy_digest x\<rparr> nonce w2 = (Inr receipt, w'))"
  by (auto simp: status_def sbind_Ok)

section \<open>Lemmas on receipts\<close>

definition nonce_sections :: "bytes \<Rightarrow> bundle_section list" where
  "nonce_sections nonce = (if nonce \<noteq> [] then [\<lparr>s_tag = TAG_VERIFIER_NONCE, s_body = nonce\<rparr>] else [])"

definition receipt_sections :: "bytes \<Rightarrow> bytes \<Rightarrow> bytes \<Rightarrow> bundle_section list" where
  "receipt_sections body cert nonce =
     [\<lparr>s_tag = TAG_STOP_STATE, s_body = body\<rparr>, \<lparr>s_tag = TAG_TPM_NV_CERTIFY, s_body = cert\<rparr>]
     @ nonce_sections nonce"

lemma sign_sections:
  "[(TAG_STOP_STATE, body), (TAG_TPM_NV_CERTIFY, cert)]
     @ (if nonce \<noteq> [] then [(TAG_VERIFIER_NONCE, nonce)] else [])
   = map section_pair (receipt_sections body cert nonce)"
  by (simp add: receipt_sections_def nonce_sections_def section_pair_def)

definition receipt_message ::
  "('k, 's) crypto \<Rightarrow> ('w, 'k) stop_ctx \<Rightarrow> u64 \<Rightarrow> bytes \<Rightarrow> bytes \<Rightarrow> bytes" where
  "receipt_message C x epoch pcr_state bundle =
     build_canonical (c_hash C) (x_device_id x) epoch
       (encode_pcr_selection (x_pcr_alg x) (x_pcr_bitmap x)) pcr_state bundle"

lemma length_receipt_message [simp]: "length (receipt_message C x e p b) = MSG_LEN"
  unfolding receipt_message_def by (rule length_build_canonical) simp

lemma sign_iff:
  "sign C T x rcd nonce w = (Inr receipt, w') \<longleftrightarrow>
   (\<exists>body c_attest c_sig w1 cert bundle pcr_state w2 q_attest q_sig.
      record_encode rcd = Ok body
      \<and> t_certify T (certify_qualifying (c_hash C) body nonce) w = (Inr (c_attest, c_sig), w1)
      \<and> check_counter_certify c_attest (certify_qualifying (c_hash C) body nonce)
          (x_stop_index_name x) (sr_stop_epoch rcd) = Ok ()
      \<and> nv_certify_encode \<lparr>nc_attest = c_attest, nc_sig = c_sig\<rparr> = Ok cert
      \<and> build_bundle (map section_pair (receipt_sections body cert nonce)) = Ok bundle
      \<and> t_pcr_read T (x_pcr_spec x) w1 = (Inr pcr_state, w2)
      \<and> t_quote T (stop_quote_qualifying (c_hash C)
          (receipt_message C x (sr_stop_epoch rcd) pcr_state bundle)) (x_pcr_spec x) w2
          = (Inr (q_attest, q_sig), w')
      \<and> receipt_encode \<lparr>rc_msg = receipt_message C x (sr_stop_epoch rcd) pcr_state bundle,
          rc_quote_attest = q_attest, rc_quote_sig = q_sig, rc_bundle = bundle\<rparr> = Ok receipt)"
  unfolding sign_def Let_def sign_sections receipt_message_def [symmetric]
  by (simp add: sbind_Ok sres_Ok split_paired_Ex)

text \<open>What a receipt the service hands out says, read back from its bytes.\<close>

lemma sign_record:
  assumes "sign C T x rcd nonce w = (Inr receipt, w')" "wf_record rcd"
  shows "record_of receipt = Ok rcd"
proof -
  from assms(1) obtain body cert bun r where body: "record_encode rcd = Ok body"
    and bun: "build_bundle (map section_pair (receipt_sections body cert nonce)) = Ok bun"
    and r: "receipt_encode r = Ok receipt" "rc_bundle r = bun"
    unfolding sign_iff by force
  have "receipt_parse receipt = Ok r" using r(1) by (simp add: receipt_parse_iff)
  moreover have "parse_bundle bun = Ok (receipt_sections body cert nonce)"
    using bun by (rule bundle_codec.enc_then_parse) simp
  moreover have "record_parse body = Ok rcd" using body assms(2) by (rule record_parse_complete)
  ultimately show ?thesis
    using r(2)
    by (simp add: record_of_def receipt_sections_def nonce_sections_def tag_defs)
qed

section \<open>Lemmas on transitions\<close>

lemma read_or_fail_Ok [simp]: "read_or_fail T w = (Inr c, w') \<longleftrightarrow> t_read_counter T w = (Inr c, w')"
  by (simp add: read_or_fail_def smap_err_Ok)

lemma transition_fail_not_Ok [simp]: "transition_fail T e w \<noteq> (Inr x, w')"
  by (simp add: transition_fail_def sbind_Ok)

lemma move_to_Ok_iff:
  "move_to T want w = (Inr t, w') \<longleftrightarrow>
   (\<exists>from w1. t_read_counter T w = (Inr from, w1)
      \<and> (if state_of from = want then t = AlreadyThere from \<and> w' = w1
         else \<exists>w2. t_increment T w1 = (Inr (), w2)
                \<and> t_read_counter T w2 = (Inr (from + 1), w') \<and> t = Changed from (from + 1)))"
  unfolding move_to_def sbind_def stry_def read_or_fail_def smap_err_def map_err_def
  by (auto split: prod.splits sum.splits)

lemma recover_Ok_iff:
  "recover C T lift w = (Inr t, w') \<longleftrightarrow>
   (\<exists>from w1 w2. t_read_counter T w = (Inr from, w1)
      \<and> gate C lift (if state_of from = Running then from else from + 1) w1 = (Inr Open, w2)
      \<and> (if state_of from = Running then t = AlreadyThere from \<and> w' = w2
         else move_to T Running w2 = (Inr t, w')))"
  unfolding recover_def sbind_def stry_def read_or_fail_def smap_err_def map_err_def Let_def
  by (auto split: prod.splits sum.splits gate_answer.splits)

end
