(* ===== verification/Http.thy ===== *)
theory Http
  imports NumText
begin

text \<open>
  The HTTP reader and writer of the stop service (\<open>tactiq-stop/http.rs\<close>): \<open>parse\<close>, the
  loop that reads one request from a connection, and the bytes of a response. A
  connection is the sequence of what its reads return.
\<close>

section \<open>Operations\<close>

definition HEAD_MAX :: nat where [simp]: "HEAD_MAX = 16 * 1024"
definition BODY_MAX :: nat where [simp]: "BODY_MAX = 1024 * 1024"
definition CRLF :: bytes where [simp]: "CRLF = [13, 10]"
definition CRLF2 :: bytes where [simp]: "CRLF2 = [13, 10, 13, 10]"

record request =
  q_method :: bytes
  q_path :: bytes
  q_body :: bytes

text \<open>\<open>find\<close>: the first window equal to the needle.\<close>

fun find_window :: "bytes \<Rightarrow> bytes \<Rightarrow> nat option" where
  "find_window n [] = (if n = [] then Some 0 else None)"
| "find_window n (x # xs) =
     (if take (length n) (x # xs) = n then Some 0 else map_option Suc (find_window n xs))"

text \<open>\<open>head.split("\r\n")\<close>.\<close>

fun split_crlf :: "bytes \<Rightarrow> bytes list" where
  "split_crlf [] = [[]]"
| "split_crlf [x] = [[x]]"
| "split_crlf (x # y # xs) =
     (if x = 13 \<and> y = 10 then [] # split_crlf xs
      else case split_crlf (y # xs) of [] \<Rightarrow> [[x]] | p # ps \<Rightarrow> (x # p) # ps)"

definition header_ws :: "byte \<Rightarrow> bool" where
  "header_ws b \<longleftrightarrow> b = 32 \<or> b = 9"

text \<open>The loop over the header lines: the content length seen so far.\<close>

fun header_loop :: "bytes list \<Rightarrow> nat option \<Rightarrow> nat option res" where
  "header_loop [] len = Ok len"
| "header_loop (l # ls) len =
     rbind (ok_or (Msg ''bad header line'' [Txt l]) (split_once 58 l)) (\<lambda>(k, v0).
     if k = [] \<or> \<not> list_all is_graphic k then Err (Msg ''bad header name'' [Txt k])
     else
       let v = trim_matches header_ws v0 in
       if eq_ignore_case k (lit ''transfer-encoding'') then
         Err (Msg ''chunked or other transfer encodings are not accepted'' [])
       else if eq_ignore_case k (lit ''content-length'') then
         (if v = [] \<or> length v > 8 \<or> \<not> list_all is_digit v then Err (Msg ''bad content-length'' [Txt v])
          else
            rbind (ok_or (Msg ''bad content-length'' [Txt v]) (parse_u64 v)) (\<lambda>n.
            if (case len of Some m \<Rightarrow> m \<noteq> n | None \<Rightarrow> False) then
              Err (Msg ''conflicting content-length headers'' [])
            else header_loop ls (Some n)))
       else header_loop ls len)"

definition request_line :: "bytes \<Rightarrow> (bytes \<times> bytes) res" where
  "request_line line =
     (case split_on 32 line of
        [meth, path, version] \<Rightarrow>
          if version \<noteq> lit ''HTTP/1.1'' \<and> version \<noteq> lit ''HTTP/1.0'' then
            Err (Msg ''unsupported version'' [Txt version])
          else if meth = [] \<or> \<not> list_all is_upper meth then Err (Msg ''bad method'' [Txt meth])
          else Ok (meth, path)
      | _ \<Rightarrow> Err (Msg ''bad request line'' [Txt line]))"

text \<open>Everything \<open>parse\<close> reads from the head: method, path and body length.\<close>

definition parse_head :: "bytes \<Rightarrow> (bytes \<times> bytes \<times> nat) res" where
  "parse_head head =
     (if \<not> utf8_valid head then Err (Msg ''request head is not UTF-8'' [])
      else case split_crlf head of
        [] \<Rightarrow> Err (Msg ''empty request'' [])
      | line # ls \<Rightarrow>
          rbind (request_line line) (\<lambda>(meth, path).
          rbind (header_loop ls None) (\<lambda>len.
          let n = (case len of Some n \<Rightarrow> n | None \<Rightarrow> 0) in
          if n > BODY_MAX then Err (Msg ''body of too many bytes'' [Num n, Num BODY_MAX])
          else Ok (meth, path, n))))"

definition http_parse :: "bytes \<Rightarrow> (request \<times> nat) option res" where
  "http_parse buf =
     (case find_window CRLF2 buf of
        None \<Rightarrow>
          if length buf > HEAD_MAX then Err (Msg ''request head over bytes'' [Num HEAD_MAX]) else Ok None
      | Some head_end \<Rightarrow>
          if head_end > HEAD_MAX then Err (Msg ''request head over bytes'' [Num HEAD_MAX])
          else
          rbind (parse_head (take head_end buf)) (\<lambda>(meth, path, n).
          let start = head_end + 4 in
          if length buf < start + n then Ok None
          else Ok (Some (\<lparr>q_method = meth, q_path = path, q_body = slice start (start + n) buf\<rparr>, start + n))))"

text \<open>
  What one turn of the reading loop meets: the deadline has passed, the read fails, the
  peer has closed, or some bytes (at most 4096). A finite sequence that runs out leaves
  the service waiting: \<open>None\<close>.
\<close>

datatype read_event = DeadlinePassed | ReadFails err | Closed | Data bytes

fun read_loop :: "bytes \<Rightarrow> read_event list \<Rightarrow> request res option" where
  "read_loop buf evs =
     (case http_parse buf of
        Inl e \<Rightarrow> Some (Err e)
      | Inr (Some (req, used)) \<Rightarrow>
          Some (if used \<noteq> length buf then Err (Msg ''bytes after the request'' [Num (length buf - used)])
                else Ok req)
      | Inr None \<Rightarrow>
          (case evs of
             [] \<Rightarrow> None
           | DeadlinePassed # _ \<Rightarrow> Some (Err (Msg ''request not complete within the deadline'' []))
           | ReadFails e # _ \<Rightarrow> Some (Err (Ctx ''read'' e))
           | Closed # _ \<Rightarrow> Some (Err (Msg ''connection closed before the request was complete'' []))
           | Data d # evs \<Rightarrow>
               let buf = buf @ d in
               if length buf > HEAD_MAX + BODY_MAX + 4 then Some (Err (Msg ''request too large'' []))
               else read_loop buf evs))"

declare read_loop.simps [simp del]

definition read_request :: "read_event list \<Rightarrow> request res option" where
  "read_request evs = read_loop [] evs"

definition status_reason :: "nat \<Rightarrow> bytes" where
  "status_reason code =
     (if code = 200 then lit ''OK'' else if code = 400 then lit ''Bad Request''
      else if code = 403 then lit ''Forbidden'' else lit ''Service Unavailable'')"

text \<open>The bytes \<open>respond\<close> writes.\<close>

definition respond :: "nat \<Rightarrow> bytes \<Rightarrow> bytes \<Rightarrow> bytes" where
  "respond code content_type body =
     lit ''HTTP/1.1 '' @ dec code @ 32 # status_reason code @ CRLF
     @ lit ''Content-Type: '' @ content_type @ CRLF
     @ lit ''Content-Length: '' @ dec (length body) @ CRLF
     @ lit ''Connection: close'' @ CRLF2 @ body"

section \<open>Lemmas\<close>

lemma find_window_bound: "find_window n xs = Some i \<Longrightarrow> i + length n \<le> length xs"
proof (induction xs arbitrary: i)
  case (Cons x xs)
  then show ?case
    by (cases n) (auto split: if_splits dest: arg_cong [where f = length])
qed (auto split: if_splits)

lemma find_window_append: "find_window n xs = Some i \<Longrightarrow> find_window n (xs @ ys) = Some i"
proof (induction xs arbitrary: i)
  case Nil
  then show ?case by (cases ys) (auto split: if_splits)
next
  case (Cons x xs)
  show ?case
  proof (cases "take (length n) (x # xs) = n")
    case True
    then have "length n \<le> length (x # xs)" by (metis length_take min.cobounded2 nat_le_linear min.absorb1 order_refl)
    then have "take (length n) ((x # xs) @ ys) = take (length n) (x # xs)" by (subst take_append) simp
    with True Cons.prems show ?thesis by simp
  next
    case False
    with Cons.prems obtain j where j: "find_window n xs = Some j" "i = Suc j" by auto
    then have "length n \<le> length xs" using find_window_bound by fastforce
    then have "take (length n) ((x # xs) @ ys) = take (length n) (x # xs)" by (subst take_append) simp
    with False j Cons.IH show ?thesis by simp
  qed
qed

lemma find_window_at: "find_window n xs = Some i \<Longrightarrow> xs = take i xs @ n @ drop (i + length n) xs"
proof (induction xs arbitrary: i)
  case (Cons x xs)
  show ?case
  proof (cases "take (length n) (x # xs) = n")
    case True
    with Cons.prems have "i = 0" by simp
    with True show ?thesis using append_take_drop_id [of "length n" "x # xs"] by simp
  next
    case False
    with Cons obtain j where "i = Suc j" "xs = take j xs @ n @ drop (j + length n) xs" by auto
    then show ?thesis by simp
  qed
qed (auto split: if_splits)

lemma http_parse_Some:
  assumes "http_parse buf = Ok (Some (req, used))"
  shows "\<exists>head rest. buf = head @ CRLF2 @ q_body req @ rest \<and> length head \<le> HEAD_MAX
    \<and> find_window CRLF2 buf = Some (length head)
    \<and> parse_head head = Ok (q_method req, q_path req, length (q_body req))
    \<and> used = length head + 4 + length (q_body req)"
proof -
  from assms obtain i meth path n where i: "find_window CRLF2 buf = Some i" "i \<le> HEAD_MAX"
    and h: "parse_head (take i buf) = Ok (meth, path, n)" and len: "i + 4 + n \<le> length buf"
    and req: "req = \<lparr>q_method = meth, q_path = path, q_body = slice (i + 4) (i + 4 + n) buf\<rparr>"
      "used = i + 4 + n"
    by (auto simp: http_parse_def rbind_Ok Let_def not_less split: option.splits if_splits)
  have blen: "length (q_body req) = n" using len by (simp add: req)
  have four: "length CRLF2 = 4" by simp
  have "buf = take i buf @ CRLF2 @ drop (i + 4) buf"
    using find_window_at [OF i(1)] unfolding four .
  also have "drop (i + 4) buf = q_body req @ drop (i + 4 + n) buf"
    using append_take_drop_id [of n "drop (i + 4) buf"] by (simp add: req slice_def add.commute)
  finally have "buf = take i buf @ CRLF2 @ q_body req @ drop (i + 4 + n) buf" .
  moreover have "length (take i buf) = i" using len by simp
  ultimately show ?thesis
    using i h req blen by (intro exI [of _ "take i buf"] exI [of _ "drop (i + 4 + n) buf"]) simp
qed

text \<open>Bytes that come later do not change a request that was already complete.\<close>

lemma http_parse_append:
  assumes "http_parse buf = Ok (Some (req, used))"
  shows "http_parse (buf @ later) = Ok (Some (req, used))"
proof -
  from assms obtain i meth path n where i: "find_window CRLF2 buf = Some i" "i \<le> HEAD_MAX"
    and h: "parse_head (take i buf) = Ok (meth, path, n)" and len: "i + 4 + n \<le> length buf"
    and req: "req = \<lparr>q_method = meth, q_path = path, q_body = slice (i + 4) (i + 4 + n) buf\<rparr>"
      "used = i + 4 + n"
    by (auto simp: http_parse_def rbind_Ok Let_def not_less split: option.splits if_splits)
  have "find_window CRLF2 (buf @ later) = Some i" by (rule find_window_append [OF i(1)])
  moreover have "take i (buf @ later) = take i buf" using len by simp
  moreover have "slice (i + 4) (i + 4 + n) (buf @ later) = slice (i + 4) (i + 4 + n) buf"
    using len by (simp add: slice_def)
  ultimately show ?thesis
    using i h len by (simp add: http_parse_def Let_def req del: CRLF2_def)
qed

lemma read_loop_Ok:
  assumes "read_loop buf evs = Some (Ok req)"
  shows "\<exists>ds post. evs = map Data ds @ post \<and>
    http_parse (buf @ concat ds) = Ok (Some (req, length (buf @ concat ds)))"
  using assms
proof (induction evs arbitrary: buf)
  case Nil
  then show ?case
    by (simp add: read_loop.simps split: sum.splits option.splits prod.splits if_splits)
next
  case (Cons ev evs)
  consider (now) "http_parse buf = Ok (Some (req, length buf))"
    | (next_read) d where "http_parse buf = Ok None" "ev = Data d" "read_loop (buf @ d) evs = Some (Ok req)"
    using Cons.prems
    by (auto simp: read_loop.simps [of buf] Let_def
        split: sum.splits option.splits prod.splits if_splits read_event.splits)
  then show ?case
  proof cases
    case now
    then show ?thesis by (intro exI [of _ "[]"] exI [of _ "ev # evs"]) simp
  next
    case next_read
    from Cons.IH [OF next_read(3)] obtain ds post where "evs = map Data ds @ post"
        "http_parse ((buf @ d) @ concat ds) = Ok (Some (req, length ((buf @ d) @ concat ds)))" by blast
    with next_read show ?thesis by (intro exI [of _ "d # ds"] exI [of _ post]) simp
  qed
qed

text \<open>The outcome of every connection: the loop ends as soon as one event decides.\<close>

lemma read_loop_ends:
  assumes "ev \<in> set evs" "\<forall>d. ev \<noteq> Data d"
  shows "read_loop buf evs \<noteq> None"
  using assms(1)
proof (induction evs arbitrary: buf)
  case (Cons e evs)
  show ?case
  proof (cases e)
    case (Data d)
    with Cons assms(2) have "ev \<in> set evs" by auto
    with Cons.IH Data show ?thesis
      by (auto simp: read_loop.simps [of buf] Let_def split: sum.splits option.splits)
  qed (auto simp: read_loop.simps [of buf] split: sum.splits option.splits)
qed simp

lemma header_loop_keeps:
  "header_loop ls len = Ok n \<Longrightarrow> len = Some m \<Longrightarrow> n = Some m"
proof (induction ls arbitrary: len)
  case (Cons l ls)
  then show ?case
    by (auto simp: rbind_Ok if_Err_Ok ok_or_Ok Let_def split: if_splits)
qed simp

text \<open>
  Every header line has a name of graphic characters, none is a transfer encoding, and
  all content lengths are the one the request is read with.
\<close>

definition header_fits :: "nat option \<Rightarrow> bytes \<Rightarrow> bool" where
  "header_fits n l = (case split_once 58 l of
     None \<Rightarrow> False
   | Some (k, v) \<Rightarrow> k \<noteq> [] \<and> list_all is_graphic k \<and> \<not> eq_ignore_case k (lit ''transfer-encoding'')
       \<and> (eq_ignore_case k (lit ''content-length'') \<longrightarrow>
            n \<noteq> None \<and> parse_u64 (trim_matches header_ws v) = n))"

lemma header_loop_fits: "header_loop ls len = Ok n \<Longrightarrow> list_all (header_fits n) ls"
proof (induction ls arbitrary: len)
  case (Cons l ls)
  from Cons.prems obtain k v where kv: "split_once 58 l = Some (k, v)" "k \<noteq> []" "list_all is_graphic k"
      "\<not> eq_ignore_case k (lit ''transfer-encoding'')"
    and step: "if eq_ignore_case k (lit ''content-length'')
       then \<exists>m. parse_u64 (trim_matches header_ws v) = Some m \<and> header_loop ls (Some m) = Ok n
       else header_loop ls len = Ok n"
    by (auto simp: rbind_Ok if_Err_Ok ok_or_Ok Let_def split: if_splits)
  have "header_fits n l"
    using kv step header_loop_keeps [of ls _ n] by (fastforce simp: header_fits_def)
  moreover have "list_all (header_fits n) ls"
    using step Cons.IH by (auto split: if_splits)
  ultimately show ?case by simp
qed simp

text \<open>The status code stands at bytes 9 to 12 of a response, where the operator's probe reads it.\<close>

lemma respond_code:
  assumes "100 \<le> code" "code \<le> 999"
  shows "slice 9 12 (respond code ct body) = dec code"
proof -
  have "code div 10 div 10 < 10" "\<not> code div 10 < 10" "\<not> code < 10"
    using assms by auto
  then have "length (dec code) = 3"
    by (simp add: dec.simps [of code] dec.simps [of "code div 10"] dec.simps [of "code div 10 div 10"]
        del: div_mult2_eq)
  then show ?thesis
    by (simp add: respond_def slice_append_skip lit_def slice_def)
qed

end
