(* ===== verification/Config.thy ===== *)
theory Config
  imports Http
begin

text \<open>
  The guard on the gateway configuration (\<open>tactiq-stop/config.rs\<close>): a line check over
  YAML, and what a configuration that passes it sets.
\<close>

section \<open>Operations\<close>

definition MIN_TIMEOUT_MS :: nat where [simp]: "MIN_TIMEOUT_MS = 3000"

definition is_quote_mark :: "byte \<Rightarrow> bool" where
  "is_quote_mark b \<longleftrightarrow> b = 34 \<or> b = 39"

definition norm :: "bytes \<Rightarrow> bytes" where
  "norm v = trim (trim_matches is_quote_mark (trim v))"

text \<open>\<open>trim_start_matches("- ")\<close>: the pair of bytes as often as it stands at the front.\<close>

fun trim_dashes :: "bytes \<Rightarrow> bytes" where
  "trim_dashes (a # b # xs) = (if a = 45 \<and> b = 32 then trim_dashes xs else a # b # xs)"
| "trim_dashes xs = xs"

definition entry :: "bytes \<Rightarrow> (bytes \<times> bytes) option" where
  "entry l =
     (case split_once 58 (trim (trim_dashes (trim (hd (split_on 35 l))))) of
        None \<Rightarrow> None
      | Some (k, v) \<Rightarrow> Some (trim k, norm v))"

definition entries :: "bytes \<Rightarrow> (bytes \<times> bytes) list" where
  "entries text = List.map_filter entry (str_lines text)"

text \<open>
  \<open>s * 1000\<close> on a \<open>u64\<close> wraps around in a release build.
\<close>

definition parse_duration_ms :: "bytes \<Rightarrow> u64 option" where
  "parse_duration_ms v =
     (case strip_suffix (lit ''ms'') v of
        Some n \<Rightarrow> map_option of_nat (parse_u64 (trim n))
      | None \<Rightarrow>
          (case strip_suffix (lit ''s'') v of
             Some n \<Rightarrow> map_option (\<lambda>s. of_nat s * 1000) (parse_u64 (trim n))
           | None \<Rightarrow> None))"

definition cfg_all :: "(bytes \<times> bytes) list \<Rightarrow> string \<Rightarrow> bytes list" where
  "cfg_all e k = map snd (filter (\<lambda>kv. fst kv = lit k) e)"

definition cfg_one :: "(bytes \<times> bytes) list \<Rightarrow> string \<Rightarrow> bytes res" where
  "cfg_one e k =
     (case cfg_all e k of
        [v] \<Rightarrow> Ok v
      | [] \<Rightarrow> Err (Msg ''gateway config has no such key'' [Txt (lit k)])
      | _ \<Rightarrow> Err (Msg ''gateway config has more than one such key'' [Txt (lit k)]))"

definition check_gateway_config :: "bytes \<Rightarrow> bytes \<Rightarrow> unit res" where
  "check_gateway_config text listen =
     (if 123 \<in> set text then Err (Msg ''gateway config uses inline YAML mappings'' [])
      else
      let e = entries text in
      if length (cfg_all e ''extAuthz'') \<noteq> 1 then
        Err (Msg ''gateway config must have exactly one extAuthz block'' [])
      else
      rbind (cfg_one e ''host'') (\<lambda>host.
      if host \<noteq> listen then Err (Msg ''gateway config: the single host entry must be the target'' [Txt listen])
      else
      rbind (cfg_one e ''failureMode'') (\<lambda>mode.
      if mode \<noteq> lit ''deny'' then Err (Msg ''gateway config must set failureMode: deny'' [])
      else
      rbind (cfg_one e ''requestTimeout'') (\<lambda>t.
      rbind (case parse_duration_ms t of
               Some ms \<Rightarrow>
                 if unat ms \<ge> MIN_TIMEOUT_MS then Ok ()
                 else Err (Msg ''gateway config requestTimeout is below the minimum'' [Num (unat ms)])
             | None \<Rightarrow> Err (Msg ''gateway config requestTimeout is not a duration'' [Txt t])) (\<lambda>_.
      if length (cfg_all e ''includeRequestBody'') \<noteq> 1 then
        Err (Msg ''gateway config must set includeRequestBody exactly once'' [])
      else
      rbind (cfg_one e ''maxRequestBytes'') (\<lambda>mx.
      rbind (ok_or (Msg ''gateway config maxRequestBytes is not a number'' [Txt mx]) (parse_u64 mx)) (\<lambda>n.
      if n = 0 \<or> n > BODY_MAX then Err (Msg ''gateway config maxRequestBytes out of range'' [Num n])
      else
      rbind (cfg_one e ''allowPartialMessage'') (\<lambda>p.
      if p \<noteq> lit ''false'' then Err (Msg ''gateway config must set allowPartialMessage: false'' [])
      else Ok ()))))))))"

section \<open>Lemmas\<close>

lemma cfg_one_Ok: "cfg_one e k = Ok v \<longleftrightarrow> cfg_all e k = [v]"
  by (auto simp: cfg_one_def split: list.splits)

text \<open>The one value a key has in the file.\<close>

definition sets :: "bytes \<Rightarrow> string \<Rightarrow> bytes \<Rightarrow> bool" where
  "sets text k v \<longleftrightarrow> cfg_all (entries text) k = [v]"

lemma check_gateway_config_iff:
  "check_gateway_config text listen = Ok () \<longleftrightarrow>
   123 \<notin> set text
   \<and> (\<exists>v. sets text ''extAuthz'' v) \<and> sets text ''host'' listen \<and> sets text ''failureMode'' (lit ''deny'')
   \<and> (\<exists>t ms. sets text ''requestTimeout'' t \<and> parse_duration_ms t = Some ms \<and> MIN_TIMEOUT_MS \<le> unat ms)
   \<and> (\<exists>v. sets text ''includeRequestBody'' v)
   \<and> (\<exists>mx n. sets text ''maxRequestBytes'' mx \<and> parse_u64 mx = Some n \<and> 0 < n \<and> n \<le> BODY_MAX)
   \<and> sets text ''allowPartialMessage'' (lit ''false'')"
proof -
  have one: "length xs = 1 \<longleftrightarrow> (\<exists>v. xs = [v])" for xs :: "bytes list"
    by (auto simp: length_Suc_conv)
  show ?thesis
    unfolding check_gateway_config_def Let_def if_Err_Ok rbind_Ok cfg_one_Ok ok_or_Ok sets_def not_not one
    by (auto split: option.splits if_splits)
qed

end
