(* ===== verification/StopService.thy ===== *)
theory StopService
  imports StopCore Config
begin

text \<open>
  The binary \<open>tactiq-stop\<close> (\<open>main.rs\<close>): loading of its fixed context, the answer to one
  gateway question, and the operator commands. Console output is left out; what a command
  reports is its result. The pieces of the operating system only this file uses (directory
  metadata, the file lock, the probe of the running service) are parameters of their own.
\<close>

section \<open>Constants\<close>

definition LISTEN :: bytes where "LISTEN = lit ''127.0.0.1:49318''"
definition KEYS_DIR :: bytes where "KEYS_DIR = lit ''/data/tactiq/keys''"
definition WORK_DIR :: bytes where "WORK_DIR = lit ''/run/tactiq-stop''"
definition PCR_SPEC :: bytes where "PCR_SPEC = lit ''sha256:0,1,8''"
definition POLICY :: bytes where "POLICY = lit ''/etc/tactiq/agentgateway/config.yaml''"
definition OPERATOR_KEY :: bytes where "OPERATOR_KEY = lit ''/usr/share/tactiq/stop-operator.pem''"

definition RELEASE :: release_files where
  "RELEASE = \<lparr>rf_record = lit ''/data/tactiq/stop/release'', rf_sig = lit ''/data/tactiq/stop/release.sig''\<rparr>"

section \<open>The machine, as this binary sees it\<close>

record dir_meta =
  dm_is_dir :: bool
  dm_uid :: nat
  dm_mode :: "32 word"

text \<open>What one attempt to take the lock gives, and whether the deadline has passed by then.\<close>

datatype lock_event = Locked | WouldBlock bool | LockError err

record 'w service_os =
  so_os :: "'w os"
  so_symlink_metadata :: "bytes \<Rightarrow> ('w, dir_meta) io"
  so_self_uid :: "('w, nat) io"
  so_scratch :: "bytes \<Rightarrow> ('w, bytes) io"
  so_lock_events :: "bytes \<Rightarrow> 'w \<Rightarrow> lock_event list \<times> 'w"
  so_probe :: "('w, bytes option) io"

definition work_dir :: "'w service_os \<Rightarrow> ('w, bytes) io" where
  "work_dir so =
     sbind (smap_err (Ctx ''work directory'') (so_symlink_metadata so WORK_DIR)) (\<lambda>md.
     sbind (smap_err (Ctx ''stat /proc/self'') (so_self_uid so)) (\<lambda>me.
     let mode = dm_mode md AND 0xFFF;
         owner_ok = (dm_uid md = me \<or> me = 0 \<or> dm_uid md = 0) in
     if \<not> dm_is_dir md \<or> \<not> owner_ok \<or> mode AND 0x12 \<noteq> 0 then
       sfail (Msg ''must be a real directory, not writable by group or others'' [Txt WORK_DIR, Num (dm_uid md)])
     else sret WORK_DIR))"

fun lock_loop :: "lock_event list \<Rightarrow> unit res option" where
  "lock_loop [] = None"
| "lock_loop (Locked # _) = Some (Ok ())"
| "lock_loop (WouldBlock past_deadline # evs) =
     (if past_deadline then Some (Err (Msg ''another tactiq-stop command has held the lock; nothing was changed'' []))
      else lock_loop evs)"
| "lock_loop (LockError e # _) = Some (Err (Ctx ''lock'' e))"

definition admin_lock :: "'w service_os \<Rightarrow> bytes \<Rightarrow> ('w, unit) io" where
  "admin_lock so work w =
     (case so_lock_events so (path_join work (lit ''admin.lock'')) w of (evs, w') \<Rightarrow>
        (case lock_loop evs of
           Some r \<Rightarrow> (r, w')
         | None \<Rightarrow> (Err (Msg ''lock: still waiting'' []), w')))"

section \<open>Loading\<close>

definition read_device_id :: "'w os \<Rightarrow> bytes \<Rightarrow> ('w, bytes) io" where
  "read_device_id os keys =
     sbind (read_file os (path_join keys (lit ''device_id''))) (\<lambda>content.
     if \<not> utf8_valid content then sfail (Msg ''stream did not contain valid UTF-8'' [])
     else
       let i = trim content in
       if i = [] \<or> length i > DEVICE_ID_LEN \<or> \<not> list_all is_graphic i then
         sfail (Msg ''not a valid device id'' [])
       else sret i)"

definition load_operator_key :: "'w os \<Rightarrow> (bytes \<Rightarrow> 'k option) \<Rightarrow> ('w, 'k) io" where
  "load_operator_key os from_pem =
     sbind (read_file os OPERATOR_KEY) (\<lambda>pem.
     if \<not> utf8_valid pem then sfail (Msg ''stream did not contain valid UTF-8'' [])
     else sres (ctx ''operator key'' (operator_key_from_pem from_pem pem)))"

record 'k owned =
  o_operator_key :: 'k
  o_device_id :: bytes
  o_pcr_alg :: u16
  o_pcr_bitmap :: bytes
  o_policy :: bytes
  o_index_name :: bytes

definition owned_load ::
  "('k, 's) crypto \<Rightarrow> (bytes \<Rightarrow> 'k option) \<Rightarrow> 'w os \<Rightarrow> bytes \<Rightarrow> ('w, 'k owned) io" where
  "owned_load C from_pem os scratch =
     sbind (read_device_id os KEYS_DIR) (\<lambda>device_id.
     sbind (load_operator_key os from_pem) (\<lambda>operator_key.
     sbind (verify_ak (c_hash C) os (path_join KEYS_DIR (lit ''ak.pub'')) scratch) (\<lambda>_.
     sbind (verify_stop_counter os) (\<lambda>_.
     sbind (stop_nv_name os) (\<lambda>index_name.
     sbind (sres (parse_pcr_spec PCR_SPEC)) (\<lambda>(pcr_alg, pcr_bitmap).
     sbind (read_file os POLICY) (\<lambda>text.
     sbind (sres (check_gateway_config (utf8_lossy text) LISTEN)) (\<lambda>_.
     sret \<lparr>o_operator_key = operator_key, o_device_id = device_id, o_pcr_alg = pcr_alg,
           o_pcr_bitmap = pcr_bitmap, o_policy = sha256 (c_hash C) text,
           o_index_name = index_name\<rparr>))))))))"

definition owned_ctx :: "'w os \<Rightarrow> 'k owned \<Rightarrow> ('w, 'k) stop_ctx" where
  "owned_ctx os ow =
     \<lparr>x_lift = \<lparr>l_device_id = o_device_id ow, l_operator_key = o_operator_key ow,
                l_release = release_files_read os RELEASE\<rparr>,
      x_device_id = o_device_id ow, x_pcr_spec = PCR_SPEC, x_pcr_alg = o_pcr_alg ow,
      x_pcr_bitmap = o_pcr_bitmap ow, x_policy_digest = o_policy ow,
      x_stop_index_name = o_index_name ow\<rparr>"

section \<open>One question, one answer\<close>

record answer =
  an_code :: nat
  an_ctype :: bytes
  an_body :: bytes

text \<open>The text of an error message is a parameter: only a refusal's body shows it.\<close>

definition handle_request ::
  "(err \<Rightarrow> bytes) \<Rightarrow> ('k, 's) crypto \<Rightarrow> 'w stop_tpm \<Rightarrow> ('w, 'k) stop_ctx \<Rightarrow> request res \<Rightarrow> 'w
     \<Rightarrow> answer \<times> 'w" where
  "handle_request render C T x r w =
     (case r of
        Inl e \<Rightarrow> (\<lparr>an_code = 400, an_ctype = lit ''text/plain'', an_body = render e\<rparr>, w)
      | Inr req \<Rightarrow>
          (case admit C T x (request_digest (c_hash C) (q_method req) (q_path req) (q_body req)) w of
             (Inr Allow, w') \<Rightarrow> (\<lparr>an_code = 200, an_ctype = lit ''text/plain'', an_body = []\<rparr>, w')
           | (Inr (Refuse receipt), w') \<Rightarrow>
               (\<lparr>an_code = 403, an_ctype = lit ''application/octet-stream'', an_body = receipt\<rparr>, w')
           | (Inl e, w') \<Rightarrow>
               (\<lparr>an_code = 503, an_ctype = lit ''text/plain'', an_body = lit ''stop state unavailable''\<rparr>, w')))"

text \<open>\<open>handle\<close>: the bytes written to the connection, once the request is in or refused.\<close>

definition handle ::
  "(err \<Rightarrow> bytes) \<Rightarrow> ('k, 's) crypto \<Rightarrow> 'w stop_tpm \<Rightarrow> ('w, 'k) stop_ctx \<Rightarrow> read_event list \<Rightarrow> 'w
     \<Rightarrow> (bytes \<times> 'w) option" where
  "handle render C T x evs w =
     (case read_request evs of
        None \<Rightarrow> None
      | Some r \<Rightarrow>
          (case handle_request render C T x r w of
             (an, w') \<Rightarrow> Some (respond (an_code an) (an_ctype an) (an_body an), w')))"

section \<open>Operator commands\<close>

definition nonce_hex_decode :: "bytes \<Rightarrow> bytes res" where
  "nonce_hex_decode s =
     hex_decode_with (Msg ''nonce: must be an even number of hex digits'' []) (Msg ''nonce: not hex'' []) s"

definition cmd_status ::
  "('k, 's) crypto \<Rightarrow> (bytes \<Rightarrow> 'k option) \<Rightarrow> 'w service_os \<Rightarrow> bool \<Rightarrow> bytes option
     \<Rightarrow> ('w, bytes \<times> stop_record) io" where
  "cmd_status C from_pem so terminal nonce_hex =
     sbind (sres (case nonce_hex of Some h \<Rightarrow> nonce_hex_decode h | None \<Rightarrow> Ok [])) (\<lambda>nonce.
     if terminal then sfail (Msg ''status writes the receipt, a binary file, to standard output'' [])
     else
     sbind (work_dir so) (\<lambda>work.
     sbind (admin_lock so work) (\<lambda>_.
     sbind (so_scratch so work) (\<lambda>scratch.
     sbind (owned_load C from_pem (so_os so) scratch) (\<lambda>ow.
     sbind (status C (real_tpm (so_os so) scratch) (owned_ctx (so_os so) ow) nonce) (\<lambda>receipt.
     sbind (sres (record_of receipt)) (\<lambda>rcd.
     sret (receipt, rcd))))))))"

definition describe_failure :: "transition_error \<Rightarrow> err" where
  "describe_failure e =
     (case te_now e of
        Some c \<Rightarrow>
          if state_of c = Stopped then Ctx ''THE AGENT IS NOW Stopped'' (te_message e)
          else Ctx ''STOP COUNTER IS EVEN: THE AGENT RUNS ONLY IF A VALID OPERATOR RELEASE NAMES IT'' (te_message e)
      | None \<Rightarrow> Ctx ''THE AGENT'S STATE IS UNKNOWN'' (te_message e))"

text \<open>The probe's answer: the three bytes of the status code, or \<open>???\<close>.\<close>

definition probe_code :: "bytes \<Rightarrow> bytes" where
  "probe_code out = utf8_lossy (if length out < 12 then lit ''???'' else slice 9 12 out)"

definition judge_probe :: "stop_state \<Rightarrow> bytes \<Rightarrow> unit res" where
  "judge_probe want code =
     (if want = Stopped \<and> code = lit ''403'' then Ok ()
      else if want = Running \<and> code = lit ''200'' then Ok ()
      else if want = Stopped \<and> code = lit ''200'' then
        Err (Msg ''THE SERVICE STILL ANSWERS 200: tool calls are NOT stopped'' [])
      else Err (Msg ''service answered'' [Txt code]))"

definition confirm_through_service :: "'w service_os \<Rightarrow> stop_state \<Rightarrow> ('w, unit) io" where
  "confirm_through_service so want =
     sbind (so_probe so) (\<lambda>out.
     case out of None \<Rightarrow> sret () | Some out \<Rightarrow> sres (judge_probe want (probe_code out)))"

definition admin ::
  "'w service_os \<Rightarrow> ('w stop_tpm \<Rightarrow> 'w transition_step) \<Rightarrow> stop_state \<Rightarrow> ('w, transition) io" where
  "admin so f want =
     sbind (work_dir so) (\<lambda>work.
     sbind (admin_lock so work) (\<lambda>_.
     sbind (verify_stop_counter (so_os so)) (\<lambda>_.
     sbind (smap_err describe_failure (f (real_tpm (so_os so) work))) (\<lambda>t.
     sbind (confirm_through_service so want) (\<lambda>_.
     sret t)))))"

definition cmd_trip :: "'w service_os \<Rightarrow> ('w, transition) io" where
  "cmd_trip so = admin so trip Stopped"

definition cmd_recover ::
  "('k, 's) crypto \<Rightarrow> (bytes \<Rightarrow> 'k option) \<Rightarrow> 'w service_os \<Rightarrow> ('w, transition) io" where
  "cmd_recover C from_pem so =
     sbind (read_device_id (so_os so) KEYS_DIR) (\<lambda>device_id.
     sbind (load_operator_key (so_os so) from_pem) (\<lambda>operator_key.
     let lift = \<lparr>l_device_id = device_id, l_operator_key = operator_key,
                 l_release = release_files_read (so_os so) RELEASE\<rparr> in
     admin so (\<lambda>tpm. recover C tpm lift) Running))"

definition define_want :: "bytes list \<Rightarrow> stop_state res" where
  "define_want args =
     (if args = [] then Ok Stopped
      else if args = [lit ''--initial'', lit ''stopped''] then Ok Stopped
      else if args = [lit ''--initial'', lit ''running''] then Ok Running
      else Err (Msg ''define takes --initial stopped|running'' []))"

definition cmd_define :: "'w service_os \<Rightarrow> bytes list \<Rightarrow> ('w, transition) io" where
  "cmd_define so args =
     sbind (sres (define_want args)) (\<lambda>want.
     sbind (work_dir so) (\<lambda>work.
     sbind (admin_lock so work) (\<lambda>_.
     sbind (nv_defined (so_os so) STOP_NV_COUNTER) (\<lambda>defined.
     sbind (if defined then
              sbind (stop_nv_attributes (so_os so)) (\<lambda>attrs.
              sbind (sres (check_stop_attributes attrs)) (\<lambda>_.
              if stop_attributes_written attrs then
                sfail (Msg ''already defined; use trip or recover to change the state'' [])
              else stop_nv_first_write (so_os so)))
            else stop_nv_define (so_os so)) (\<lambda>_.
     sbind (verify_stop_counter (so_os so)) (\<lambda>_.
     smap_err describe_failure (settle (real_tpm (so_os so) work) want)))))))"

section \<open>Lemmas\<close>

lemma handle_request_200:
  "handle_request render C T x r w = (an, w') \<Longrightarrow> an_code an = 200 \<longleftrightarrow>
   (\<exists>req. r = Inr req
      \<and> admit C T x (request_digest (c_hash C) (q_method req) (q_path req) (q_body req)) w = (Inr Allow, w'))"
  by (auto simp: handle_request_def split: sum.splits prod.splits admission.splits)

lemma handle_request_codes:
  "handle_request render C T x r w = (an, w') \<Longrightarrow> an_code an \<in> {200, 400, 403, 503}"
  by (auto simp: handle_request_def split: sum.splits prod.splits admission.splits)

lemma dec_codes:
  "dec 200 = lit ''200''" "dec 400 = lit ''400''" "dec 403 = lit ''403''" "dec 503 = lit ''503''"
  by (simp_all add: dec.simps lit_def)

lemma parse_pcr_spec_fixed: "parse_pcr_spec PCR_SPEC = Ok (0x000B, pcr_mask [0, 1, 8])"
proof -
  have spec: "PCR_SPEC = pcr_spec [0, 1, 8]"
    by (simp add: PCR_SPEC_def pcr_spec_def lit_def dec.simps)
  show ?thesis unfolding spec by (rule parse_pcr_spec_canonical) simp_all
qed

end
