(* ===== verification/Gate1.thy ===== *)
theory Gate1
  imports Verdict EccWire
begin

text \<open>
  Gate 1 of \<open>attest-appraise\<close> (\<open>gate1.rs\<close>): the rule that makes a public area an
  attestation key, the trust entries, and \<open>authenticate_envelope\<close> with each step in the
  code's order. What a successful run establishes is one equivalence, \<open>authenticate_iff\<close>;
  the results in other theories rest on it.
\<close>

section \<open>Types\<close>

datatype gate1_reject = GMalformed | GUnknownDevice | GSignatureFail | GEvidenceBindingFail | GQuoteBindingFail

definition reject_reason :: "gate1_reject \<Rightarrow> reason" where
  "reject_reason r = (case r of
     GMalformed \<Rightarrow> Malformed | GUnknownDevice \<Rightarrow> UnknownDevice | GSignatureFail \<Rightarrow> SignatureFail
   | GEvidenceBindingFail \<Rightarrow> EvidenceBindingFail | GQuoteBindingFail \<Rightarrow> QuoteBindingFail)"

record gate1_error =
  ge_device_id :: "bytes option"
  ge_reason :: gate1_reject
  ge_detail :: err

datatype binding = SelfSigned | TpmQuoteBound

record quote_meta =
  qm_clock_info :: clock_info
  qm_firmware_version :: u64

record authenticated =
  a_device_id :: bytes
  a_counter :: u64
  a_pcr_selection :: bytes
  a_pcr_hash :: bytes
  a_evidence :: bytes
  a_binding :: binding
  a_quote_meta :: "quote_meta option"

record 'k ak_key =
  ak_vk :: 'k
  ak_name :: bytes

datatype 'k trust_entry = Legacy 'k | Ak "'k ak_key"

section \<open>The rule for an attestation key\<close>

definition AK_REQUIRED :: u32 where
  "AK_REQUIRED = attr_FIXED_TPM OR attr_FIXED_PARENT OR attr_SENSITIVE_DATA_ORIGIN
     OR attr_RESTRICTED OR attr_SIGN"

definition ak_from_tpm2b_public :: "('k, 's) crypto \<Rightarrow> bytes \<Rightarrow> 'k ak_key res" where
  "ak_from_tpm2b_public C b =
     rbind (ecc_parse_tpm2b b) (\<lambda>p.
     if e_attributes p AND AK_REQUIRED \<noteq> AK_REQUIRED then
       Err (Msg ''not an AK: attributes lack''
         [Num (unat (e_attributes p)), Num (unat (AK_REQUIRED AND NOT (e_attributes p)))])
     else if e_attributes p AND attr_DECRYPT \<noteq> 0 then Err (Msg ''not an AK: key also decrypts'' [])
     else if e_symmetric p \<noteq> TPM_ALG_NULL \<or> e_kdf p \<noteq> TPM_ALG_NULL then
       Err (Msg ''not an AK: symmetric or KDF scheme set on a signing key'' [])
     else if e_scheme p \<noteq> TPM_ALG_ECDSA \<or> e_scheme_hash p \<noteq> TPM_ALG_SHA256 then
       Err (Msg ''not an AK: scheme'' [Num (unat (e_scheme p)), Num (unat (e_scheme_hash p))])
     else if e_curve p \<noteq> TPM_ECC_NIST_P256 then Err (Msg ''not an AK: curve'' [Num (unat (e_curve p))])
     else if length (e_x p) > 32 \<or> length (e_y p) > 32 then
       Err (Msg ''not an AK: point coordinate longer than 32 bytes'' [])
     else
       rbind (ok_or (Msg ''not an AK: point'' [])
         (c_vk_from_point C (pad_left 32 (e_x p)) (pad_left 32 (e_y p)))) (\<lambda>vk.
       rbind (ecc_name (c_hash C) p) (\<lambda>n.
       Ok \<lparr>ak_vk = vk, ak_name = n\<rparr>)))"

definition ak_rule :: "ecc_public \<Rightarrow> bool" where
  "ak_rule p \<longleftrightarrow>
     (\<forall>i \<in> {1, 4, 5, 16, 18}. bit (e_attributes p) i) \<and> \<not> bit (e_attributes p) 17
     \<and> e_symmetric p = TPM_ALG_NULL \<and> e_kdf p = TPM_ALG_NULL
     \<and> e_scheme p = TPM_ALG_ECDSA \<and> e_scheme_hash p = TPM_ALG_SHA256
     \<and> e_curve p = TPM_ECC_NIST_P256 \<and> e_name_alg p = TPM_ALG_SHA256
     \<and> length (e_x p) \<le> 32 \<and> length (e_y p) \<le> 32"

lemma and_mask_iff: "a AND m = m \<longleftrightarrow> (\<forall>i. bit m i \<longrightarrow> bit a i)" for a m :: "'a :: len word"
  by (metis and.commute bit.conj_disj_distrib bit_and_iff bit_eqI)

lemma bit_flag: "bit (push_bit k 1 :: u32) i \<longleftrightarrow> i = k \<and> k < 32"
  by (auto simp only: bit_push_bit_iff possible_bit_word bit_1_iff) auto

lemma bit_AK_REQUIRED: "bit AK_REQUIRED i \<longleftrightarrow> i \<in> {1, 4, 5, 16, 18}"
  unfolding AK_REQUIRED_def attr_FIXED_TPM_def attr_FIXED_PARENT_def attr_RESTRICTED_def
    attr_SENSITIVE_DATA_ORIGIN_def attr_SIGN_def bit_or_iff bit_flag
  by auto

lemma decrypt_bit: "a AND attr_DECRYPT = 0 \<longleftrightarrow> \<not> bit a 17"
proof -
  have "bit (a AND attr_DECRYPT) i \<longleftrightarrow> i = 17 \<and> bit a 17" for i
    unfolding attr_DECRYPT_def bit_and_iff bit_flag by auto
  then show ?thesis
    using bit_eqI [of "a AND attr_DECRYPT" 0] by (metis bit_0_eq bot_apply bot_bool_def)
qed

lemma ak_from_tpm2b_iff:
  "ak_from_tpm2b_public C b = Ok k \<longleftrightarrow>
   (\<exists>p. ecc_parse_tpm2b b = Ok p \<and> ak_rule p
      \<and> c_vk_from_point C (pad_left 32 (e_x p)) (pad_left 32 (e_y p)) = Some (ak_vk k)
      \<and> ak_name k = be16 TPM_ALG_SHA256 @ sha256 (c_hash C) (e_tpmt p))"
  unfolding ak_from_tpm2b_public_def rbind_Ok if_Err_Ok ecc_name_def ok_or_Ok
  by (cases k) (auto simp: ak_rule_def and_mask_iff bit_AK_REQUIRED decrypt_bit)

section \<open>Gate 1\<close>

text \<open>
  The first step of \<open>banks.next()\<close>. For a parsed quote the indexing it does is always
  in bounds (\<open>quote_banks_total\<close>), so the out-of-bounds panic is not a case.
\<close>

definition banks_next :: "pcr_banks \<Rightarrow> (u16 \<times> bytes) option" where
  "banks_next pb =
     (if pb_count pb = 0 then None
      else case banks_iter 1 (pb_body pb) of Some (x # _) \<Rightarrow> Some x | _ \<Rightarrow> None)"

text \<open>\<open>match (count(), banks.next())\<close> with the arm \<open>(1, Some(b))\<close>.\<close>

definition single_bank :: "quote \<Rightarrow> (u16 \<times> bytes) option" where
  "single_bank q =
     (case banks_next (q_pcr_banks q) of
        Some b \<Rightarrow> if pb_count (q_pcr_banks q) = 1 then Some b else None
      | None \<Rightarrow> None)"

definition check_quote :: "hash \<Rightarrow> bytes \<Rightarrow> attestation_message \<Rightarrow> quote \<Rightarrow> quote_meta res" where
  "check_quote H msg_bytes msg q =
     rbind (qualifying_data H msg_bytes) (\<lambda>qd.
     if q_extra_data q \<noteq> qd then Err (Msg ''quote extraData is not SHA-256 of this message'' []) else
     case single_bank q of
       None \<Rightarrow> Err (Msg ''quote covers PCR banks, want exactly 1'' [Num (unat (pb_count (q_pcr_banks q)))])
     | Some (alg, bits) \<Rightarrow>
       let want_alg = un16 [m_pcr_selection msg ! 0, m_pcr_selection msg ! 1] in
       if alg \<noteq> want_alg \<or> bits \<noteq> drop 2 (m_pcr_selection msg) then
         Err (Msg ''quote PCR selection differs from the message's pcr_selection'' [])
       else if q_pcr_digest q \<noteq> m_pcr_hash msg then
         Err (Msg ''quote pcrDigest differs from the message's pcr_hash'' [])
       else Ok \<lparr>qm_clock_info = q_clock_info q, qm_firmware_version = q_firmware_version q\<rparr>)"

text \<open>Step 3 and 4: the key, the signed bytes and the quote, or the refusal.\<close>

definition envelope_form ::
  "'k trust_entry \<Rightarrow> bytes option \<Rightarrow> bytes \<Rightarrow> (gate1_reject \<times> err) + ('k \<times> bytes \<times> quote option)" where
  "envelope_form entry attest msg_bytes = (case (entry, attest) of
     (Legacy vk, None) \<Rightarrow> Ok (vk, msg_bytes, None)
   | (Ak ak, Some a) \<Rightarrow>
       rbind (map_err (\<lambda>e. (GMalformed, e)) (quote_parse a)) (\<lambda>q. Ok (ak_vk ak, a, Some q))
   | (Ak _, None) \<Rightarrow> Err (GQuoteBindingFail, Msg ''v1 envelope for an attestation key'' [])
   | (Legacy _, Some _) \<Rightarrow> Err (GQuoteBindingFail, Msg ''quote presented under a legacy key'' []))"

definition authenticate_parsed ::
  "('k, 's) crypto \<Rightarrow> bytes \<Rightarrow> attestation_message \<Rightarrow> bytes option \<Rightarrow> bytes \<Rightarrow> bytes
     \<Rightarrow> 'k trust_entry option \<Rightarrow> (gate1_reject \<times> err) + authenticated" where
  "authenticate_parsed C msg_bytes msg attest sig_bytes evidence entry_opt =
     rbind (ok_or (GUnknownDevice, Msg ''unknown device (not in trust store)'' []) entry_opt) (\<lambda>entry.
     rbind (envelope_form entry attest msg_bytes) (\<lambda>(vk, signed, quote).
     rbind (ok_or (GSignatureFail, Msg ''malformed signature'' []) (decode_sig C sig_bytes)) (\<lambda>sig.
     if \<not> c_verify C vk signed sig then Err (GSignatureFail, Msg ''signature verification failed'' [])
     else
     rbind (case quote of
              Some q \<Rightarrow> map_err (\<lambda>e. (GQuoteBindingFail, e))
                 (rbind (check_quote (c_hash C) msg_bytes msg q) (\<lambda>qm. Ok (Some qm)))
            | None \<Rightarrow> Ok None) (\<lambda>meta.
     if evidence_digest (c_hash C) evidence \<noteq> m_evidence_hash msg then
       Err (GEvidenceBindingFail, Msg ''evidence binding'' [Num (length evidence)])
     else Ok \<lparr>a_device_id = m_device_id msg, a_counter = m_counter msg,
              a_pcr_selection = m_pcr_selection msg, a_pcr_hash = m_pcr_hash msg,
              a_evidence = evidence,
              a_binding = (if meta \<noteq> None then TpmQuoteBound else SelfSigned),
              a_quote_meta = meta\<rparr>))))"

definition authenticate_envelope ::
  "('k, 's) crypto \<Rightarrow> bytes \<Rightarrow> bytes option \<Rightarrow> bytes \<Rightarrow> bytes
     \<Rightarrow> (bytes \<Rightarrow> 'k trust_entry option) \<Rightarrow> gate1_error + authenticated" where
  "authenticate_envelope C msg_bytes attest sig_bytes evidence entry_for =
     (case parse_message msg_bytes of
        Inl e \<Rightarrow> Err \<lparr>ge_device_id = None, ge_reason = GMalformed, ge_detail = e\<rparr>
      | Inr msg \<Rightarrow>
          map_err (\<lambda>(r, d). \<lparr>ge_device_id = Some (m_device_id msg), ge_reason = r, ge_detail = d\<rparr>)
            (authenticate_parsed C msg_bytes msg attest sig_bytes evidence (entry_for (m_device_id msg))))"

definition authenticate ::
  "('k, 's) crypto \<Rightarrow> bytes \<Rightarrow> bytes \<Rightarrow> bytes \<Rightarrow> (bytes \<Rightarrow> 'k option) \<Rightarrow> gate1_error + authenticated" where
  "authenticate C msg_bytes sig_bytes evidence key_for =
     authenticate_envelope C msg_bytes None sig_bytes evidence (\<lambda>i. map_option Legacy (key_for i))"

section \<open>What gate 1 establishes\<close>

lemma banks_of_inj:
  assumes "list_all bank_ok bs" "list_all bank_ok cs" "length bs \<le> 16" "length cs \<le> 16"
    and "banks_of bs = banks_of cs"
  shows "bs = cs"
proof -
  have eq: "(of_nat (length bs) :: u32) = of_nat (length cs)"
    and body: "concat (map bank_bytes bs) = concat (map bank_bytes cs)"
    using assms(5) by (simp_all add: banks_of_def)
  have "unat (of_nat (length bs) :: u32) = length bs" "unat (of_nat (length cs) :: u32) = length cs"
    using assms(3,4) by (simp_all add: unat_of_nat)
  with eq have "length bs = length cs" by metis
  with body banks_iter_bytes [OF assms(1), of "[]"] banks_iter_bytes [OF assms(2), of "[]"]
  show ?thesis by simp
qed

lemma single_bank_iff:
  assumes "quote_parse a = Ok q"
  shows "single_bank q = Some x \<longleftrightarrow> q_pcr_banks q = banks_of [x] \<and> bank_ok x"
proof -
  from assms obtain bs where bs: "list_all bank_ok bs" "length bs \<le> 16" "q_pcr_banks q = banks_of bs"
    by (auto simp: quote_parse_iff wf_quote_def)
  have u: "unat (of_nat (length bs) :: u32) = length bs" using bs(2) by (simp add: unat_of_nat)
  then have cnt: "(of_nat (length bs) :: u32) = 1 \<longleftrightarrow> length bs = 1"
    by (metis of_nat_1 unsigned_1)
  show ?thesis
  proof
    assume s: "single_bank q = Some x"
    then have "length bs = 1"
      using cnt by (auto simp: single_bank_def bs(3) banks_of_def split: option.splits if_splits)
    then obtain y where y: "bs = [y]" by (auto simp: length_Suc_conv)
    then have "banks_next (q_pcr_banks q) = Some y"
      using banks_iter_bytes [OF bs(1), of "[]"] by (simp add: banks_next_def bs(3) banks_of_def)
    with s y bs show "q_pcr_banks q = banks_of [x] \<and> bank_ok x"
      by (simp add: single_bank_def split: if_splits)
  next
    assume "q_pcr_banks q = banks_of [x] \<and> bank_ok x"
    then show "single_bank q = Some x"
      using banks_iter_bytes [of "[x]" "[]"]
      by (simp add: single_bank_def banks_next_def banks_of_def)
  qed
qed

text \<open>The bank of a message's selection: its first two bytes and the rest.\<close>

definition selection_bank :: "bytes \<Rightarrow> u16 \<times> bytes" where
  "selection_bank sel = (un16 [sel ! 0, sel ! 1], drop 2 sel)"

lemma single_bank_selection:
  assumes "quote_parse a = Ok q" "length sel = 5"
  shows "single_bank q = Some (selection_bank sel) \<longleftrightarrow> q_pcr_banks q = banks_of [selection_bank sel]"
  using assms(2) by (simp add: single_bank_iff [OF assms(1)] bank_ok_def selection_bank_def)

definition quote_commits :: "hash \<Rightarrow> bytes \<Rightarrow> attestation_message \<Rightarrow> quote \<Rightarrow> bool" where
  "quote_commits H qd msg q \<longleftrightarrow> q_extra_data q = qd
     \<and> q_pcr_banks q = banks_of [selection_bank (m_pcr_selection msg)]
     \<and> q_pcr_digest q = m_pcr_hash msg"

lemma check_quote_iff:
  assumes "quote_parse a = Ok q" "parse_message b = Ok msg"
  shows "check_quote H b msg q = Ok qm \<longleftrightarrow> quote_commits H (sha256 H b) msg q
     \<and> qm = \<lparr>qm_clock_info = q_clock_info q, qm_firmware_version = q_firmware_version q\<rparr>"
proof -
  have len: "length b = MSG_LEN" "length (m_pcr_selection msg) = 5"
    using parse_message_sound [OF assms(2)] by (simp_all add: wf_message_def)
  show ?thesis
    unfolding quote_commits_def single_bank_selection [OF assms(1) len(2), symmetric]
    using len
    by (auto simp: check_quote_def qualifying_data_def Let_def selection_bank_def
        split: option.splits if_splits)
qed

definition auth_result :: "attestation_message \<Rightarrow> bytes \<Rightarrow> quote_meta option \<Rightarrow> authenticated" where
  "auth_result msg evidence meta =
     \<lparr>a_device_id = m_device_id msg, a_counter = m_counter msg, a_pcr_selection = m_pcr_selection msg,
      a_pcr_hash = m_pcr_hash msg, a_evidence = evidence,
      a_binding = (if meta \<noteq> None then TpmQuoteBound else SelfSigned), a_quote_meta = meta\<rparr>"

lemma authenticate_iff:
  "authenticate_envelope C b attest sig ev entry_for = Ok a \<longleftrightarrow>
   (\<exists>msg. parse_message b = Ok msg
      \<and> evidence_digest (c_hash C) ev = m_evidence_hash msg
      \<and> (case attest of
           None \<Rightarrow> (\<exists>vk. entry_for (m_device_id msg) = Some (Legacy vk) \<and> signed_by C vk b sig
                     \<and> a = auth_result msg ev None)
         | Some t \<Rightarrow> (\<exists>ak q. entry_for (m_device_id msg) = Some (Ak ak) \<and> quote_parse t = Ok q
                     \<and> signed_by C (ak_vk ak) t sig
                     \<and> quote_commits (c_hash C) (sha256 (c_hash C) b) msg q
                     \<and> a = auth_result msg ev
                         (Some \<lparr>qm_clock_info = q_clock_info q, qm_firmware_version = q_firmware_version q\<rparr>))))"
proof (cases "parse_message b")
  case (Inr msg)
  have "authenticate_parsed C b msg attest sig ev e = Ok a \<longleftrightarrow>
      evidence_digest (c_hash C) ev = m_evidence_hash msg
      \<and> (case attest of
           None \<Rightarrow> (\<exists>vk. e = Some (Legacy vk) \<and> signed_by C vk b sig \<and> a = auth_result msg ev None)
         | Some t \<Rightarrow> (\<exists>ak q. e = Some (Ak ak) \<and> quote_parse t = Ok q \<and> signed_by C (ak_vk ak) t sig
                     \<and> quote_commits (c_hash C) (sha256 (c_hash C) b) msg q
                     \<and> a = auth_result msg ev
                         (Some \<lparr>qm_clock_info = q_clock_info q, qm_firmware_version = q_firmware_version q\<rparr>)))"
    for e
    using check_quote_iff [OF _ Inr]
    by (cases attest; cases e; (cases "the e")?; (cases "quote_parse (the attest)")?)
       (auto simp: authenticate_parsed_def envelope_form_def rbind_Ok if_Err_Ok ok_or_Ok map_err_Ok
          signed_by_def auth_result_def split_paired_Ex split: option.splits)
  with Inr show ?thesis
    by (simp add: authenticate_envelope_def map_err_Ok)
qed (simp add: authenticate_envelope_def)

end
