(* ===== verification/StopVerify.thy ===== *)
theory StopVerify
  imports Gate1 StopReceipt
begin

text \<open>
  The check of a stop receipt away from the device (\<open>attest-appraise/stop.rs\<close>):
  \<open>verify_stop_receipt\<close> and \<open>verify_stop_interval\<close>. The specification \<open>receipt_states\<close>
  says what a receipt has to carry for one finding; the check is shown to accept exactly
  that.
\<close>

section \<open>Types\<close>

record 'k stop_trust =
  st_ak :: "'k ak_key"
  st_device_id :: bytes
  st_pcr_selection :: bytes
  st_pcr_composite :: bytes
  st_nonce :: "bytes option"

record stop_finding =
  sf_kind :: stop_kind
  sf_state :: stop_state
  sf_stop_epoch :: u64
  sf_policy_digest :: bytes
  sf_fresh :: bool
  sf_clock :: tpm_clock

datatype stop_basis = CounterBasis | NoReleaseBasis | RunningBasis

definition odd_epoch :: "u64 \<Rightarrow> bool" where
  "odd_epoch e \<longleftrightarrow> e mod 2 = 1"

definition basis :: "stop_finding \<Rightarrow> stop_basis" where
  "basis f = (if odd_epoch (sf_stop_epoch f) then CounterBasis
     else case sf_state f of Stopped \<Rightarrow> NoReleaseBasis | Running \<Rightarrow> RunningBasis)"

section \<open>The check of one receipt\<close>

definition verify_sig :: "('k, 's) crypto \<Rightarrow> 'k \<Rightarrow> bytes \<Rightarrow> bytes \<Rightarrow> string \<Rightarrow> unit res" where
  "verify_sig C vk m sig what =
     rbind (ok_or (Ctx what (Msg ''malformed signature'' [])) (decode_sig C sig)) (\<lambda>s.
     if c_verify C vk m s then Ok ()
     else Err (Ctx what (Msg ''signature does not verify under the AK'' [])))"

type_synonym slots = "bytes option \<times> bytes option \<times> bytes option"

text \<open>The loop over the sections: one slot per tag, any other tag and any repetition refused.\<close>

fun fill_slots :: "bundle_section list \<Rightarrow> slots \<Rightarrow> slots res" where
  "fill_slots [] sl = Ok sl"
| "fill_slots (s # ss) (rec, cert, nonce) =
     (let twice = Err (Msg ''bundle: section twice'' [Num (unat (s_tag s))]) in
      if s_tag s = TAG_STOP_STATE then
        (if rec \<noteq> None then twice else fill_slots ss (Some (s_body s), cert, nonce))
      else if s_tag s = TAG_TPM_NV_CERTIFY then
        (if cert \<noteq> None then twice else fill_slots ss (rec, Some (s_body s), nonce))
      else if s_tag s = TAG_VERIFIER_NONCE then
        (if nonce \<noteq> None then twice else fill_slots ss (rec, cert, Some (s_body s)))
      else Err (Msg ''bundle: section has no place in a stop receipt'' [Num (unat (s_tag s))]))"

definition receipt_nonce :: "bytes option \<Rightarrow> bytes option \<Rightarrow> bytes res" where
  "receipt_nonce wanted carried = (case (wanted, carried) of
     (Some want, Some got) \<Rightarrow>
       rbind (check_nonce got) (\<lambda>_.
       if got \<noteq> want then Err (Msg ''nonce: the receipt answers another challenge'' []) else Ok got)
   | (Some _, None) \<Rightarrow> Err (Msg ''nonce: the receipt carries none'' [])
   | (None, Some _) \<Rightarrow> Err (Msg ''nonce: the receipt carries one, but none was given'' [])
   | (None, None) \<Rightarrow> Ok [])"

definition quote_clock :: "quote \<Rightarrow> tpm_clock" where
  "quote_clock q = (let c = q_clock_info q in
     \<lparr>tc_clock = ci_clock c, tc_reset_count = ci_reset_count c,
      tc_restart_count = ci_restart_count c, tc_safe = ci_safe c\<rparr>)"

text \<open>Steps 2 to 6: the quote, its binding, and the values the verifier expects.\<close>

definition check_receipt_quote ::
  "('k, 's) crypto \<Rightarrow> 'k stop_trust \<Rightarrow> receipt \<Rightarrow> attestation_message \<Rightarrow> quote res" where
  "check_receipt_quote C t r msg =
     rbind (ctx ''quote'' (quote_parse (rc_quote_attest r))) (\<lambda>q.
     rbind (verify_sig C (ak_vk (st_ak t)) (rc_quote_attest r) (rc_quote_sig r) ''quote'') (\<lambda>_.
     if q_extra_data q \<noteq> stop_quote_qualifying (c_hash C) (rc_msg r) then
       Err (Msg ''quote: not bound to this receipt's message in the stop domain'' []) else
     case single_bank q of
       None \<Rightarrow> Err (Msg ''quote: covers PCR banks, want exactly 1'' [Num (unat (pb_count (q_pcr_banks q)))])
     | Some (alg, bits) \<Rightarrow>
       if alg \<noteq> un16 [m_pcr_selection msg ! 0, m_pcr_selection msg ! 1]
          \<or> bits \<noteq> drop 2 (m_pcr_selection msg) then
         Err (Msg ''quote: PCR selection differs from the message's'' [])
       else if q_pcr_digest q \<noteq> m_pcr_hash msg then
         Err (Msg ''quote: pcrDigest differs from the message's pcr_hash'' [])
       else if m_pcr_selection msg \<noteq> st_pcr_selection t then
         Err (Msg ''quote: covers other PCRs than the reference'' [])
       else if m_pcr_hash msg \<noteq> st_pcr_composite t then
         Err (Msg ''quote: the boot PCRs are not the reference build's'' [])
       else if m_device_id msg \<noteq> st_device_id t then
         Err (Msg ''receipt is from another device''
           [Txt (device_id_display (m_device_id msg)), Txt (device_id_display (st_device_id t))])
       else if evidence_digest (c_hash C) (rc_bundle r) \<noteq> m_evidence_hash msg then
         Err (Msg ''bundle: does not hash to the signed evidence_hash'' [])
       else Ok q))"

text \<open>Steps 7 to 11.\<close>

definition check_receipt_bundle ::
  "('k, 's) crypto \<Rightarrow> 'k stop_trust \<Rightarrow> receipt \<Rightarrow> attestation_message \<Rightarrow> quote \<Rightarrow> stop_finding res" where
  "check_receipt_bundle C t r msg q =
     rbind (parse_bundle (rc_bundle r)) (\<lambda>ss.
     rbind (fill_slots ss (None, None, None)) (\<lambda>(rec, cert, nonce).
     rbind (ok_or (Msg ''bundle: no stop record'' []) rec) (\<lambda>body.
     rbind (record_parse body) (\<lambda>rcd.
     if sr_stop_epoch rcd \<noteq> m_counter msg then
       Err (Msg ''stop record: epoch differs from the message counter'' []) else
     rbind (receipt_nonce (st_nonce t) nonce) (\<lambda>nonce_bytes.
     if nonce_bytes \<noteq> [] \<and> sr_kind rcd \<noteq> Status then
       Err (Msg ''stop record: a nonce-bound receipt must be a status answer'' []) else
     rbind (ok_or (Msg ''bundle: no NV certify'' []) cert) (\<lambda>cbytes.
     rbind (nv_certify_parse cbytes) (\<lambda>c.
     rbind (verify_sig C (ak_vk (st_ak t)) (nc_attest c) (nc_sig c) ''nv certify'') (\<lambda>_.
     rbind (check_counter_certify (nc_attest c) (certify_qualifying (c_hash C) body nonce_bytes)
              (stop_index_name (c_hash C)) (sr_stop_epoch rcd)) (\<lambda>_.
     if odd_epoch (sr_stop_epoch rcd) \<and> sr_state rcd = Running then
       Err (Msg ''stop record: odd counter reported as running'' []) else
     rbind (parse_nv_certify_info (nc_attest c)) (\<lambda>i.
     if \<not> same_boot (ni_clock i) (quote_clock q) then
       Err (Msg ''receipt: the counter was read in one TPM boot and the build quoted in another''
         [Num (unat (tc_reset_count (ni_clock i))), Num (unat (tc_restart_count (ni_clock i))),
          Num (unat (tc_reset_count (quote_clock q))), Num (unat (tc_restart_count (quote_clock q)))])
     else Ok \<lparr>sf_kind = sr_kind rcd, sf_state = sr_state rcd,
              sf_stop_epoch = sr_stop_epoch rcd, sf_policy_digest = sr_policy_digest rcd,
              sf_fresh = (nonce_bytes \<noteq> []), sf_clock = ni_clock i\<rparr>))))))))))"

definition verify_stop_receipt ::
  "('k, 's) crypto \<Rightarrow> bytes \<Rightarrow> 'k stop_trust \<Rightarrow> stop_finding res" where
  "verify_stop_receipt C receipt t =
     rbind (receipt_parse receipt) (\<lambda>r.
     rbind (parse_message (rc_msg r)) (\<lambda>msg.
     rbind (check_receipt_quote C t r msg) (\<lambda>q.
     check_receipt_bundle C t r msg q)))"

section \<open>The check of an interval\<close>

record stop_interval =
  si_stop_epoch :: u64
  si_from :: tpm_clock
  si_to :: tpm_clock

definition held_ms :: "stop_interval \<Rightarrow> u64" where
  "held_ms i = tc_clock (si_to i) - tc_clock (si_from i)"

definition verify_stop_interval ::
  "('k, 's) crypto \<Rightarrow> bytes \<Rightarrow> bytes \<Rightarrow> bytes \<Rightarrow> bytes \<Rightarrow> 'k stop_trust \<Rightarrow> stop_interval res" where
  "verify_stop_interval C first first_nonce second second_nonce t =
     (if st_nonce t \<noteq> None then
        Err (Msg ''interval: give the nonces to verify_stop_interval, not in the trust'' [])
      else if first_nonce = second_nonce then
        Err (Msg ''interval: both receipts answer the same challenge'' [])
      else
      rbind (ctx ''first receipt'' (verify_stop_receipt C first (t\<lparr>st_nonce := Some first_nonce\<rparr>))) (\<lambda>a.
      rbind (ctx ''second receipt'' (verify_stop_receipt C second (t\<lparr>st_nonce := Some second_nonce\<rparr>))) (\<lambda>b.
      if basis a \<noteq> CounterBasis then
        Err (Msg ''interval: the first receipt is not a stop the TPM states'' [Num (unat (sf_stop_epoch a))])
      else if basis b \<noteq> CounterBasis then
        Err (Msg ''interval: the second receipt is not a stop the TPM states'' [Num (unat (sf_stop_epoch b))])
      else if sf_stop_epoch a \<noteq> sf_stop_epoch b then
        Err (Msg ''interval: the stop counter moved'' [Num (unat (sf_stop_epoch a)), Num (unat (sf_stop_epoch b))])
      else if tc_reset_count (sf_clock a) \<noteq> tc_reset_count (sf_clock b) then
        Err (Msg ''interval: the TPM was reset in between''
          [Num (unat (tc_reset_count (sf_clock a))), Num (unat (tc_reset_count (sf_clock b)))])
      else if tc_restart_count (sf_clock a) \<noteq> tc_restart_count (sf_clock b) then
        Err (Msg ''interval: the TPM was restarted in between''
          [Num (unat (tc_restart_count (sf_clock a))), Num (unat (tc_restart_count (sf_clock b)))])
      else if tc_clock (sf_clock b) \<le> tc_clock (sf_clock a) then
        Err (Msg ''interval: the second receipt is not later by the TPM clock''
          [Num (unat (tc_clock (sf_clock a))), Num (unat (tc_clock (sf_clock b)))])
      else Ok \<lparr>si_stop_epoch = sf_stop_epoch a, si_from = sf_clock a, si_to = sf_clock b\<rparr>)))"

section \<open>What a receipt states\<close>

definition bodies :: "u16 \<Rightarrow> bundle_section list \<Rightarrow> bytes list" where
  "bodies tag ss = map s_body (filter (\<lambda>s. s_tag s = tag) ss)"

definition opt_list :: "'a option \<Rightarrow> 'a list" where
  "opt_list x = (case x of None \<Rightarrow> [] | Some y \<Rightarrow> [y])"

lemma opt_list_simps [simp]:
  "opt_list None = []" "opt_list (Some y) = [y]"
  "opt_list x = [] \<longleftrightarrow> x = None" "opt_list x = y # ys \<longleftrightarrow> x = Some y \<and> ys = []"
  by (auto simp: opt_list_def split: option.splits)

lemma bodies_simps [simp]:
  "bodies tag [] = []"
  "bodies tag (s # ss) = (if s_tag s = tag then s_body s # bodies tag ss else bodies tag ss)"
  by (simp_all add: bodies_def)

definition stop_tags :: "u16 set" where
  "stop_tags = {TAG_STOP_STATE, TAG_TPM_NV_CERTIFY, TAG_VERIFIER_NONCE}"

lemma opt_list_append: "opt_list x = opt_list y @ zs \<longleftrightarrow>
    (case y of None \<Rightarrow> opt_list x = zs | Some b \<Rightarrow> x = Some b \<and> zs = [])"
  by (cases y; cases x) auto

lemma fill_slots_iff:
  "fill_slots ss (a, b, c) = Ok (a', b', c') \<longleftrightarrow>
   list_all (\<lambda>s. s_tag s \<in> stop_tags) ss
   \<and> opt_list a' = opt_list a @ bodies TAG_STOP_STATE ss
   \<and> opt_list b' = opt_list b @ bodies TAG_TPM_NV_CERTIFY ss
   \<and> opt_list c' = opt_list c @ bodies TAG_VERIFIER_NONCE ss"
proof (induction ss arbitrary: a b c)
  case Nil
  then show ?case
    by (cases a; cases b; cases c) (auto simp: opt_list_append split: option.splits)
next
  case (Cons s ss)
  then show ?case
    by (cases a; cases b; cases c)
      (auto simp: Let_def stop_tags_def tag_defs opt_list_append split: option.splits)
qed

text \<open>
  The specification: the receipt \<open>r\<close> with message \<open>msg\<close>, quote \<open>q\<close>, stop record
  \<open>rcd\<close> (body \<open>body\<close>), certify \<open>c\<close> and the structure \<open>i\<close> it signs, under the
  verifier's trust.
\<close>

definition quote_states ::
  "('k, 's) crypto \<Rightarrow> 'k stop_trust \<Rightarrow> receipt \<Rightarrow> attestation_message \<Rightarrow> quote \<Rightarrow> bool" where
  "quote_states C t r msg q \<longleftrightarrow>
     parse_message (rc_msg r) = Ok msg
     \<and> quote_parse (rc_quote_attest r) = Ok q
     \<and> signed_by C (ak_vk (st_ak t)) (rc_quote_attest r) (rc_quote_sig r)
     \<and> quote_commits (c_hash C) (stop_quote_qualifying (c_hash C) (rc_msg r)) msg q
     \<and> m_pcr_selection msg = st_pcr_selection t \<and> m_pcr_hash msg = st_pcr_composite t
     \<and> m_device_id msg = st_device_id t
     \<and> evidence_digest (c_hash C) (rc_bundle r) = m_evidence_hash msg"

definition record_states ::
  "('k, 's) crypto \<Rightarrow> 'k stop_trust \<Rightarrow> receipt \<Rightarrow> attestation_message \<Rightarrow> quote
     \<Rightarrow> bytes \<Rightarrow> stop_record \<Rightarrow> nv_certify \<Rightarrow> nv_certify_info \<Rightarrow> bool" where
  "record_states C t r msg q body rcd c i \<longleftrightarrow>
     (\<exists>ss. parse_bundle (rc_bundle r) = Ok ss \<and> list_all (\<lambda>s. s_tag s \<in> stop_tags) ss
        \<and> bodies TAG_STOP_STATE ss = [body]
        \<and> (\<exists>cb. bodies TAG_TPM_NV_CERTIFY ss = [cb] \<and> nv_certify_parse cb = Ok c)
        \<and> bodies TAG_VERIFIER_NONCE ss = opt_list (st_nonce t))
     \<and> (\<forall>n. st_nonce t = Some n \<longrightarrow> check_nonce n = Ok () \<and> sr_kind rcd = Status)
     \<and> record_parse body = Ok rcd \<and> sr_stop_epoch rcd = m_counter msg
     \<and> signed_by C (ak_vk (st_ak t)) (nc_attest c) (nc_sig c)
     \<and> parse_nv_certify_info (nc_attest c) = Ok i
     \<and> ni_extra_data i = certify_qualifying (c_hash C) body (concat (opt_list (st_nonce t)))
     \<and> ni_index_name i = stop_index_name (c_hash C)
     \<and> ni_offset i = 0 \<and> ni_contents i = be64 (sr_stop_epoch rcd)
     \<and> (odd_epoch (sr_stop_epoch rcd) \<longrightarrow> sr_state rcd = Stopped)
     \<and> same_boot (ni_clock i) (quote_clock q)"

definition finding_of :: "'k stop_trust \<Rightarrow> stop_record \<Rightarrow> nv_certify_info \<Rightarrow> stop_finding" where
  "finding_of t rcd i =
     \<lparr>sf_kind = sr_kind rcd, sf_state = sr_state rcd, sf_stop_epoch = sr_stop_epoch rcd,
      sf_policy_digest = sr_policy_digest rcd, sf_fresh = (st_nonce t \<noteq> None), sf_clock = ni_clock i\<rparr>"

lemma verify_sig_iff: "verify_sig C vk m s w = Ok u \<longleftrightarrow> signed_by C vk m s"
  by (auto simp: verify_sig_def signed_by_def rbind_Ok ok_or_Ok split: option.splits if_splits)

lemma check_receipt_quote_iff:
  assumes "parse_message (rc_msg r) = Ok msg"
  shows "check_receipt_quote C t r msg = Ok q \<longleftrightarrow> quote_states C t r msg q"
proof (cases "quote_parse (rc_quote_attest r)")
  case (Inr q')
  have len: "length (m_pcr_selection msg) = 5"
    using parse_message_sound [OF assms] by (simp add: wf_message_def)
  show ?thesis
  proof (cases "single_bank q'")
    case None
    then show ?thesis
      using single_bank_selection [OF Inr len] assms
      by (auto simp: check_receipt_quote_def quote_states_def quote_commits_def Inr rbind_Ok verify_sig_iff
          if_Err_Ok)
  next
    case (Some x)
    have "q' = q \<Longrightarrow> q_pcr_banks q = banks_of [selection_bank (m_pcr_selection msg)] \<longleftrightarrow>
        fst x = un16 [m_pcr_selection msg ! 0, m_pcr_selection msg ! 1]
        \<and> snd x = drop 2 (m_pcr_selection msg)"
      using single_bank_selection [OF Inr len] Some by (cases x) (auto simp: selection_bank_def)
    then show ?thesis
      using assms
      by (cases x) (auto simp: check_receipt_quote_def quote_states_def quote_commits_def Inr Some
          rbind_Ok verify_sig_iff if_Err_Ok)
  qed
qed (simp add: check_receipt_quote_def quote_states_def)

lemma check_nonce_nonempty: "check_nonce n = Ok u \<Longrightarrow> n \<noteq> []"
  by (auto simp: check_nonce_def)

lemma receipt_nonce_iff:
  "receipt_nonce want got = Ok n \<longleftrightarrow>
   want = got \<and> n = concat (opt_list want) \<and> (\<forall>w. want = Some w \<longrightarrow> check_nonce w = Ok ())"
  by (cases want; cases got) (auto simp: receipt_nonce_def rbind_Ok if_Err_Ok)

lemma receipt_nonce_fresh: "receipt_nonce want got = Ok n \<Longrightarrow> n \<noteq> [] \<longleftrightarrow> want \<noteq> None"
  by (cases want; cases got)
     (auto simp: receipt_nonce_def rbind_Ok if_Err_Ok dest: check_nonce_nonempty)

lemma check_receipt_bundle_iff:
  "check_receipt_bundle C t r msg q = Ok f \<longleftrightarrow>
   (\<exists>body rcd c i. record_states C t r msg q body rcd c i \<and> f = finding_of t rcd i)"
proof
  assume "check_receipt_bundle C t r msg q = Ok f"
  then obtain ss body cb nonce rcd nb c i where
    ss: "parse_bundle (rc_bundle r) = Ok ss"
    and slots: "fill_slots ss (None, None, None) = Ok (Some body, Some cb, nonce)"
    and rest: "record_parse body = Ok rcd" "sr_stop_epoch rcd = m_counter msg"
      "receipt_nonce (st_nonce t) nonce = Ok nb" "nb \<noteq> [] \<Longrightarrow> sr_kind rcd = Status"
      "nv_certify_parse cb = Ok c" "signed_by C (ak_vk (st_ak t)) (nc_attest c) (nc_sig c)"
      "check_counter_certify (nc_attest c) (certify_qualifying (c_hash C) body nb)
         (stop_index_name (c_hash C)) (sr_stop_epoch rcd) = Ok ()"
      "\<not> (odd_epoch (sr_stop_epoch rcd) \<and> sr_state rcd = Running)"
      "parse_nv_certify_info (nc_attest c) = Ok i" "same_boot (ni_clock i) (quote_clock q)"
    and f: "f = \<lparr>sf_kind = sr_kind rcd, sf_state = sr_state rcd,
              sf_stop_epoch = sr_stop_epoch rcd, sf_policy_digest = sr_policy_digest rcd,
              sf_fresh = (nb \<noteq> []), sf_clock = ni_clock i\<rparr>"
    unfolding check_receipt_bundle_def
    by (clarsimp simp: rbind_Ok ok_or_Ok if_Err_Ok verify_sig_iff) blast
  have "sf_fresh f \<longleftrightarrow> st_nonce t \<noteq> None"
    using receipt_nonce_fresh [OF rest(3)] by (simp add: f)
  then have "f = finding_of t rcd i" by (simp add: finding_of_def f)
  moreover have "record_states C t r msg q body rcd c i"
  proof -
    have sl: "list_all (\<lambda>s. s_tag s \<in> stop_tags) ss" "bodies TAG_STOP_STATE ss = [body]"
        "bodies TAG_TPM_NV_CERTIFY ss = [cb]" "bodies TAG_VERIFIER_NONCE ss = opt_list nonce"
      using slots by (simp_all add: fill_slots_iff)
    have n: "nonce = st_nonce t" "nb = concat (opt_list (st_nonce t))"
        "st_nonce t = Some w \<Longrightarrow> check_nonce w = Ok ()" for w
      using rest(3) by (auto simp: receipt_nonce_iff)
    have kind: "st_nonce t = Some w \<Longrightarrow> sr_kind rcd = Status" for w
      using receipt_nonce_fresh [OF rest(3)] rest(4) by simp
    have odd: "odd_epoch (sr_stop_epoch rcd) \<Longrightarrow> sr_state rcd = Stopped"
      using rest(8) by (cases "sr_state rcd") simp_all
    show ?thesis
      unfolding record_states_def
      using ss sl n kind odd rest(1,2,5,6,7,9,10)
      by (simp add: check_counter_certify_iff)
  qed
  ultimately show "\<exists>body rcd c i. record_states C t r msg q body rcd c i \<and> f = finding_of t rcd i"
    by blast
next
  assume "\<exists>body rcd c i. record_states C t r msg q body rcd c i \<and> f = finding_of t rcd i"
  then obtain body rcd c i where f: "f = finding_of t rcd i"
    and st: "record_states C t r msg q body rcd c i" by blast
  from st obtain ss cb where ss: "parse_bundle (rc_bundle r) = Ok ss"
    and sl: "list_all (\<lambda>s. s_tag s \<in> stop_tags) ss" "bodies TAG_STOP_STATE ss = [body]"
      "bodies TAG_TPM_NV_CERTIFY ss = [cb]" "bodies TAG_VERIFIER_NONCE ss = opt_list (st_nonce t)"
    and c: "nv_certify_parse cb = Ok c"
    unfolding record_states_def by blast
  from st have rest: "record_parse body = Ok rcd" "sr_stop_epoch rcd = m_counter msg"
      "signed_by C (ak_vk (st_ak t)) (nc_attest c) (nc_sig c)"
      "odd_epoch (sr_stop_epoch rcd) \<Longrightarrow> sr_state rcd = Stopped"
      "parse_nv_certify_info (nc_attest c) = Ok i" "same_boot (ni_clock i) (quote_clock q)"
    and cert: "check_counter_certify (nc_attest c)
         (certify_qualifying (c_hash C) body (concat (opt_list (st_nonce t))))
         (stop_index_name (c_hash C)) (sr_stop_epoch rcd) = Ok ()"
    and n: "st_nonce t = Some w \<Longrightarrow> check_nonce w = Ok () \<and> sr_kind rcd = Status" for w
    unfolding record_states_def check_counter_certify_iff by blast+
  have nonce: "receipt_nonce (st_nonce t) (st_nonce t) = Ok (concat (opt_list (st_nonce t)))"
    using n by (simp add: receipt_nonce_iff)
  have slots: "fill_slots ss (None, None, None) = Ok (Some body, Some cb, st_nonce t)"
    using sl by (simp add: fill_slots_iff)
  have fresh: "concat (opt_list (st_nonce t)) \<noteq> [] \<longleftrightarrow> st_nonce t \<noteq> None"
    by (rule receipt_nonce_fresh [OF nonce])
  have kind: "\<not> (concat (opt_list (st_nonce t)) \<noteq> [] \<and> sr_kind rcd \<noteq> Status)"
    and odd: "\<not> (odd_epoch (sr_stop_epoch rcd) \<and> sr_state rcd = Running)"
    using fresh n rest(4) by auto
  have sg: "verify_sig C (ak_vk (st_ak t)) (nc_attest c) (nc_sig c) w = Ok ()" for w
    using rest(3) by (simp add: verify_sig_iff)
  show "check_receipt_bundle C t r msg q = Ok f"
    unfolding check_receipt_bundle_def ss rbind_simps slots case_prod_conv ok_or_simps rest(1,5)
      nonce c sg cert if_not_P [OF kind] if_not_P [OF odd] f
      finding_of_def
    using rest(2,6) fresh by simp
qed

theorem verify_stop_receipt_iff:
  "verify_stop_receipt C receipt t = Ok f \<longleftrightarrow>
   (\<exists>r msg q body rcd c i. receipt_parse receipt = Ok r \<and> quote_states C t r msg q
      \<and> record_states C t r msg q body rcd c i \<and> f = finding_of t rcd i)"
proof -
  have "check_receipt_quote C t r msg = Ok q \<and> parse_message (rc_msg r) = Ok msg
      \<longleftrightarrow> quote_states C t r msg q" for r msg q
    using check_receipt_quote_iff [of r msg C t q] by (auto simp: quote_states_def)
  then show ?thesis
    unfolding verify_stop_receipt_def rbind_Ok check_receipt_bundle_iff by blast
qed

end
