(* ===== verification/StopSession.thy ===== *)
theory StopSession
  imports StopCore StopVerify
begin

text \<open>
  The stop service and its verifier together: what a working chip and a readable release
  store are, that the service then always answers, and that a verifier with matching trust
  accepts every receipt it hands out. \<open>works\<close> states documented behaviour of the chip
  (\<open>TPM2_NV_Read\<close>, \<open>TPM2_NV_Certify\<close>, \<open>TPM2_PCR_Read\<close>, \<open>TPM2_Quote\<close> under one
  attestation key within one boot) for a machine whose counter nobody moves.
\<close>

section \<open>A working machine\<close>

definition certifies ::
  "('k, 's) crypto \<Rightarrow> 'k \<Rightarrow> ('w, 'k) stop_ctx \<Rightarrow> bytes \<Rightarrow> u64 \<Rightarrow> bytes \<Rightarrow> bytes \<Rightarrow> bool" where
  "certifies C vk x qd v a s \<longleftrightarrow>
     bounded_part ATTEST_MAX a \<and> bounded_part SIG_MAX s \<and> signed_by C vk a s
     \<and> check_counter_certify a qd (x_stop_index_name x) v = Ok ()"

definition quotes ::
  "('k, 's) crypto \<Rightarrow> 'k \<Rightarrow> ('w, 'k) stop_ctx \<Rightarrow> bytes \<Rightarrow> bytes \<Rightarrow> bytes \<Rightarrow> bytes \<Rightarrow> bytes \<Rightarrow> bool" where
  "quotes C vk x qd p a qa qs \<longleftrightarrow>
     bounded_part ATTEST_MAX qa \<and> bounded_part SIG_MAX qs \<and> signed_by C vk qa qs
     \<and> (\<exists>q. quote_parse qa = Ok q \<and> q_extra_data q = qd
          \<and> q_pcr_banks q = banks_of [(x_pcr_alg x, x_pcr_bitmap x)]
          \<and> q_pcr_digest q = sha256 (c_hash C) p
          \<and> (\<forall>i. parse_nv_certify_info a = Ok i \<longrightarrow> same_boot (ni_clock i) (quote_clock q)))"

text \<open>\<open>val\<close> is the counter in a world, \<open>pcrs\<close> the bytes \<open>tpm2_pcrread\<close> gives for the build.\<close>

definition works ::
  "('k, 's) crypto \<Rightarrow> 'k \<Rightarrow> 'w stop_tpm \<Rightarrow> ('w, 'k) stop_ctx \<Rightarrow> ('w \<Rightarrow> u64) \<Rightarrow> bytes \<Rightarrow> bool" where
  "works C vk T x val pcrs \<longleftrightarrow>
     (\<forall>w. \<exists>w'. t_read_counter T w = (Inr (val w), w') \<and> val w' = val w)
     \<and> (\<forall>w. \<exists>r w'. l_release (x_lift x) w = (Inr r, w') \<and> val w' = val w)
     \<and> (\<forall>w qd. length qd = 32 \<longrightarrow>
          (\<exists>a s w1 w2. t_certify T qd w = (Inr (a, s), w1) \<and> certifies C vk x qd (val w) a s
             \<and> t_pcr_read T (x_pcr_spec x) w1 = (Inr pcrs, w2)
             \<and> (\<forall>qd'. length qd' = 32 \<longrightarrow>
                  (\<exists>qa qs w3. t_quote T qd' (x_pcr_spec x) w2 = (Inr (qa, qs), w3)
                     \<and> quotes C vk x qd' pcrs a qa qs))))"

lemma worksD:
  assumes "works C vk T x val pcrs" "length qd = 32"
  shows "\<exists>a s w1 w2. t_certify T qd w = (Inr (a, s), w1) \<and> certifies C vk x qd (val w) a s
     \<and> t_pcr_read T (x_pcr_spec x) w1 = (Inr pcrs, w2)
     \<and> (\<forall>qd'. length qd' = 32 \<longrightarrow>
          (\<exists>qa qs w3. t_quote T qd' (x_pcr_spec x) w2 = (Inr (qa, qs), w3)
             \<and> quotes C vk x qd' pcrs a qa qs))"
  using assms unfolding works_def by blast

definition ctx_ok :: "('k, 's) crypto \<Rightarrow> ('w, 'k) stop_ctx \<Rightarrow> bool" where
  "ctx_ok C x \<longleftrightarrow> length (x_policy_digest x) = 32 \<and> length (x_pcr_bitmap x) = 3
     \<and> x_stop_index_name x = stop_index_name (c_hash C)"

text \<open>The verifier's trust for this device, this build and this challenge (empty: none).\<close>

definition trusts :: "('k, 's) crypto \<Rightarrow> 'k \<Rightarrow> ('w, 'k) stop_ctx \<Rightarrow> bytes \<Rightarrow> bytes \<Rightarrow> 'k stop_trust \<Rightarrow> bool" where
  "trusts C vk x pcrs nonce t \<longleftrightarrow>
     ak_vk (st_ak t) = vk \<and> st_device_id t = pad_right DEVICE_ID_LEN (x_device_id x)
     \<and> st_pcr_selection t = encode_pcr_selection (x_pcr_alg x) (x_pcr_bitmap x)
     \<and> st_pcr_composite t = sha256 (c_hash C) pcrs
     \<and> st_nonce t = (if nonce = [] then None else Some nonce)"

section \<open>The receipt comes into being\<close>

lemma section_bytes_length: "length (section_bytes s) = 6 + length (s_body s)"
  by (simp add: section_bytes_def)

lemma selection_bank_encode:
  "length bm = 3 \<Longrightarrow> selection_bank (encode_pcr_selection a bm) = (a, bm)"
proof -
  assume "length bm = 3"
  then obtain b0 b1 b2 where bm: "bm = [b0, b1, b2]" by (auto simp: numeral_eq_Suc length_Suc_conv)
  obtain c0 c1 where c: "be16 a = [c0, c1]"
    using two_bytes [OF length_be(1), of a] by metis
  then have "un16 [c0, c1] = a" using un_be(1) [of a] by simp
  then show ?thesis by (simp add: selection_bank_def encode_pcr_selection_def c bm)
qed

definition record_ok :: "stop_record \<Rightarrow> bytes \<Rightarrow> bool" where
  "record_ok rcd nonce \<longleftrightarrow> wf_record rcd \<and> (is_refusal (sr_kind rcd) \<longrightarrow> sr_state rcd = Stopped)
     \<and> (nonce \<noteq> [] \<longrightarrow> check_nonce nonce = Ok () \<and> sr_kind rcd = Status)
     \<and> (odd_epoch (sr_stop_epoch rcd) \<longrightarrow> sr_state rcd = Stopped)"

lemma receipt_bundle_small:
  assumes "length body \<le> 76" "length cert \<le> 2564" "nonce \<noteq> [] \<Longrightarrow> length nonce \<le> 64"
  shows "list_all section_ok (receipt_sections body cert nonce)"
    "bounded_part BUNDLE_MAX (bundle_bytes (receipt_sections body cert nonce))"
proof -
  have n: "length nonce \<le> 64" using assms(3) by (cases "nonce = []") simp_all
  show "list_all section_ok (receipt_sections body cert nonce)"
    using assms n
    by (auto simp: receipt_sections_def nonce_sections_def section_ok_def tag_forbidden_def tag_defs)
  show "bounded_part BUNDLE_MAX (bundle_bytes (receipt_sections body cert nonce))"
    using assms n
    by (simp add: receipt_sections_def nonce_sections_def section_bytes_length bounded_part_def)
qed

lemma length_record_le: "record_encode r = Ok b \<Longrightarrow> wf_record r \<Longrightarrow> length b \<le> 76"
  using length_record_encode [of r b] by (simp split: if_splits)

text \<open>One lemma for the sequence of calls: the receipt and everything in it.\<close>

lemma sign_works:
  assumes "works C vk T x val pcrs" "ctx_ok C x" "record_ok rcd nonce" "sr_stop_epoch rcd = val w"
  obtains body a s qa qs w1 w' r receipt where
    "t_certify T (certify_qualifying (c_hash C) body nonce) w = (Inr (a, s), w1)" "record_encode rcd = Ok body" "certifies C vk x (certify_qualifying (c_hash C) body nonce) (val w) a s"
    "rc_bundle r = bundle_bytes (receipt_sections body (part16 a @ part16 s) nonce)"
    "rc_msg r = receipt_message C x (sr_stop_epoch rcd) pcrs (rc_bundle r)"
    "rc_quote_attest r = qa" "rc_quote_sig r = qs"
    "quotes C vk x (stop_quote_qualifying (c_hash C) (rc_msg r)) pcrs a qa qs"
    "receipt_encode r = Ok receipt"
    "list_all section_ok (receipt_sections body (part16 a @ part16 s) nonce)"
    "sign C T x rcd nonce w = (Inr receipt, w')"
proof -
  have wf: "wf_record rcd" and st: "is_refusal (sr_kind rcd) \<longrightarrow> sr_state rcd = Stopped"
    using assms(3) by (simp_all add: record_ok_def)
  from st obtain body where body: "record_encode rcd = Ok body"
    using record_encode_ok_iff is_ok_iff by metis
  let ?qd = "certify_qualifying (c_hash C) body nonce"
  from assms(1) obtain a s w1 w2 where cert: "t_certify T ?qd w = (Inr (a, s), w1)"
    "certifies C vk x ?qd (val w) a s" and pcr: "t_pcr_read T (x_pcr_spec x) w1 = (Inr pcrs, w2)"
    and quote: "\<And>qd'. length qd' = 32 \<Longrightarrow> \<exists>qa qs w3. t_quote T qd' (x_pcr_spec x) w2 = (Inr (qa, qs), w3)
       \<and> quotes C vk x qd' pcrs a qa qs"
    using worksD [OF assms(1), of ?qd w] by auto
  let ?cert = "part16 a @ part16 s" and ?ss = "receipt_sections body (part16 a @ part16 s) nonce"
  have enc: "nv_certify_encode \<lparr>nc_attest = a, nc_sig = s\<rparr> = Ok ?cert"
    using cert(2) by (simp add: nv_certify_encode_iff certifies_def)
  have nl: "nonce \<noteq> [] \<Longrightarrow> length nonce \<le> 64"
    using assms(3) by (simp add: record_ok_def check_nonce_def split: if_splits)
  have "length ?cert \<le> 2564"
    using cert(2) by (simp add: certifies_def bounded_part_def part16_def)
  note small = receipt_bundle_small [OF length_record_le [OF body wf] this nl]
  let ?msg = "receipt_message C x (sr_stop_epoch rcd) pcrs (bundle_bytes ?ss)"
  obtain qa qs w3 where q: "t_quote T (stop_quote_qualifying (c_hash C) ?msg) (x_pcr_spec x) w2 = (Inr (qa, qs), w3)"
    "quotes C vk x (stop_quote_qualifying (c_hash C) ?msg) pcrs a qa qs"
    using quote [of "stop_quote_qualifying (c_hash C) ?msg"] by auto
  let ?r = "\<lparr>rc_msg = ?msg, rc_quote_attest = qa, rc_quote_sig = qs, rc_bundle = bundle_bytes ?ss\<rparr>"
  obtain receipt where rec: "receipt_encode ?r = Ok receipt"
    using q(2) small(2) by (auto simp: receipt_encode_iff quotes_def)
  have "build_bundle (map section_pair ?ss) = Ok (bundle_bytes ?ss)"
    using small(1) by (simp add: build_bundle_iff)
  moreover have "check_counter_certify a ?qd (x_stop_index_name x) (sr_stop_epoch rcd) = Ok ()"
    using cert(2) assms(4) by (simp add: certifies_def)
  ultimately have "sign C T x rcd nonce w = (Inr receipt, w3)"
    unfolding sign_iff using body cert(1) enc pcr q(1) rec by blast
  then show thesis
  proof (intro that [of body a s w1 ?r qa qs receipt w3])
    show "t_certify T ?qd w = (Inr (a, s), w1)" by (rule cert(1))
    show "record_encode rcd = Ok body" by (rule body)
    show "certifies C vk x ?qd (val w) a s" by (rule cert(2))
    show "quotes C vk x (stop_quote_qualifying (c_hash C) (rc_msg ?r)) pcrs a qa qs"
      using q(2) by (simp only: receipt.select_convs)
    show "receipt_encode ?r = Ok receipt" by (rule rec)
    show "list_all section_ok ?ss" by (rule small(1))
  qed (simp_all only: receipt.select_convs)
qed

section \<open>The receipt is accepted\<close>

lemma bodies_receipt_sections:
  "bodies TAG_STOP_STATE (receipt_sections body cert nonce) = [body]"
  "bodies TAG_TPM_NV_CERTIFY (receipt_sections body cert nonce) = [cert]"
  "bodies TAG_VERIFIER_NONCE (receipt_sections body cert nonce) = (if nonce = [] then [] else [nonce])"
  "list_all (\<lambda>s. s_tag s \<in> stop_tags) (receipt_sections body cert nonce)"
  by (simp_all add: receipt_sections_def nonce_sections_def tag_defs stop_tags_def)

lemma sign_verifies:
  assumes "works C vk T x val pcrs" "ctx_ok C x" "record_ok rcd nonce" "sr_stop_epoch rcd = val w"
    and "trusts C vk x pcrs nonce t"
  obtains receipt w' body a s w1 i where "sign C T x rcd nonce w = (Inr receipt, w')"
    "verify_stop_receipt C receipt t = Ok (finding_of t rcd i)"
    "t_certify T (certify_qualifying (c_hash C) body nonce) w = (Inr (a, s), w1)"
    "parse_nv_certify_info a = Ok i"
proof -
  obtain body a s qa qs w1 w' r receipt where
    read: "t_certify T (certify_qualifying (c_hash C) body nonce) w = (Inr (a, s), w1)"
    and body: "record_encode rcd = Ok body"
    and cert: "certifies C vk x (certify_qualifying (c_hash C) body nonce) (val w) a s"
    and r: "rc_bundle r = bundle_bytes (receipt_sections body (part16 a @ part16 s) nonce)"
      "rc_msg r = receipt_message C x (sr_stop_epoch rcd) pcrs (rc_bundle r)"
      "rc_quote_attest r = qa" "rc_quote_sig r = qs"
    and q: "quotes C vk x (stop_quote_qualifying (c_hash C) (rc_msg r)) pcrs a qa qs"
    and enc: "receipt_encode r = Ok receipt"
    and ok: "list_all section_ok (receipt_sections body (part16 a @ part16 s) nonce)"
    and run: "sign C T x rcd nonce w = (Inr receipt, w')"
    by (rule sign_works [OF assms(1-4)])
  let ?H = "c_hash C"
  let ?msg = "\<lparr>m_device_id = pad_right DEVICE_ID_LEN (x_device_id x), m_counter = sr_stop_epoch rcd,
     m_pcr_selection = encode_pcr_selection (x_pcr_alg x) (x_pcr_bitmap x),
     m_pcr_hash = sha256 ?H pcrs, m_evidence_hash = evidence_digest ?H (rc_bundle r)\<rparr>"
  have msg: "parse_message (rc_msg r) = Ok ?msg"
    unfolding r(2) receipt_message_def by (rule parse_build_canonical) simp
  from q obtain qq where qq: "quote_parse qa = Ok qq" "signed_by C vk qa qs"
    "q_extra_data qq = stop_quote_qualifying ?H (rc_msg r)"
    "q_pcr_banks qq = banks_of [(x_pcr_alg x, x_pcr_bitmap x)]" "q_pcr_digest qq = sha256 ?H pcrs"
    and boot: "\<And>i. parse_nv_certify_info a = Ok i \<Longrightarrow> same_boot (ni_clock i) (quote_clock qq)"
    unfolding quotes_def by blast
  have Q: "quote_states C t r ?msg qq"
    using msg qq assms(2,5) r
    by (simp add: quote_states_def quote_commits_def trusts_def ctx_ok_def selection_bank_encode)
  from cert obtain i where i: "parse_nv_certify_info a = Ok i"
    "ni_extra_data i = certify_qualifying ?H body nonce"
    "ni_index_name i = stop_index_name ?H" "ni_offset i = 0" "ni_contents i = be64 (val w)"
    using assms(2) by (auto simp: certifies_def check_counter_certify_iff ctx_ok_def)
  have c: "nv_certify_parse (part16 a @ part16 s) = Ok \<lparr>nc_attest = a, nc_sig = s\<rparr>" "signed_by C vk a s"
    using cert by (simp_all add: nv_certify_parse_iff nv_certify_encode_iff certifies_def)
  have rcd: "record_parse body = Ok rcd"
    using body assms(3) by (simp add: record_parse_iff record_ok_def)
  have b: "parse_bundle (rc_bundle r) = Ok (receipt_sections body (part16 a @ part16 s) nonce)"
    using ok r(1) by (simp add: parse_bundle_iff)
  have n: "opt_list (st_nonce t) = (if nonce = [] then [] else [nonce])"
    using assms(5) by (simp add: trusts_def)
  have nn: "\<forall>n. st_nonce t = Some n \<longrightarrow> check_nonce n = Ok () \<and> sr_kind rcd = Status"
    using assms(3,5) by (simp add: trusts_def record_ok_def)
  have cc: "concat (opt_list (st_nonce t)) = nonce" using n by simp
  have vk: "ak_vk (st_ak t) = vk" using assms(5) by (simp add: trusts_def)
  have "record_states C t r ?msg qq body rcd \<lparr>nc_attest = a, nc_sig = s\<rparr> i"
    unfolding record_states_def cc vk
    using rcd c i boot [OF i(1)] nn assms(3,4) b n bodies_receipt_sections
    by (simp add: record_ok_def)
  then have "verify_stop_receipt C receipt t = Ok (finding_of t rcd i)"
    unfolding verify_stop_receipt_iff using Q enc receipt_parse_iff by blast
  from run this read i(1) show thesis by (rule that)
qed

end
