(* ===== verification/Appraisal.thy ===== *)
theory Appraisal
  imports Gate1
begin

text \<open>
  Gate 3 and the check of one envelope (\<open>appraisal.rs\<close>): the kinds a bundle presents, the
  comparison of state and then evidence with the reference set, and the composition with
  gate 1.
\<close>

section \<open>Operations\<close>

fun presented_loop :: "bundle_section list \<Rightarrow> evidence_kind list \<Rightarrow> evidence_kind list" where
  "presented_loop [] out = out"
| "presented_loop (s # ss) out =
     (case kind_from_tag (s_tag s) of
        Some kind \<Rightarrow> presented_loop ss (if kind \<in> set out then out else out @ [kind])
      | None \<Rightarrow> presented_loop ss out)"

definition presented_kinds :: "bytes \<Rightarrow> evidence_kind list res" where
  "presented_kinds bundle = rbind (parse_bundle bundle) (\<lambda>ss. Ok (presented_loop ss []))"

definition gate3 :: "attested_state \<Rightarrow> evidence_kind list \<Rightarrow> reference_set \<Rightarrow> verdict" where
  "gate3 attested presented refs =
     (if as_selection attested \<noteq> rs_expected_selection refs then verdict_reject UnrecognizedState
      else if \<not> reference_contains refs (as_composite attested) then verdict_reject UnrecognizedState
      else case find (\<lambda>k. k \<notin> set presented) (rs_required_evidence refs) of
          Some missing \<Rightarrow> verdict_reject (EvidenceMissing missing)
        | None \<Rightarrow> verdict_accept)"

definition attested_from :: "authenticated \<Rightarrow> attested_state" where
  "attested_from a =
     \<lparr>as_selection = selection_from_canonical (a_pcr_selection a), as_composite = a_pcr_hash a\<rparr>"

definition appraise :: "authenticated \<Rightarrow> reference_set \<Rightarrow> verdict" where
  "appraise auth refs =
     (case presented_kinds (a_evidence auth) of
        Inr kinds \<Rightarrow> gate3 (attested_from auth) kinds refs
      | Inl _ \<Rightarrow> verdict_reject EvidenceUnparseable)"

definition check ::
  "('k, 's) crypto \<Rightarrow> bytes \<Rightarrow> bytes \<Rightarrow> bytes \<Rightarrow> 'k \<Rightarrow> reference_set \<Rightarrow> verdict" where
  "check C msg_bytes sig_bytes evidence key refs =
     (case authenticate C msg_bytes sig_bytes evidence (\<lambda>_. Some key) of
        Inr auth \<Rightarrow> appraise auth refs
      | Inl e \<Rightarrow> verdict_reject (reject_reason (ge_reason e)))"

section \<open>Lemmas\<close>

lemma presented_loop_set:
  "set (presented_loop ss out) = set out \<union> {k. \<exists>s \<in> set ss. kind_from_tag (s_tag s) = Some k}"
  by (induction ss out rule: presented_loop.induct) (auto split: option.splits)

lemma presented_loop_distinct: "distinct out \<Longrightarrow> distinct (presented_loop ss out)"
  by (induction ss out rule: presented_loop.induct) (auto split: option.splits)

text \<open>A bundle presents a kind when one of its sections carries the tag of that kind.\<close>

definition presents :: "bundle_section list \<Rightarrow> evidence_kind \<Rightarrow> bool" where
  "presents ss k \<longleftrightarrow> list_ex (\<lambda>s. kind_from_tag (s_tag s) = Some k) ss"

lemma presented_kinds_iff:
  "presented_kinds b = Ok ks \<longleftrightarrow> (\<exists>ss. parse_bundle b = Ok ss \<and> ks = presented_loop ss [])"
  by (auto simp: presented_kinds_def rbind_Ok)

lemma in_presented: "k \<in> set (presented_loop ss []) \<longleftrightarrow> presents ss k"
  by (auto simp: presented_loop_set presents_def list_ex_iff)

lemma find_prefix: "P k \<Longrightarrow> list_all (\<lambda>x. \<not> P x) pre \<Longrightarrow> find P (pre @ k # post) = Some k"
  by (induction pre) auto

lemma find_split:
  "find P xs = Some k \<Longrightarrow> \<exists>pre post. xs = pre @ k # post \<and> P k \<and> list_all (\<lambda>x. \<not> P x) pre"
proof (induction xs)
  case (Cons x xs)
  show ?case
  proof (cases "P x")
    case True
    with Cons.prems show ?thesis by (intro exI [of _ "[]"] exI [of _ xs]) simp
  next
    case False
    with Cons obtain pre post where "xs = pre @ k # post" "P k" "list_all (\<lambda>x. \<not> P x) pre" by auto
    with False show ?thesis by (intro exI [of _ "x # pre"] exI [of _ post]) simp
  qed
qed simp

lemma gate3_accept_iff:
  "gate3 st ks refs = verdict_accept \<longleftrightarrow>
   as_selection st = rs_expected_selection refs \<and> as_composite st \<in> set (rs_allowed refs)
   \<and> set (rs_required_evidence refs) \<subseteq> set ks"
  by (auto simp: gate3_def reference_contains_iff find_None_iff split: option.splits
      dest: find_split)

lemma gate3_missing_iff:
  "gate3 st ks refs = verdict_reject (EvidenceMissing k) \<longleftrightarrow>
   as_selection st = rs_expected_selection refs \<and> as_composite st \<in> set (rs_allowed refs)
   \<and> (\<exists>pre post. rs_required_evidence refs = pre @ k # post \<and> set pre \<subseteq> set ks \<and> k \<notin> set ks)"
proof -
  have "find (\<lambda>k. k \<notin> set ks) xs = Some k \<longleftrightarrow>
      (\<exists>pre post. xs = pre @ k # post \<and> set pre \<subseteq> set ks \<and> k \<notin> set ks)" for xs
    using find_split [of "\<lambda>k. k \<notin> set ks" xs k] find_prefix [of "\<lambda>k. k \<notin> set ks" k]
    unfolding list_all_iff subset_iff not_not by blast
  moreover have "gate3 st ks refs = verdict_reject (EvidenceMissing k) \<longleftrightarrow>
      as_selection st = rs_expected_selection refs \<and> as_composite st \<in> set (rs_allowed refs)
      \<and> find (\<lambda>k. k \<notin> set ks) (rs_required_evidence refs) = Some k"
    by (auto simp: gate3_def reference_contains_iff split: option.splits)
  ultimately show ?thesis by simp
qed

lemma gate3_unrecognized_iff:
  "gate3 st ks refs = verdict_reject UnrecognizedState \<longleftrightarrow>
   \<not> (as_selection st = rs_expected_selection refs \<and> as_composite st \<in> set (rs_allowed refs))"
  by (auto simp: gate3_def reference_contains_iff split: option.splits)

lemma appraise_accept_iff:
  "appraise a refs = verdict_accept \<longleftrightarrow>
   (\<exists>ss. parse_bundle (a_evidence a) = Ok ss
      \<and> selection_from_canonical (a_pcr_selection a) = rs_expected_selection refs
      \<and> a_pcr_hash a \<in> set (rs_allowed refs)
      \<and> list_all (presents ss) (rs_required_evidence refs))"
  by (auto simp: appraise_def gate3_accept_iff presented_kinds_iff attested_from_def list_all_iff
      in_presented subset_iff split: sum.splits)
     (auto simp: presented_kinds_def)

lemma reject_reason_inj: "reject_reason r = reject_reason r' \<longleftrightarrow> r = r'"
  by (cases r; cases r') (simp_all add: reject_reason_def)

end
