(* ===== verification/Demo.thy ===== *)
theory Demo
  imports StopService StopSession Appraisal
begin

text \<open>
  Concrete instances of the parameters: a signature scheme whose signatures are one byte
  of the key, a digest, and a chip whose world is its counter. They show that the
  hypotheses of the theorems about the parameters can hold.
\<close>

definition demo_hash :: hash where
  "demo_hash m = of_nat (be_dec m)"

definition demo_crypto :: "(byte, bytes) crypto" where
  "demo_crypto = \<lparr>c_hash = demo_hash, c_sig_from_der = Some, c_sig_from_slice = (\<lambda>_. None),
     c_verify = (\<lambda>k m s. s = [k]), c_vk_from_point = (\<lambda>x y. Some (x ! 31))\<rparr>"

lemma demo_crypto_simps [simp]:
  "c_hash demo_crypto = demo_hash" "c_sig_from_der demo_crypto = Some"
  "c_verify demo_crypto k m s \<longleftrightarrow> s = [k]"
  "c_vk_from_point demo_crypto x y = Some (x ! 31)"
  by (simp_all add: demo_crypto_def)

lemma demo_signed_by [simp]: "signed_by demo_crypto k m s \<longleftrightarrow> s = [k]"
  by (simp add: signed_by_def decode_sig_def)

definition demo_pcrs :: bytes where
  "demo_pcrs = replicate 96 0xAB"

definition demo_bitmap :: bytes where
  "demo_bitmap = pcr_mask [0, 1, 8]"

definition demo_info :: "u64 \<Rightarrow> bytes \<Rightarrow> u64 \<Rightarrow> nv_certify_info" where
  "demo_info k qd c =
     \<lparr>ni_qualified_signer = [0, 0x0B, 0xAA], ni_extra_data = qd,
      ni_clock = \<lparr>tc_clock = k, tc_reset_count = 1, tc_restart_count = 0, tc_safe = True\<rparr>,
      ni_index_name = stop_index_name demo_hash, ni_offset = 0, ni_contents = be64 c\<rparr>"

definition demo_quote :: "bytes \<Rightarrow> quote" where
  "demo_quote qd =
     \<lparr>q_qualified_signer = [0, 0x0B, 0xAA], q_extra_data = qd,
      q_clock_info = \<lparr>ci_clock = 1000, ci_reset_count = 1, ci_restart_count = 0, ci_safe = True\<rparr>,
      q_firmware_version = 0x22, q_pcr_banks = banks_of [(0x000B, demo_bitmap)],
      q_pcr_digest = sha256 demo_hash demo_pcrs\<rparr>"

text \<open>The chip: the world is the value of its stop counter; \<open>0x51\<close> is its key.\<close>

definition demo_tpm_at :: "u64 \<Rightarrow> u64 stop_tpm" where
  "demo_tpm_at k =
     \<lparr>t_read_counter = (\<lambda>c. (Ok c, c)),
      t_increment = (\<lambda>c. (Ok (), c + 1)),
      t_certify = (\<lambda>qd c. (Ok (build_nv_certify_info_for_tests (demo_info k qd c), [0x51]), c)),
      t_pcr_read = (\<lambda>spec c. (Ok demo_pcrs, c)),
      t_quote = (\<lambda>qd spec c. (Ok (quote_bytes (demo_quote qd), [0x51]), c))\<rparr>"

lemma demo_tpm_simps [simp]:
  "t_read_counter (demo_tpm_at k) c = (Ok c, c)" "t_increment (demo_tpm_at k) c = (Ok (), c + 1)"
  "t_certify (demo_tpm_at k) qd c = (Ok (build_nv_certify_info_for_tests (demo_info k qd c), [0x51]), c)"
  "t_pcr_read (demo_tpm_at k) spec c = (Ok demo_pcrs, c)"
  "t_quote (demo_tpm_at k) qd spec c = (Ok (quote_bytes (demo_quote qd), [0x51]), c)"
  by (simp_all add: demo_tpm_at_def)

abbreviation demo_tpm :: "u64 stop_tpm" where
  "demo_tpm \<equiv> demo_tpm_at 1000"

definition demo_device :: bytes where
  "demo_device = lit ''TACTIQ-BENCH-001''"

text \<open>A release store that holds one record, signed by the operator's key \<open>0x07\<close>.\<close>

definition demo_lift :: "u64 option \<Rightarrow> (u64, byte) lift" where
  "demo_lift e =
     \<lparr>l_device_id = demo_device, l_operator_key = 0x07,
      l_release = (\<lambda>c. (Ok (case e of None \<Rightarrow> None
         | Some n \<Rightarrow> Some (release_bytes \<lparr>r_device_id = demo_device, r_epoch = n\<rparr>, [0x07])), c))\<rparr>"

definition demo_ctx :: "u64 option \<Rightarrow> (u64, byte) stop_ctx" where
  "demo_ctx e =
     \<lparr>x_lift = demo_lift e, x_device_id = demo_device, x_pcr_spec = PCR_SPEC, x_pcr_alg = 0x000B,
      x_pcr_bitmap = demo_bitmap, x_policy_digest = replicate 32 0x11,
      x_stop_index_name = stop_index_name demo_hash\<rparr>"

definition demo_trust :: "bytes option \<Rightarrow> byte stop_trust" where
  "demo_trust n =
     \<lparr>st_ak = \<lparr>ak_vk = 0x51, ak_name = []\<rparr>, st_device_id = demo_device,
      st_pcr_selection = encode_pcr_selection 0x000B demo_bitmap,
      st_pcr_composite = sha256 demo_hash demo_pcrs, st_nonce = n\<rparr>"

section \<open>The instances behave\<close>

lemma demo_info_parse:
  "length qd = 32 \<Longrightarrow> parse_nv_certify_info (build_nv_certify_info_for_tests (demo_info k qd c)) = Ok (demo_info k qd c)"
  unfolding build_nv_certify_info_for_tests_def
  by (rule nv_info_parse_complete) (simp_all add: wf_nv_info_def demo_info_def)

lemma length_demo_bitmap [simp]: "length demo_bitmap = 3"
  by (simp add: demo_bitmap_def)

lemma demo_quote_parse: "length qd = 32 \<Longrightarrow> quote_parse (quote_bytes (demo_quote qd)) = Ok (demo_quote qd)"
  by (rule quote_parse_complete)
     (auto simp: wf_quote_def demo_quote_def bank_ok_def intro!: exI [of _ "[(0x000B, demo_bitmap)]"])

lemma demo_check_certify:
  "length qd = 32 \<Longrightarrow>
   check_counter_certify (build_nv_certify_info_for_tests (demo_info k qd c)) qd (stop_index_name demo_hash) c = Ok ()"
  by (auto simp: check_counter_certify_iff demo_info_parse) (simp_all add: demo_info_def)

lemma length_demo_info:
  "length qd = 32 \<Longrightarrow> length (build_nv_certify_info_for_tests (demo_info k qd c)) = 118"
  by (simp add: build_nv_certify_info_for_tests_def nv_info_bytes_def demo_info_def length_tpm2b_bytes)

lemma length_demo_quote: "length qd = 32 \<Longrightarrow> length (quote_bytes (demo_quote qd)) = 114"
  by (simp add: quote_bytes_def demo_quote_def length_tpm2b_bytes clock_bytes_def banks_of_def bank_bytes_def)

lemma demo_lift_simps [simp]:
  "l_device_id (demo_lift e) = demo_device" "l_operator_key (demo_lift e) = 0x07"
  "l_release (demo_lift None) c = (Ok None, c)"
  "l_release (demo_lift (Some n)) c =
     (Ok (Some (release_bytes \<lparr>r_device_id = demo_device, r_epoch = n\<rparr>, [0x07])), c)"
  by (simp_all add: demo_lift_def)

lemma demo_ctx_simps [simp]:
  "x_lift (demo_ctx e) = demo_lift e" "x_device_id (demo_ctx e) = demo_device"
  "x_pcr_spec (demo_ctx e) = PCR_SPEC" "x_pcr_alg (demo_ctx e) = 0x000B"
  "x_pcr_bitmap (demo_ctx e) = demo_bitmap" "x_policy_digest (demo_ctx e) = replicate 32 0x11"
  "x_stop_index_name (demo_ctx e) = stop_index_name demo_hash"
  by (simp_all add: demo_ctx_def)

lemma length_demo_device [simp]: "length demo_device = 16"
  by (simp add: demo_device_def)

lemma demo_device_valid: "valid_device_id demo_device"
  by (simp add: valid_device_id_def demo_device_def lit_def is_graphic_def)

lemma demo_ctx_ok: "ctx_ok demo_crypto (demo_ctx e)"
  by (simp add: ctx_ok_def)

lemma demo_certifies:
  "length qd = 32 \<Longrightarrow>
   certifies demo_crypto 0x51 (demo_ctx e) qd c (build_nv_certify_info_for_tests (demo_info k qd c)) [0x51]"
  using length_demo_info [of qd k c] demo_check_certify [of qd k c]
  by (auto simp: certifies_def bounded_part_def)

lemma demo_quotes:
  assumes "length qd = 32" "length qd' = 32"
  shows "quotes demo_crypto 0x51 (demo_ctx e) qd' demo_pcrs
    (build_nv_certify_info_for_tests (demo_info k qd c)) (quote_bytes (demo_quote qd')) [0x51]"
proof -
  have "bounded_part ATTEST_MAX (quote_bytes (demo_quote qd'))"
    using length_demo_quote [OF assms(2)] by (auto simp: bounded_part_def)
  then show ?thesis
    using demo_quote_parse [OF assms(2)] demo_info_parse [OF assms(1), of k c]
    by (simp add: quotes_def bounded_part_def)
       (simp add: demo_quote_def demo_info_def same_boot_def quote_clock_def)
qed

lemma demo_works: "works demo_crypto 0x51 (demo_tpm_at k) (demo_ctx e) (\<lambda>c. c) demo_pcrs"
  using demo_certifies demo_quotes unfolding works_def
  by (cases e) simp_all

lemma demo_trusts:
  "trusts demo_crypto 0x51 (demo_ctx e) demo_pcrs nonce (demo_trust (if nonce = [] then None else Some nonce))"
  by (simp add: trusts_def demo_trust_def pad_right_def)

lemma demo_trusts_none: "trusts demo_crypto 0x51 (demo_ctx e) demo_pcrs [] (demo_trust None)"
  using demo_trusts [of e "[]"] by simp

definition demo_nonce :: bytes where
  "demo_nonce = replicate 16 0x5A"

lemma demo_nonce_simps [simp]: "demo_nonce \<noteq> []" "length demo_nonce = 16" "check_nonce demo_nonce = Ok ()"
  by (simp_all add: demo_nonce_def check_nonce_def)

text \<open>An attestation key for the witnesses: \<open>k\<close> is its coordinate and its key.\<close>

definition demo_area :: "byte \<Rightarrow> bytes" where
  "demo_area k = be16 TPM_ALG_ECC @ be16 TPM_ALG_SHA256 @ be32 0x00050072 @ tpm2b_bytes []
     @ be16 TPM_ALG_NULL @ be16 TPM_ALG_ECDSA @ be16 TPM_ALG_SHA256 @ be16 TPM_ECC_NIST_P256
     @ be16 TPM_ALG_NULL @ tpm2b_bytes [k] @ tpm2b_bytes [2]"

definition demo_ecc :: "byte \<Rightarrow> ecc_public" where
  "demo_ecc k = \<lparr>e_tpmt = demo_area k, e_name_alg = TPM_ALG_SHA256, e_attributes = 0x00050072,
     e_auth_policy = [], e_symmetric = TPM_ALG_NULL, e_scheme = TPM_ALG_ECDSA,
     e_scheme_hash = TPM_ALG_SHA256, e_curve = TPM_ECC_NIST_P256, e_kdf = TPM_ALG_NULL,
     e_x = [k], e_y = [2]\<rparr>"

lemma demo_ecc_parse: "ecc_parse_tpm2b (tpm2b_bytes (demo_area k)) = Ok (demo_ecc k)"
proof -
  have "length (demo_area k) < 2 ^ 16" by (simp add: demo_area_def length_tpm2b_bytes)
  then show ?thesis
    unfolding ecc_parse_tpm2b_iff
    by (simp add: tpmt_layout_def demo_ecc_def) (simp add: demo_area_def tpm_consts)
qed

lemma demo_ak_parses: "ak_from_tpm2b_public demo_crypto (tpm2b_bytes (demo_area k)) =
    Ok \<lparr>ak_vk = k, ak_name = be16 TPM_ALG_SHA256 @ sha256 demo_hash (demo_area k)\<rparr>"
proof -
  have "ak_rule (demo_ecc k)"
    by (simp add: ak_rule_def demo_ecc_def tpm_consts)
  then show ?thesis
    unfolding ak_from_tpm2b_iff
    by (intro exI [of _ "demo_ecc k"]) (simp add: demo_ecc_parse, simp add: demo_ecc_def pad_left_def nth_append)
qed

end
