(* ===== verification/StopProps.thy ===== *)
theory StopProps
  imports Demo
begin

text \<open>
  The properties of the stop service and of the check of its receipts: when a tool call is
  let through, what every answer states, what the verifier accepts and what follows from
  that, and the transitions of the counter.
\<close>

section \<open>Shared lemmas\<close>

lemma odd_epoch_iff: "odd_epoch e \<longleftrightarrow> odd (unat e)"
proof -
  have "unat (e mod 2) = unat e mod 2" by (simp add: unat_mod)
  moreover have "e mod 2 = 1 \<longleftrightarrow> unat (e mod 2) = 1" by (metis unat_inject unsigned_1)
  ultimately show ?thesis by (simp add: odd_epoch_def odd_iff_mod_2_eq_one)
qed

lemma gate_works:
  assumes "works C vk T x val pcrs"
  obtains g w' where "gate C (x_lift x) c w = (Inr g, w')" "val w' = val w"
    "odd (unat c) \<Longrightarrow> g = GateStopped"
proof -
  from assms obtain r w1 where r: "l_release (x_lift x) w = (Inr r, w1)" "val w1 = val w"
    unfolding works_def by blast
  show thesis
  proof (cases "odd (unat c)")
    case True
    then show thesis using that [of GateStopped w] by (simp add: gate_odd)
  next
    case False
    then show thesis
      using that r unfolding gate_def
      by (cases r; cases "release_check C (l_operator_key (x_lift x)) (fst (the r)) (snd (the r))
            (l_device_id (x_lift x)) c") auto
  qed
qed

lemma read_works:
  assumes "works C vk T x val pcrs"
  obtains w' where "t_read_counter T w = (Inr (val w), w')" "val w' = val w"
  using assms unfolding works_def by blast

lemma works_count:
  "works C vk T x val pcrs \<Longrightarrow> t_read_counter T w = (Inr c, w') \<Longrightarrow> c = val w \<and> val w' = val w"
  using read_works [of C vk T x val pcrs w] by (metis Inr_inject Pair_inject)

section \<open>Answers\<close>

text \<open>
  C2. A tool call is let through exactly when the counter the chip gives is even and the
  release store holds a record, signed by the operator's key, that is byte for byte the one
  record naming this device and that very counter value. No other input can open the gate.
\<close>

theorem admit_allow:
  "admit C T x d w = (Inr Allow, w') \<longleftrightarrow>
   (\<exists>c w1 rc sig s. t_read_counter T w = (Inr c, w1) \<and> even (unat c)
      \<and> l_release (x_lift x) w1 = (Inr (Some (rc, sig)), w')
      \<and> length sig \<le> 80 \<and> c_sig_from_der C sig = Some s \<and> c_verify C (l_operator_key (x_lift x)) rc s
      \<and> valid_device_id (l_device_id (x_lift x))
      \<and> rc = release_bytes \<lparr>r_device_id = l_device_id (x_lift x), r_epoch = c\<rparr>)"
  unfolding admit_Allow_iff gate_Open_iff release_check_iff by blast

text \<open>
  C6. On a working machine the service answers every question: either it allows the call, or
  it hands out a refusal receipt, and a verifier that trusts the device's key, the build and
  no challenge accepts that receipt as a refusal of exactly this request, in state stopped,
  at the counter value the chip holds. There is no third outcome.
\<close>

theorem admit_answers:
  assumes "works C vk T x val pcrs" "ctx_ok C x" "trusts C vk x pcrs [] t" "length d = 32"
  shows "(\<exists>w'. admit C T x d w = (Inr Allow, w'))
    \<or> (\<exists>receipt w' clk. admit C T x d w = (Inr (Refuse receipt), w')
         \<and> verify_stop_receipt C receipt t = Ok \<lparr>sf_kind = Refusal d, sf_state = Stopped,
             sf_stop_epoch = val w, sf_policy_digest = x_policy_digest x, sf_fresh = False, sf_clock = clk\<rparr>)"
proof -
  obtain w1 where r: "t_read_counter T w = (Inr (val w), w1)" "val w1 = val w"
    by (rule read_works [OF assms(1)])
  obtain g w2 where g: "gate C (x_lift x) (val w) w1 = (Inr g, w2)" "val w2 = val w1"
    using gate_works [OF assms(1), of "val w" w1] by metis
  let ?rcd = "\<lparr>sr_kind = Refusal d, sr_state = Stopped, sr_stop_epoch = val w,
     sr_policy_digest = x_policy_digest x\<rparr>"
  have "record_ok ?rcd []" using assms(2,4) by (simp add: record_ok_def wf_record_def ctx_ok_def)
  moreover have "sr_stop_epoch ?rcd = val w2" using r g by simp
  ultimately obtain receipt w' i where s: "sign C T x ?rcd [] w2 = (Inr receipt, w')"
    "verify_stop_receipt C receipt t = Ok (finding_of t ?rcd i)"
    using sign_verifies [OF assms(1,2) _ _ assms(3)] by blast
  have "st_nonce t = None" using assms(3) by (simp add: trusts_def)
  then have f: "finding_of t ?rcd i = \<lparr>sf_kind = Refusal d, sf_state = Stopped,
      sf_stop_epoch = val w, sf_policy_digest = x_policy_digest x, sf_fresh = False, sf_clock = ni_clock i\<rparr>"
    by (simp add: finding_of_def)
  show ?thesis
  proof (cases "g = Open")
    case True
    then show ?thesis using r(1) g(1) unfolding admit_Allow_iff by blast
  next
    case False
    then have "admit C T x d w = (Inr (Refuse receipt), w')"
      using r(1) g(1) s(1) unfolding admit_Refuse_iff by blast
    then show ?thesis using s(2) unfolding f by blast
  qed
qed

lemma admit_answers_witness:
  "\<exists>receipt w' clk. admit demo_crypto demo_tpm (demo_ctx None) (replicate 32 7) 4 = (Inr (Refuse receipt), w')
     \<and> verify_stop_receipt demo_crypto receipt (demo_trust None) = Ok \<lparr>sf_kind = Refusal (replicate 32 7),
         sf_state = Stopped, sf_stop_epoch = 4, sf_policy_digest = replicate 32 0x11, sf_fresh = False,
         sf_clock = clk\<rparr>"
proof -
  have no: "admit demo_crypto demo_tpm (demo_ctx None) d 4 \<noteq> (Inr Allow, w')" for d w'
    unfolding admit_Allow_iff gate_Open_iff by simp
  show ?thesis
    using admit_answers [OF demo_works [of 1000 None] demo_ctx_ok demo_trusts [of None "[]"],
        of "replicate 32 7" 4] no by simp
qed

text \<open>
  On a working machine \<open>tactiq-stop status\<close> always produces a receipt, with or without a
  challenge, and a verifier with matching trust accepts it: it states the counter of the
  chip, the state the gate gives for that counter, the digest of the policy, and it is
  fresh exactly when a challenge was bound.
\<close>

theorem status_verifies:
  assumes "works C vk T x val pcrs" "ctx_ok C x" "trusts C vk x pcrs nonce t"
    "nonce = [] \<or> check_nonce nonce = Ok ()"
  shows "\<exists>receipt w' w1 w2 g clk. status C T x nonce w = (Inr receipt, w')
    \<and> t_read_counter T w = (Inr (val w), w1) \<and> gate C (x_lift x) (val w) w1 = (Inr g, w2)
    \<and> verify_stop_receipt C receipt t = Ok \<lparr>sf_kind = Status, sf_state = gate_state g,
        sf_stop_epoch = val w, sf_policy_digest = x_policy_digest x, sf_fresh = (nonce \<noteq> []), sf_clock = clk\<rparr>"
proof -
  obtain w1 where r: "t_read_counter T w = (Inr (val w), w1)" "val w1 = val w"
    by (rule read_works [OF assms(1)])
  obtain g w2 where g: "gate C (x_lift x) (val w) w1 = (Inr g, w2)" "val w2 = val w1"
    and odd: "odd (unat (val w)) \<Longrightarrow> g = GateStopped"
    using gate_works [OF assms(1), of "val w" w1] by metis
  let ?rcd = "\<lparr>sr_kind = Status, sr_state = gate_state g, sr_stop_epoch = val w,
     sr_policy_digest = x_policy_digest x\<rparr>"
  have "record_ok ?rcd nonce" using assms(2,4) odd
    by (auto simp: record_ok_def wf_record_def ctx_ok_def is_refusal_def odd_epoch_iff gate_state_def)
  moreover have "sr_stop_epoch ?rcd = val w2" using r g by simp
  ultimately obtain receipt w' i where s: "sign C T x ?rcd nonce w2 = (Inr receipt, w')"
    "verify_stop_receipt C receipt t = Ok (finding_of t ?rcd i)"
    using sign_verifies [OF assms(1,2) _ _ assms(3)] by blast
  have "st_nonce t \<noteq> None \<longleftrightarrow> nonce \<noteq> []" using assms(3) by (simp add: trusts_def)
  then have f: "finding_of t ?rcd i = \<lparr>sf_kind = Status, sf_state = gate_state g,
      sf_stop_epoch = val w, sf_policy_digest = x_policy_digest x, sf_fresh = (nonce \<noteq> []), sf_clock = ni_clock i\<rparr>"
    by (simp add: finding_of_def)
  have "status C T x nonce w = (Inr receipt, w')"
    unfolding status_iff using r(1) g(1) s(1) assms(4) by blast
  then show ?thesis using r(1) g(1) s(2) unfolding f by blast
qed

section \<open>The connection\<close>

lemma utf8_lossy_digits: "list_all is_digit xs \<Longrightarrow> utf8_lossy xs = xs"
  by (rule utf8_lossy_valid [OF utf8_valid_ascii])
     (auto simp: list_all_iff is_digit_def is_ascii_def)

lemma probe_code_respond:
  assumes "code \<in> {200, 400, 403, 503}"
  shows "probe_code (respond code ct body) = dec code"
proof -
  have "12 \<le> length (respond code ct body)" by (simp add: respond_def)
  moreover have "slice 9 12 (respond code ct body) = dec code"
    using assms by (intro respond_code) auto
  ultimately show ?thesis
    by (simp add: probe_code_def utf8_lossy_digits dec_digits)
qed

lemma handle_closed:
  assumes "handle render C T x evs w = Some (out, w')"
  shows "probe_code out \<in> {lit ''200'', lit ''400'', lit ''403'', lit ''503''}
    \<and> (probe_code out = lit ''200'' \<longleftrightarrow>
        (\<exists>req. read_request evs = Some (Ok req)
           \<and> admit C T x (request_digest (c_hash C) (q_method req) (q_path req) (q_body req)) w
               = (Inr Allow, w')))"
proof -
  from assms obtain r an where r: "read_request evs = Some r"
    and an: "handle_request render C T x r w = (an, w')"
    and out: "out = respond (an_code an) (an_ctype an) (an_body an)"
    by (auto simp: handle_def split: option.splits prod.splits)
  note codes = handle_request_codes [OF an]
  have p: "probe_code out = dec (an_code an)"
    unfolding out by (rule probe_code_respond [OF codes])
  have "probe_code out = lit ''200'' \<longleftrightarrow> an_code an = 200"
    unfolding p dec_codes [symmetric] by (rule dec_inj)
  moreover have "probe_code out \<in> {lit ''200'', lit ''400'', lit ''403'', lit ''503''}"
    using codes unfolding p dec_codes [symmetric] by auto
  ultimately show ?thesis
    using handle_request_200 [OF an] r by auto
qed

text \<open>
  C4. Fail closed: whatever bytes a client sends and whatever fails on the way, the response
  carries one of four status codes, and the code 200, as the operator's own probe reads it,
  exactly when a complete request was read and \<open>admit\<close> allowed it. Every error of the chip,
  the store or the parser is a response other than 200.
\<close>

theorem handle_fails_closed:
  assumes "handle render C T x evs w = Some (out, w')"
  shows "probe_code out \<in> {lit ''200'', lit ''400'', lit ''403'', lit ''503''}
    \<and> (probe_code out = lit ''200'' \<longleftrightarrow>
        (\<exists>req. read_request evs = Some (Ok req)
           \<and> admit C T x (request_digest (c_hash C) (q_method req) (q_path req) (q_body req)) w
               = (Inr Allow, w')))"
  by (rule handle_closed [OF assms])

definition demo_events :: "read_event list" where
  "demo_events = [Data (lit ''GET / HTTP/1.1'' @ CRLF2)]"

lemma demo_http_parse:
  "http_parse (lit ''GET / HTTP/1.1'' @ CRLF2) =
     Ok (Some (\<lparr>q_method = lit ''GET'', q_path = lit ''/'', q_body = []\<rparr>, 18))"
proof -
  let ?h = "lit ''GET / HTTP/1.1''"
  have f: "find_window CRLF2 (?h @ CRLF2) = Some 14" by (simp add: lit_def)
  have "utf8_valid ?h" by (rule utf8_valid_ascii) (simp add: lit_def is_ascii_def)
  moreover have "split_crlf ?h = [?h]" by (simp add: lit_def)
  moreover have "request_line ?h = Ok (lit ''GET'', lit ''/'')"
    by (simp add: lit_def request_line_def is_upper_def)
  ultimately have "parse_head ?h = Ok (lit ''GET'', lit ''/'', 0)" by (simp add: parse_head_def)
  moreover have "take 14 (?h @ CRLF2) = ?h" by (simp del: CRLF2_def)
  ultimately show ?thesis
    using f by (simp add: http_parse_def Let_def slice_def del: CRLF2_def) (simp add: CRLF2_def)
qed

lemma demo_read:
  "read_request demo_events = Some (Ok \<lparr>q_method = lit ''GET'', q_path = lit ''/'', q_body = []\<rparr>)"
proof -
  have "http_parse [] = Ok None" by (simp add: http_parse_def)
  then show ?thesis
    using demo_http_parse
    by (simp add: read_request_def demo_events_def read_loop.simps [of "[]"] Let_def
        read_loop.simps [of "lit _ @ _"] del: CRLF2_def) (simp add: CRLF2_def)
qed

lemma demo_admit:
  "admit demo_crypto demo_tpm (demo_ctx (Some 4)) d 4 = (Inr Allow, 4)"
  unfolding admit_Allow_iff gate_Open_iff
  by (simp add: release_check_iff demo_device_valid)

lemma handle_fails_closed_witness:
  "\<exists>out. handle (\<lambda>_. []) demo_crypto demo_tpm (demo_ctx (Some 4)) demo_events 4 = Some (out, 4)
     \<and> probe_code out = lit ''200''"
proof -
  obtain out where "handle (\<lambda>_. []) demo_crypto demo_tpm (demo_ctx (Some 4)) demo_events 4 = Some (out, 4)"
    by (simp add: handle_def handle_request_def demo_read demo_admit)
  with handle_fails_closed [OF this] show ?thesis
    using demo_read demo_admit by auto
qed

text \<open>
  The service never words a refusal differently from what it decided. Without any trust in
  the chip, a receipt that \<open>admit\<close> hands out, read back from its bytes, is a refusal of
  exactly this request digest in state stopped, at the counter value the decision was taken
  on and under the loaded policy, and at that value the gate was not open.
\<close>

theorem refusal_states:
  assumes "admit C T x d w = (Inr (Refuse receipt), w')"
    and "length d = 32" "length (x_policy_digest x) = 32"
  shows "\<exists>c w1. t_read_counter T w = (Inr c, w1) \<and> (\<forall>w2. gate C (x_lift x) c w1 \<noteq> (Inr Open, w2))
    \<and> record_of receipt = Ok \<lparr>sr_kind = Refusal d, sr_state = Stopped, sr_stop_epoch = c,
        sr_policy_digest = x_policy_digest x\<rparr>"
proof -
  from assms(1) obtain c w1 g w2 where r: "t_read_counter T w = (Inr c, w1)"
    and g: "gate C (x_lift x) c w1 = (Inr g, w2)" "g \<noteq> Open"
    and s: "sign C T x \<lparr>sr_kind = Refusal d, sr_state = Stopped, sr_stop_epoch = c,
        sr_policy_digest = x_policy_digest x\<rparr> [] w2 = (Inr receipt, w')"
    unfolding admit_Refuse_iff by blast
  have "record_of receipt = Ok \<lparr>sr_kind = Refusal d, sr_state = Stopped, sr_stop_epoch = c,
        sr_policy_digest = x_policy_digest x\<rparr>"
    using assms(2,3) by (intro sign_record [OF s]) (simp add: wf_record_def)
  with r g show ?thesis by auto
qed

lemma demo_refuses:
  obtains receipt w' where
    "admit demo_crypto demo_tpm (demo_ctx None) (replicate 32 7) 4 = (Inr (Refuse receipt), w')"
proof -
  let ?rcd = "\<lparr>sr_kind = Refusal (replicate 32 7), sr_state = Stopped, sr_stop_epoch = 4,
     sr_policy_digest = replicate 32 0x11\<rparr>"
  have ok: "record_ok ?rcd []" by (simp add: record_ok_def wf_record_def)
  have e: "sr_stop_epoch ?rcd = (\<lambda>c. c) 4" by simp
  obtain receipt w' body a s w1 i where "sign demo_crypto demo_tpm (demo_ctx None) ?rcd [] 4 = (Inr receipt, w')"
    "verify_stop_receipt demo_crypto receipt (demo_trust None) = Ok (finding_of (demo_trust None) ?rcd i)"
    by (rule sign_verifies [OF demo_works [of 1000 None] demo_ctx_ok ok e demo_trusts_none])
  moreover have "\<exists>e. gate demo_crypto (demo_lift None) 4 4 = (Inr (Unreleased e), 4)"
    by (simp add: gate_def)
  ultimately have "admit demo_crypto demo_tpm (demo_ctx None) (replicate 32 7) 4 = (Inr (Refuse receipt), w')"
    unfolding admit_Refuse_iff by (auto simp: demo_ctx_simps)
  then show thesis by (rule that)
qed

section \<open>Transitions\<close>

text \<open>
  A chip whose counter nobody else moves: \<open>TPM2_NV_Read\<close> gives the value and keeps it,
  \<open>TPM2_NV_Increment\<close> adds one. The admin lock is there to make this so between operator
  commands.
\<close>

definition quiet :: "'w stop_tpm \<Rightarrow> ('w \<Rightarrow> u64) \<Rightarrow> bool" where
  "quiet T val \<longleftrightarrow>
     (\<forall>w. \<exists>w'. t_read_counter T w = (Inr (val w), w') \<and> val w' = val w)
     \<and> (\<forall>w. \<exists>w'. t_increment T w = (Inr (), w') \<and> val w' = val w + 1)"

definition store_keeps :: "'w release_store \<Rightarrow> ('w \<Rightarrow> u64) \<Rightarrow> bool" where
  "store_keeps rel val \<longleftrightarrow> (\<forall>w r w'. rel w = (r, w') \<longrightarrow> val w' = val w)"

lemma quiet_read: "quiet T val \<Longrightarrow> \<exists>w'. t_read_counter T w = (Inr (val w), w') \<and> val w' = val w"
  by (simp add: quiet_def)

lemma quiet_inc: "quiet T val \<Longrightarrow> \<exists>w'. t_increment T w = (Inr (), w') \<and> val w' = val w + 1"
  by (simp add: quiet_def)

lemma quiet_read_val: "quiet T val \<Longrightarrow> t_read_counter T w = (Inr c, w') \<Longrightarrow> c = val w \<and> val w' = val w"
  using quiet_read [of T val w] by auto

lemma move_to_quiet:
  assumes "quiet T val"
  shows "\<exists>w'. move_to T want w = (Inr (if state_of (val w) = want then AlreadyThere (val w)
        else Changed (val w) (val w + 1)), w')
     \<and> val w' = (if state_of (val w) = want then val w else val w + 1)"
proof -
  obtain w1 where r: "t_read_counter T w = (Inr (val w), w1)" "val w1 = val w"
    using quiet_read [OF assms] by blast
  obtain w2 where i: "t_increment T w1 = (Inr (), w2)" "val w2 = val w1 + 1"
    using quiet_inc [OF assms] by blast
  obtain w3 where r3: "t_read_counter T w2 = (Inr (val w2), w3)" "val w3 = val w2"
    using quiet_read [OF assms] by blast
  show ?thesis
  proof (cases "state_of (val w) = want")
    case True
    then show ?thesis using r by (intro exI [of _ w1]) (simp add: move_to_Ok_iff)
  next
    case False
    then show ?thesis using r i r3 by (intro exI [of _ w3]) (simp add: move_to_Ok_iff)
  qed
qed

lemma state_of_flip: "state_of c \<noteq> want \<Longrightarrow> state_of (c + 1) = want"
  using state_of_next [of c] by (cases "state_of c"; cases want; cases "state_of (c + 1)") simp_all

text \<open>
  C15. \<open>trip\<close> needs nothing but the chip: on a chip nobody else moves it always succeeds, with at
  most one increment; afterwards the counter is odd, repeating it changes nothing, and no
  request whatsoever is allowed, whatever release is on the device.
\<close>

theorem trip_stops:
  assumes "quiet T val"
  shows "\<exists>t w'. trip T w = (Inr t, w') \<and> odd (unat (val w'))
    \<and> val w' = (if odd (unat (val w)) then val w else val w + 1)
    \<and> (\<exists>w''. trip T w' = (Inr (AlreadyThere (val w')), w'') \<and> val w'' = val w')
    \<and> (\<forall>x d w''. admit C T x d w' \<noteq> (Inr Allow, w''))"
proof -
  obtain t w' where t: "trip T w = (Inr t, w')"
    and v: "val w' = (if state_of (val w) = Stopped then val w else val w + 1)"
    using move_to_quiet [OF assms, of Stopped w] unfolding trip_def by blast
  have s: "state_of (val w') = Stopped"
    using v state_of_flip [of "val w" Stopped] by (cases "state_of (val w) = Stopped") simp_all
  have again: "\<exists>w''. trip T w' = (Inr (AlreadyThere (val w')), w'') \<and> val w'' = val w'"
    using move_to_quiet [OF assms, of Stopped w'] s unfolding trip_def by simp
  have "admit C T x d w' \<noteq> (Inr Allow, w'')" for x d w''
    unfolding admit_Allow_iff gate_Open_iff
    using quiet_read_val [OF assms, of w'] s by auto
  with t v s again show ?thesis by (auto intro!: exI [of _ t] exI [of _ w'])
qed

lemma demo_quiet: "quiet (demo_tpm_at k) (\<lambda>c. c)"
  by (simp add: quiet_def)

lemma trip_stops_witness: "\<exists>t w'. trip demo_tpm 4 = (Inr t, w') \<and> w' = 5"
  using trip_stops [OF demo_quiet [of 1000], of 4 demo_crypto] by auto

text \<open>
  C16. \<open>recover\<close> is the only way up, and it takes a release: on a chip nobody else moves it
  succeeds exactly when the gate is open for the value the counter would have, then the
  counter is at that even value; when it fails the counter has not moved and the error
  reports it.
\<close>

theorem recover_exact:
  assumes "quiet T val" "store_keeps (l_release lift) val"
    and "recover C T lift w = (r, w')"
    and "target = (if even (unat (val w)) then val w else val w + 1)"
  shows "(case r of
       Inr t \<Rightarrow> val w' = target \<and> even (unat target)
         \<and> (\<exists>w1 w2. t_read_counter T w = (Inr (val w), w1) \<and> gate C lift target w1 = (Inr Open, w2))
         \<and> t = (if even (unat (val w)) then AlreadyThere (val w) else Changed (val w) target)
     | Inl e \<Rightarrow> val w' = val w \<and> te_now e = Some (val w)
         \<and> (\<forall>w1 w2. t_read_counter T w = (Inr (val w), w1) \<longrightarrow> gate C lift target w1 \<noteq> (Inr Open, w2)))"
proof -
  obtain w1 where rd: "t_read_counter T w = (Inr (val w), w1)" "val w1 = val w"
    using quiet_read [OF assms(1)] by blast
  obtain gr w2 where g: "gate C lift target w1 = (gr, w2)" by (cases "gate C lift target w1")
  have keep: "val w2 = val w1"
  proof (cases "l_release lift w1")
    case (Pair a b)
    then have "val b = val w1" using assms(2) unfolding store_keeps_def by blast
    then show ?thesis
      using g Pair by (auto simp: gate_def sbind_def split: if_splits sum.splits option.splits)
  qed
  have even_target: "even (unat target)"
    using even_unat_add_1 [of "val w"] by (simp add: assms(4))
  show ?thesis
  proof (cases "gr = Inr Open")
    case True
    show ?thesis
    proof (cases "even (unat (val w))")
      case evn: True
      then have "recover C T lift w = (Inr (AlreadyThere (val w)), w2)"
        using rd g True by (simp add: recover_Ok_iff assms(4))
      then show ?thesis using assms(3,4) rd g True keep evn by auto
    next
      case odd: False
      obtain w3 where m: "move_to T Running w2 = (Inr (Changed (val w) (val w + 1)), w3)"
          "val w3 = val w + 1"
        using move_to_quiet [OF assms(1), of Running w2] odd keep rd by auto
      then have "recover C T lift w = (Inr (Changed (val w) (val w + 1)), w3)"
        using rd g True odd by (auto simp: recover_Ok_iff assms(4))
      then show ?thesis using assms(3,4) rd g True odd m even_target by auto
    qed
  next
    case False
    then have "\<exists>e. r = Inl e \<and> te_now e = Some (val w) \<and> w' = w2"
      using assms(3,4) rd g
      unfolding recover_def sbind_def stry_def read_or_fail_def smap_err_def map_err_def Let_def
      by (auto split: sum.splits gate_answer.splits)
    then show ?thesis using rd g keep False by auto
  qed
qed

lemma recover_exact_witness:
  "\<exists>t. recover demo_crypto demo_tpm (demo_lift (Some 6)) 5 = (Inr t, 6) \<and> t = Changed 5 6"
proof -
  have k: "store_keeps (l_release (demo_lift (Some 6))) (\<lambda>c. c)"
    by (simp add: store_keeps_def)
  have "gate demo_crypto (demo_lift (Some 6)) 6 5 = (Inr Open, 5)"
    by (simp add: gate_Open_iff release_check_iff demo_device_valid)
  moreover obtain r w' where r: "recover demo_crypto demo_tpm (demo_lift (Some 6)) 5 = (r, w')"
    by (cases "recover demo_crypto demo_tpm (demo_lift (Some 6)) 5")
  ultimately show ?thesis
    using recover_exact [OF demo_quiet [of 1000] k r refl] by (auto split: sum.splits)
qed

end
