(* ===== verification/StopSystem.thy ===== *)
theory StopSystem
  imports StopProps
begin

text \<open>
  The stop as a system: the counter of the chip, the release files and what the operator has
  signed, with the commands of the service and everything an attacker on the device can do
  as one step relation. The attacker may increment the counter, delete and define it again
  (the chip starts a new counter above every old one), and put any file in the store, as
  long as it cannot forge the operator's signature. Operator commands are steps of the
  relation as the code runs them; an interleaving of their chip calls with other steps is a
  sequence of single increments, which are steps too.
\<close>

section \<open>The system\<close>

record stop_sys =
  counter :: u64
  store :: "(bytes \<times> bytes) option"
  signed_records :: "bytes set"

text \<open>The calls of the chip that change nothing, as functions of the counter.\<close>

record chip_reads =
  cr_certify :: "bytes \<Rightarrow> u64 \<Rightarrow> err + (bytes \<times> bytes)"
  cr_pcrs :: "bytes \<Rightarrow> err + bytes"
  cr_quote :: "bytes \<Rightarrow> bytes \<Rightarrow> err + (bytes \<times> bytes)"

text \<open>A counter at its last value refuses to be incremented.\<close>

definition sys_tpm :: "chip_reads \<Rightarrow> stop_sys stop_tpm" where
  "sys_tpm chip =
     \<lparr>t_read_counter = (\<lambda>s. (Ok (counter s), s)),
      t_increment = (\<lambda>s. if counter s = - 1 then (Err (Msg ''NV counter at its maximum'' []), s)
                         else (Ok (), s\<lparr>counter := counter s + 1\<rparr>)),
      t_certify = (\<lambda>qd s. (cr_certify chip qd (counter s), s)),
      t_pcr_read = (\<lambda>spec s. (cr_pcrs chip spec, s)),
      t_quote = (\<lambda>qd spec s. (cr_quote chip qd spec, s))\<rparr>"

definition sys_lift :: "bytes \<Rightarrow> 'k \<Rightarrow> (stop_sys, 'k) lift" where
  "sys_lift dev key =
     \<lparr>l_device_id = dev, l_operator_key = key, l_release = (\<lambda>s. (Ok (store s), s))\<rparr>"

lemma sys_simps [simp]:
  "t_read_counter (sys_tpm chip) s = (Ok (counter s), s)"
  "t_increment (sys_tpm chip) s =
     (if counter s = - 1 then (Err (Msg ''NV counter at its maximum'' []), s)
      else (Ok (), s\<lparr>counter := counter s + 1\<rparr>))"
  "l_device_id (sys_lift dev key) = dev" "l_operator_key (sys_lift dev key) = key"
  "l_release (sys_lift dev key) s = (Ok (store s), s)"
  by (simp_all add: sys_tpm_def sys_lift_def)

definition release_verifies :: "('k, 's) crypto \<Rightarrow> 'k \<Rightarrow> bytes \<Rightarrow> bytes \<Rightarrow> bool" where
  "release_verifies C key rc sig \<longleftrightarrow>
     (case c_sig_from_der C sig of None \<Rightarrow> False | Some s \<Rightarrow> c_verify C key rc s)"

text \<open>Everything in the store that verifies was signed by the operator.\<close>

definition genuine :: "('k, 's) crypto \<Rightarrow> 'k \<Rightarrow> bytes set \<Rightarrow> (bytes \<times> bytes) option \<Rightarrow> bool" where
  "genuine C key S f \<longleftrightarrow>
     (case f of None \<Rightarrow> True | Some (rc, sig) \<Rightarrow> release_verifies C key rc sig \<longrightarrow> rc \<in> S)"

inductive sys_step :: "('k, 's) crypto \<Rightarrow> 'k \<Rightarrow> bytes \<Rightarrow> chip_reads \<Rightarrow> stop_sys \<Rightarrow> stop_sys \<Rightarrow> bool"
  for C key dev chip where
  operator_signs: "sys_step C key dev chip s (s\<lparr>signed_records := insert rc (signed_records s)\<rparr>)"
| files_change: "genuine C key (signed_records s) f \<Longrightarrow> sys_step C key dev chip s (s\<lparr>store := f\<rparr>)"
| counter_redefined: "unat (counter s) < unat c \<Longrightarrow> sys_step C key dev chip s (s\<lparr>counter := c\<rparr>)"
| incremented: "t_increment (sys_tpm chip) s = (r, s') \<Longrightarrow> sys_step C key dev chip s s'"
| tripped: "trip (sys_tpm chip) s = (t, s') \<Longrightarrow> sys_step C key dev chip s s'"
| recovered: "recover C (sys_tpm chip) (sys_lift dev key) s = (t, s') \<Longrightarrow> sys_step C key dev chip s s'"
| asked: "admit C (sys_tpm chip) x d s = (a, s') \<Longrightarrow> x_lift x = sys_lift dev key \<Longrightarrow>
    sys_step C key dev chip s s'"

inductive sys_reach :: "('k, 's) crypto \<Rightarrow> 'k \<Rightarrow> bytes \<Rightarrow> chip_reads \<Rightarrow> stop_sys \<Rightarrow> bool"
  for C key dev chip where
  start: "genuine C key S f \<Longrightarrow>
    sys_reach C key dev chip \<lparr>counter = c, store = f, signed_records = S\<rparr>"
| more: "sys_reach C key dev chip s \<Longrightarrow> sys_step C key dev chip s s' \<Longrightarrow> sys_reach C key dev chip s'"

inductive_cases sys_stepE: "sys_step C key dev chip s s'"

abbreviation sys_steps where
  "sys_steps C key dev chip \<equiv> rtranclp (sys_step C key dev chip)"

section \<open>What a step can change\<close>

lemma unat_next: "c \<noteq> (- 1 :: u64) \<Longrightarrow> unat (c + 1) = unat c + 1"
proof -
  assume "c \<noteq> - 1"
  moreover have "unat (- 1 :: u64) = 2 ^ 64 - 1"
    by (simp add: unsigned_minus_1_eq_mask mask_eq_exp_minus_1)
  ultimately have "unat c \<noteq> 2 ^ 64 - 1" by (metis unat_inject)
  then have "unat c + 1 < 2 ^ 64" using unat_bound [of c] by simp
  then show ?thesis by (simp add: unat_word_ariths)
qed

text \<open>A command of the service leaves the store alone and moves the counter up, if at all.\<close>

definition only_up :: "stop_sys \<Rightarrow> stop_sys \<Rightarrow> bool" where
  "only_up s s' \<longleftrightarrow> store s' = store s \<and> signed_records s' = signed_records s
     \<and> unat (counter s) \<le> unat (counter s')"

lemma only_up_refl [simp]: "only_up s s" by (simp add: only_up_def)

lemma only_up_inc: "t_increment (sys_tpm chip) s = (r, s') \<Longrightarrow> only_up s s'"
  by (auto simp: only_up_def unat_next split: if_splits)

lemma gate_keeps: "gate C (sys_lift dev key) c s = (g, s') \<Longrightarrow> s' = s"
  by (auto simp: gate_def sbind_def split: if_splits option.splits prod.splits sum.splits)

lemma move_to_up: "move_to (sys_tpm chip) want s = (t, s') \<Longrightarrow> only_up s s'"
  unfolding move_to_def read_or_fail_def sbind_def smap_err_def map_err_def stry_def transition_fail_def
  by (auto simp: only_up_def unat_next split: if_splits sum.splits prod.splits)

lemma recover_up:
  assumes "recover C (sys_tpm chip) (sys_lift dev key) s = (t, s')"
  shows "only_up s s'"
proof -
  obtain g s1 where g: "gate C (sys_lift dev key)
      (if state_of (counter s) = Running then counter s else counter s + 1) s = (g, s1)"
    by (cases "gate C (sys_lift dev key)
      (if state_of (counter s) = Running then counter s else counter s + 1) s")
  then have "s1 = s" by (rule gate_keeps)
  with g assms show ?thesis
    unfolding recover_def read_or_fail_def sbind_def smap_err_def map_err_def stry_def Let_def
    by (auto split: sum.splits gate_answer.splits if_splits intro: move_to_up)
qed

lemma sign_keeps: "sign C (sys_tpm chip) x rcd nonce s = (r, s') \<Longrightarrow> s' = s"
  unfolding sign_def sys_tpm_def Let_def sbind_def
  by (auto split: sum.splits prod.splits if_splits)

lemma admit_keeps:
  assumes "admit C (sys_tpm chip) x d s = (a, s')" "x_lift x = sys_lift dev key"
  shows "s' = s"
proof -
  obtain g s1 where g: "gate C (sys_lift dev key) (counter s) s = (g, s1)"
    by (cases "gate C (sys_lift dev key) (counter s) s")
  then have "s1 = s" by (rule gate_keeps)
  with g assms sign_keeps show ?thesis
    unfolding admit_def sbind_def
    by (fastforce split: sum.splits prod.splits if_splits)
qed

lemma step_counter_up: "sys_step C key dev chip s s' \<Longrightarrow> unat (counter s) \<le> unat (counter s')"
  by (erule sys_stepE)
     (auto simp: only_up_def trip_def unat_next dest: move_to_up recover_up admit_keeps split: if_splits)

lemma step_signed_up: "sys_step C key dev chip s s' \<Longrightarrow> signed_records s \<subseteq> signed_records s'"
  by (erule sys_stepE)
     (auto simp: only_up_def trip_def dest!: move_to_up recover_up admit_keeps split: if_splits)

lemma step_genuine:
  assumes "sys_step C key dev chip s s'" "genuine C key (signed_records s) (store s)"
  shows "genuine C key (signed_records s') (store s')"
  using assms
  by (elim sys_stepE)
     (auto simp: only_up_def trip_def genuine_def dest!: move_to_up recover_up admit_keeps split: if_splits option.splits)

lemma steps_counter_up: "sys_steps C key dev chip s s' \<Longrightarrow> unat (counter s) \<le> unat (counter s')"
  by (induction rule: rtranclp_induct) (auto dest: step_counter_up)

lemma reach_genuine: "sys_reach C key dev chip s \<Longrightarrow> genuine C key (signed_records s) (store s)"
  by (induction rule: sys_reach.induct) (auto dest: step_genuine)

lemma reach_steps: "sys_steps C key dev chip s s' \<Longrightarrow> sys_reach C key dev chip s \<Longrightarrow> sys_reach C key dev chip s'"
  by (induction rule: rtranclp_induct) (auto intro: sys_reach.more)

lemma gate_open_signed:
  assumes "sys_reach C key dev chip s" "gate C (sys_lift dev key) c s = (Inr Open, s')"
  shows "even (unat c) \<and> release_bytes \<lparr>r_device_id = dev, r_epoch = c\<rparr> \<in> signed_records s"
  using assms(2) reach_genuine [OF assms(1)]
  by (auto simp: gate_Open_iff release_check_iff genuine_def release_verifies_def)

section \<open>Properties\<close>

text \<open>
  C1. A stop holds. Once the counter is odd, then whatever happens on the device afterwards
  (any number of increments, redefinitions of the counter, replaced files, operator
  commands), no question is answered with Allow, unless the operator signs a release for
  this device that names a value above the stopped one. The answer may read the counter
  and the files at different moments. In particular every release signed before the stop
  is spent.
\<close>

theorem stop_holds:
  assumes "sys_reach C key dev chip s" "odd (unat (counter s))"
    and "sys_steps C key dev chip s s1" "sys_steps C key dev chip s1 s2"
    and "\<And>e. release_bytes \<lparr>r_device_id = dev, r_epoch = e\<rparr> \<in> signed_records s2 \<Longrightarrow>
           unat e \<le> unat (counter s)"
  shows "gate C (sys_lift dev key) (counter s1) s2 \<noteq> (Inr Open, s3)"
proof
  assume g: "gate C (sys_lift dev key) (counter s1) s2 = (Inr Open, s3)"
  have "sys_reach C key dev chip s2"
    by (rule reach_steps [OF assms(4) reach_steps [OF assms(3,1)]])
  note o = gate_open_signed [OF this g]
  then have "unat (counter s1) \<le> unat (counter s)" using assms(5) by blast
  moreover have "unat (counter s) \<le> unat (counter s1)" by (rule steps_counter_up [OF assms(3)])
  ultimately show False using o assms(2) by simp
qed

definition demo_reads :: chip_reads where
  "demo_reads = \<lparr>cr_certify = (\<lambda>_ _. Err (Msg ''not used'' [])), cr_pcrs = (\<lambda>_. Err (Msg ''not used'' [])),
     cr_quote = (\<lambda>_ _. Err (Msg ''not used'' []))\<rparr>"

text \<open>The run of the witnesses: released at 4, stopped, and incremented by an attacker.\<close>

definition demo_sys :: "u64 \<Rightarrow> stop_sys" where
  "demo_sys c = \<lparr>counter = c,
     store = Some (release_bytes \<lparr>r_device_id = demo_device, r_epoch = 4\<rparr>, [0x07]),
     signed_records = {release_bytes \<lparr>r_device_id = demo_device, r_epoch = 4\<rparr>}\<rparr>"

lemma demo_sys_reach: "sys_reach demo_crypto 0x07 demo_device demo_reads (demo_sys c)"
  unfolding demo_sys_def by (rule sys_reach.start) (simp add: genuine_def)

lemma demo_sys_inc: "c \<noteq> - 1 \<Longrightarrow> sys_step demo_crypto 0x07 demo_device demo_reads (demo_sys c) (demo_sys (c + 1))"
  by (rule sys_step.incremented) (simp add: demo_sys_def)

lemma demo_signed_epoch:
  assumes "release_bytes \<lparr>r_device_id = demo_device, r_epoch = e\<rparr>
     = release_bytes \<lparr>r_device_id = demo_device, r_epoch = 4\<rparr>"
  shows "e = 4"
proof -
  have "dec (unat e) = dec (unat (4 :: u64))"
    using assms by (simp add: release_bytes_def)
  then show ?thesis by (simp only: dec_inj unat_inject)
qed

lemma stop_holds_witness:
  "\<forall>s3. gate demo_crypto (sys_lift demo_device 0x07) (counter (demo_sys 6)) (demo_sys 6) \<noteq> (Inr Open, s3)"
proof (rule allI, rule stop_holds [OF demo_sys_reach [of 5]])
  show "odd (unat (counter (demo_sys 5)))" by (simp add: demo_sys_def)
  show "sys_steps demo_crypto 0x07 demo_device demo_reads (demo_sys 5) (demo_sys 6)"
    using demo_sys_inc [of 5] by auto
  show "sys_steps demo_crypto 0x07 demo_device demo_reads (demo_sys 6) (demo_sys 6)" by simp
  show "unat e \<le> unat (counter (demo_sys 5))"
    if "release_bytes \<lparr>r_device_id = demo_device, r_epoch = e\<rparr> \<in> signed_records (demo_sys 6)" for e
  proof -
    have "e = 4" using that by (auto simp: demo_sys_def dest: demo_signed_epoch)
    then show ?thesis by (simp add: demo_sys_def)
  qed
qed

text \<open>
  C3. Only the operator lets calls through: in every reachable state in which the service
  answers Allow, the counter is even and the operator has signed the release for exactly
  this device and this counter value; and once the counter has moved on from that value,
  no later state has it again, so the release cannot be used a second time.
\<close>

theorem allow_means_operator:
  assumes "sys_reach C key dev chip s" "x_lift x = sys_lift dev key"
    and "admit C (sys_tpm chip) x d s = (Inr Allow, s')"
  shows "even (unat (counter s))
    \<and> release_bytes \<lparr>r_device_id = dev, r_epoch = counter s\<rparr> \<in> signed_records s
    \<and> (\<forall>s1 s2. sys_steps C key dev chip s s1 \<and> counter s1 \<noteq> counter s \<and> sys_steps C key dev chip s1 s2
         \<longrightarrow> counter s2 \<noteq> counter s)"
proof -
  have g: "gate C (sys_lift dev key) (counter s) s = (Inr Open, s')"
    using assms(2,3) by (auto simp: admit_Allow_iff)
  have "counter s2 \<noteq> counter s"
    if "sys_steps C key dev chip s s1" "counter s1 \<noteq> counter s" "sys_steps C key dev chip s1 s2" for s1 s2
    using steps_counter_up [OF that(1)] steps_counter_up [OF that(3)] that(2)
    by (metis le_antisym unat_inject)
  with gate_open_signed [OF assms(1) g] show ?thesis by blast
qed

definition demo_sys_ctx :: "(stop_sys, byte) stop_ctx" where
  "demo_sys_ctx = \<lparr>x_lift = sys_lift demo_device 0x07, x_device_id = demo_device, x_pcr_spec = PCR_SPEC,
     x_pcr_alg = 0x000B, x_pcr_bitmap = demo_bitmap, x_policy_digest = replicate 32 0x11,
     x_stop_index_name = stop_index_name demo_hash\<rparr>"

lemma allow_means_operator_witness:
  "admit demo_crypto (sys_tpm demo_reads) demo_sys_ctx [] (demo_sys 4) = (Inr Allow, demo_sys 4)
   \<and> release_bytes \<lparr>r_device_id = demo_device, r_epoch = 4\<rparr> \<in> signed_records (demo_sys 4)"
proof -
  have c: "counter (demo_sys 4) = 4" by (simp add: demo_sys_def)
  have a: "admit demo_crypto (sys_tpm demo_reads) demo_sys_ctx [] (demo_sys 4) = (Inr Allow, demo_sys 4)"
    by (simp add: admit_Allow_iff gate_Open_iff release_check_iff demo_device_valid demo_sys_ctx_def demo_sys_def)
  show ?thesis
    using allow_means_operator [OF demo_sys_reach _ a] a unfolding c by (simp add: demo_sys_ctx_def)
qed

end
