(* ===== verification/VerifyProps.thy ===== *)
theory VerifyProps
  imports StopProps
begin

text \<open>
  The properties of the check of stop receipts and of the authentication of envelopes that
  rest on more than one component: what acceptance establishes, that the digests keep
  records, challenges and protocols apart (or show a collision of the hash), and what two
  receipts prove about the time between them.
\<close>

section \<open>Shared lemmas\<close>

lemma concat_opt_list_inj:
  assumes "\<forall>n. a = Some n \<longrightarrow> n \<noteq> []" "\<forall>n. b = Some n \<longrightarrow> n \<noteq> []"
    and "concat (opt_list a) = concat (opt_list b)"
  shows "a = b"
  using assms by (cases a; cases b) auto

lemma record_states_facts:
  assumes "record_states C t r msg q body rcd c i"
  shows "record_parse body = Ok rcd" "parse_nv_certify_info (nc_attest c) = Ok i"
    "ni_extra_data i = certify_qualifying (c_hash C) body (concat (opt_list (st_nonce t)))"
    "\<forall>n. st_nonce t = Some n \<longrightarrow> n \<noteq> []" "ni_contents i = be64 (sr_stop_epoch rcd)"
    "sr_stop_epoch rcd = m_counter msg"
  using assms check_nonce_nonempty unfolding record_states_def by blast+

lemma demo_receipt:
  assumes "n = [] \<or> check_nonce n = Ok ()"
  shows "\<exists>receipt. verify_stop_receipt demo_crypto receipt (demo_trust (if n = [] then None else Some n)) =
    Ok \<lparr>sf_kind = Status, sf_state = Stopped, sf_stop_epoch = 5, sf_policy_digest = replicate 32 0x11,
        sf_fresh = (n \<noteq> []), sf_clock = \<lparr>tc_clock = k, tc_reset_count = 1, tc_restart_count = 0, tc_safe = True\<rparr>\<rparr>"
proof -
  let ?rcd = "\<lparr>sr_kind = Status, sr_state = Stopped, sr_stop_epoch = 5, sr_policy_digest = replicate 32 0x11\<rparr>"
  have ok: "record_ok ?rcd n" using assms by (auto simp: record_ok_def wf_record_def is_refusal_def)
  have e: "sr_stop_epoch ?rcd = (\<lambda>c. c) 5" by simp
  obtain receipt w' body a s w1 i where
    "sign demo_crypto (demo_tpm_at k) (demo_ctx None) ?rcd n 5 = (Inr receipt, w')"
    and v: "verify_stop_receipt demo_crypto receipt (demo_trust (if n = [] then None else Some n))
        = Ok (finding_of (demo_trust (if n = [] then None else Some n)) ?rcd i)"
    and a: "t_certify (demo_tpm_at k) (certify_qualifying (c_hash demo_crypto) body n) 5 = (Inr (a, s), w1)"
      "parse_nv_certify_info a = Ok i"
    by (rule sign_verifies [OF demo_works [of k None] demo_ctx_ok ok e demo_trusts])
  have "i = demo_info k (certify_qualifying demo_hash body n) 5"
    using a demo_info_parse [of "certify_qualifying demo_hash body n" k 5] by auto
  then have "ni_clock i = \<lparr>tc_clock = k, tc_reset_count = 1, tc_restart_count = 0, tc_safe = True\<rparr>"
    by (simp add: demo_info_def)
  with v show ?thesis by (intro exI [of _ receipt]) (simp add: finding_of_def demo_trust_def)
qed

lemma demo_accepted: "\<exists>receipt f. verify_stop_receipt demo_crypto receipt (demo_trust None) = Ok f"
  using demo_receipt [of "[]" 1000] by auto

section \<open>Stop receipts\<close>

text \<open>
  C5. The check of a stop receipt accepts exactly the receipts that carry what
  \<open>quote_states\<close> and \<open>record_states\<close> say, and reports exactly their record: a quote under
  the trusted key bound to this message in the stop domain, over the trusted PCRs and
  build, of this device, with the bundle it signs; in the bundle one stop record, one
  certify under the same key of the stop index and of the epoch of the record, and the
  challenge if and only if one was given; both in one boot of the chip.
\<close>

theorem receipt_check_exact:
  "verify_stop_receipt C receipt t = Ok f \<longleftrightarrow>
   (\<exists>r msg q body rcd c i. receipt_parse receipt = Ok r \<and> quote_states C t r msg q
      \<and> record_states C t r msg q body rcd c i \<and> f = finding_of t rcd i)"
  by (rule verify_stop_receipt_iff)

text \<open>
  Every finding is consistent: a receipt accepted at an odd counter says stopped and its
  basis is the counter; a refusal says stopped; a finding reported as fresh is a status
  answer to the challenge given; running is reported for even counters only.
\<close>

theorem finding_consistent:
  assumes "verify_stop_receipt C receipt t = Ok f"
  shows "(basis f = CounterBasis \<longleftrightarrow> odd (unat (sf_stop_epoch f)))
    \<and> (basis f = RunningBasis \<longleftrightarrow> sf_state f = Running)
    \<and> (is_refusal (sf_kind f) \<longrightarrow> sf_state f = Stopped \<and> \<not> sf_fresh f)
    \<and> (sf_fresh f \<longleftrightarrow> st_nonce t \<noteq> None)"
proof -
  from assms obtain r msg q body rcd c i where R: "record_states C t r msg q body rcd c i"
    and f: "f = finding_of t rcd i"
    unfolding verify_stop_receipt_iff by blast
  have stopped: "is_refusal (sr_kind rcd) \<Longrightarrow> sr_state rcd = Stopped"
    using record_states_facts(1) [OF R] record_encode_ok_iff [of rcd] by (auto simp: record_parse_iff)
  have odd: "odd_epoch (sr_stop_epoch rcd) \<longrightarrow> sr_state rcd = Stopped"
    and status: "\<forall>n. st_nonce t = Some n \<longrightarrow> sr_kind rcd = Status"
    using R unfolding record_states_def by blast+
  show ?thesis
    using odd status stopped
    by (cases "sr_state rcd"; cases "st_nonce t")
       (auto simp: f finding_of_def basis_def odd_epoch_iff is_refusal_def)
qed

text \<open>
  C12. A certify is good for one record and one challenge: if two accepted receipts, of any
  devices and for any challenges, carry the same signed certify structure, they carry the
  same stop record and answer the same challenge, or the two messages of certify domain, stop
  record and challenge that the two checks hash are different and have the same digest. The
  boundary between record and challenge cannot be shifted.
\<close>

theorem certify_binds:
  assumes "record_states C t r msg q body rcd c i" "record_states C t' r' msg' q' body' rcd' c' i'"
    and "nc_attest c = nc_attest c'"
  shows "(body = body' \<and> rcd = rcd' \<and> st_nonce t = st_nonce t')
    \<or> collision (c_hash C)
        (lit ''tactiq-stop/certify/v1'' @ [0] @ body @ (case st_nonce t of None \<Rightarrow> [] | Some n \<Rightarrow> n))
        (lit ''tactiq-stop/certify/v1'' @ [0] @ body' @ (case st_nonce t' of None \<Rightarrow> [] | Some n \<Rightarrow> n))"
proof -
  let ?n = "concat (opt_list (st_nonce t))" and ?n' = "concat (opt_list (st_nonce t'))"
  note f = record_states_facts [OF assms(1)] and f' = record_states_facts [OF assms(2)]
  have "i = i'" using f(2) f'(2) assms(3) by simp
  then have "certify_qualifying (c_hash C) body ?n = certify_qualifying (c_hash C) body' ?n'"
    using f(3) f'(3) by simp
  then have "lit ''tactiq-stop/certify/v1'' @ [0] @ body @ ?n = lit ''tactiq-stop/certify/v1'' @ [0] @ body' @ ?n'
      \<or> collision (c_hash C) (lit ''tactiq-stop/certify/v1'' @ [0] @ body @ ?n)
          (lit ''tactiq-stop/certify/v1'' @ [0] @ body' @ ?n')"
    unfolding certify_qualifying_def by (rule sha256_eq_or_collision)
  then consider (col) "collision (c_hash C) (lit ''tactiq-stop/certify/v1'' @ [0] @ body @ ?n)
          (lit ''tactiq-stop/certify/v1'' @ [0] @ body' @ ?n')" | (same) "body @ ?n = body' @ ?n'"
    by auto
  then show ?thesis
  proof cases
    case same
    then have "body = body'" "?n = ?n'" using record_nonce_inj [OF f(1) f'(1)] by blast+
    moreover have "st_nonce t = st_nonce t'" by (rule concat_opt_list_inj [OF f(4) f'(4) \<open>?n = ?n'\<close>])
    moreover have "rcd = rcd'" using \<open>body = body'\<close> f(1) f'(1) by simp
    ultimately show ?thesis by blast
  next
    case col
    moreover have "concat (opt_list n) = (case n of None \<Rightarrow> [] | Some n \<Rightarrow> n)" for n :: "bytes option"
      by (cases n) (simp_all add: opt_list_def)
    ultimately show ?thesis by simp
  qed
qed

lemma certify_binds_witness:
  "\<exists>r msg q body rcd c i. record_states demo_crypto (demo_trust None) r msg q body rcd c i
     \<and> ((body = body \<and> rcd = rcd \<and> st_nonce (demo_trust None) = st_nonce (demo_trust None))
        \<or> collision (c_hash demo_crypto) (lit ''tactiq-stop/certify/v1'' @ [0] @ body @ [])
             (lit ''tactiq-stop/certify/v1'' @ [0] @ body @ []))"
proof -
  obtain receipt f where "verify_stop_receipt demo_crypto receipt (demo_trust None) = Ok f"
    using demo_accepted by blast
  then obtain r msg q body rcd c i where R: "record_states demo_crypto (demo_trust None) r msg q body rcd c i"
    unfolding verify_stop_receipt_iff by blast
  have "st_nonce (demo_trust None) = None" by (simp add: demo_trust_def)
  then show ?thesis using R certify_binds [OF R R refl] by (intro exI conjI) (assumption, simp)
qed

text \<open>
  C13. A quote serves one protocol. If gate 1 accepts an attestation envelope and the stop check
  accepts a receipt, and both carry the same signed quote structure, then the two inputs
  that were hashed into it are a collision of the hash: the stop domain is disjoint from
  the envelopes, so a stop receipt can never pass as an attestation, nor the reverse.
\<close>

theorem protocols_separate:
  assumes "authenticate_envelope C b (Some attest) sig ev entry_for = Ok a"
    and "quote_states C t r msg q" "rc_quote_attest r = attest"
  shows "collision (c_hash C) b (lit ''tactiq-stop/quote/v1'' @ [0] @ rc_msg r)"
proof -
  from assms(1) obtain m q' where m: "parse_message b = Ok m" and q': "quote_parse attest = Ok q'"
    "quote_commits (c_hash C) (sha256 (c_hash C) b) m q'"
    unfolding authenticate_iff by auto
  from assms(2,3) have q: "quote_parse attest = Ok q" "parse_message (rc_msg r) = Ok msg"
    "quote_commits (c_hash C) (stop_quote_qualifying (c_hash C) (rc_msg r)) msg q"
    by (simp_all add: quote_states_def)
  then have "sha256 (c_hash C) b = stop_quote_qualifying (c_hash C) (rc_msg r)"
    using q' by (auto simp: quote_commits_def)
  moreover have "length b = 93" "length (rc_msg r) = 93"
    using parse_message_sound(3) [OF m] parse_message_sound(3) [OF q(2)] by simp_all
  then have "length b \<noteq> length (lit ''tactiq-stop/quote/v1'' @ [0] @ rc_msg r)" by simp
  then have "b \<noteq> lit ''tactiq-stop/quote/v1'' @ [0] @ rc_msg r" by blast
  ultimately show ?thesis
    by (simp add: stop_quote_qualifying_def sha256_eq_iff collision_def)
qed

text \<open>The demonstration hash keeps only the last 32 bytes: under it the two domains collide.\<close>

lemma be_dec_append: "be_dec (p @ m) = be_dec p * 256 ^ length m + be_dec m"
  by (induction m rule: rev_induct) (simp_all flip: append_assoc add: algebra_simps)

lemma demo_hash_suffix:
  assumes "32 \<le> length m"
  shows "demo_hash (p @ m) = demo_hash m"
proof -
  have "(256 :: 256 word) ^ 32 = 0" by simp
  moreover have "(256 :: 256 word) ^ length m = 256 ^ 32 * 256 ^ (length m - 32)"
    by (metis assms le_add_diff_inverse power_add)
  ultimately have "(256 :: 256 word) ^ length m = 0" by (simp only: mult_zero_left)
  then show ?thesis by (simp add: demo_hash_def be_dec_append)
qed

text \<open>So an accepted receipt can be turned into an envelope that gate 1 accepts.\<close>

lemma demo_envelope:
  assumes "quote_states demo_crypto t r msg q"
  shows "\<exists>a. authenticate_envelope demo_crypto (rc_msg r) (Some (rc_quote_attest r)) (rc_quote_sig r)
    (rc_bundle r) (\<lambda>_. Some (Ak (st_ak t))) = Ok a"
proof -
  have "length (rc_msg r) = 93"
    using assms parse_message_sound(3) [of "rc_msg r" msg] by (simp add: quote_states_def)
  then have "sha256 demo_hash (rc_msg r) = stop_quote_qualifying demo_hash (rc_msg r)"
    by (simp only: stop_quote_qualifying_def sha256_eq_iff append_assoc [symmetric] demo_hash_suffix)
  then show ?thesis using assms by (auto simp: authenticate_iff quote_states_def)
qed

lemma protocols_separate_witness:
  "\<exists>m. collision demo_hash m (lit ''tactiq-stop/quote/v1'' @ [0] @ m)"
proof -
  obtain receipt f where "verify_stop_receipt demo_crypto receipt (demo_trust None) = Ok f"
    using demo_accepted by blast
  then obtain r msg q where Q: "quote_states demo_crypto (demo_trust None) r msg q"
    unfolding verify_stop_receipt_iff by blast
  then obtain a where "authenticate_envelope demo_crypto (rc_msg r) (Some (rc_quote_attest r)) (rc_quote_sig r)
      (rc_bundle r) (\<lambda>_. Some (Ak (st_ak (demo_trust None)))) = Ok a"
    using demo_envelope by blast
  from protocols_separate [OF this Q refl] show ?thesis by auto
qed

section \<open>The time between two receipts\<close>

lemma verify_stop_interval_iff:
  "verify_stop_interval C first n1 second n2 t = Ok i \<longleftrightarrow>
   st_nonce t = None \<and> n1 \<noteq> n2
   \<and> (\<exists>a b. verify_stop_receipt C first (t\<lparr>st_nonce := Some n1\<rparr>) = Ok a
        \<and> verify_stop_receipt C second (t\<lparr>st_nonce := Some n2\<rparr>) = Ok b
        \<and> odd (unat (sf_stop_epoch a)) \<and> sf_stop_epoch b = sf_stop_epoch a
        \<and> same_boot (sf_clock a) (sf_clock b)
        \<and> tc_clock (sf_clock a) < tc_clock (sf_clock b)
        \<and> i = \<lparr>si_stop_epoch = sf_stop_epoch a, si_from = sf_clock a, si_to = sf_clock b\<rparr>)"
proof -
  have basis: "basis f = CounterBasis \<longleftrightarrow> odd (unat (sf_stop_epoch f))" for f
    by (simp add: basis_def odd_epoch_iff split: stop_state.splits)
  show ?thesis
    unfolding verify_stop_interval_def if_Err_Ok rbind_Ok ctx_Ok basis same_boot_def
    by (auto simp: not_le)
qed

text \<open>
  The history of the stop counter within one boot of the chip, as a function of its clock:
  it never falls, and an accepted receipt shows the value it has at the clock of its certify.
\<close>

definition never_falls :: "(u64 \<Rightarrow> u64) \<Rightarrow> bool" where
  "never_falls h \<longleftrightarrow> (\<forall>c d. c \<le> d \<longrightarrow> h c \<le> h d)"

definition shows_history ::
  "('k, 's) crypto \<Rightarrow> 'k stop_trust \<Rightarrow> (u64 \<Rightarrow> u64) \<Rightarrow> bytes \<Rightarrow> bytes \<Rightarrow> bool" where
  "shows_history C t h receipt nonce \<longleftrightarrow>
     (\<forall>f. verify_stop_receipt C receipt (t\<lparr>st_nonce := Some nonce\<rparr>) = Ok f \<longrightarrow>
          h (tc_clock (sf_clock f)) = sf_stop_epoch f)"

text \<open>
  C14. An accepted interval proves a held stop: for a counter that never falls and is read by
  both certifies, the counter has the same odd value at every instant of the chip's clock
  between them, so the agent was stopped throughout; the two challenges differ, and
  \<open>held_ms\<close> is the length of that time without wrap-around.
\<close>

theorem interval_held:
  assumes "verify_stop_interval C first n1 second n2 t = Ok i"
    and "never_falls h" "shows_history C t h first n1" "shows_history C t h second n2"
  shows "n1 \<noteq> n2 \<and> same_boot (si_from i) (si_to i)
    \<and> (\<forall>c. tc_clock (si_from i) \<le> c \<and> c \<le> tc_clock (si_to i) \<longrightarrow>
          h c = si_stop_epoch i \<and> state_of (h c) = Stopped)
    \<and> unat (held_ms i) = unat (tc_clock (si_to i)) - unat (tc_clock (si_from i)) \<and> 0 < held_ms i"
proof -
  from assms(1) obtain a b where n: "n1 \<noteq> n2"
    and a: "verify_stop_receipt C first (t\<lparr>st_nonce := Some n1\<rparr>) = Ok a"
    and b: "verify_stop_receipt C second (t\<lparr>st_nonce := Some n2\<rparr>) = Ok b"
    and odd: "odd (unat (sf_stop_epoch a))" and eq: "sf_stop_epoch b = sf_stop_epoch a"
    and boot: "same_boot (sf_clock a) (sf_clock b)"
    and lt: "tc_clock (sf_clock a) < tc_clock (sf_clock b)"
    and i: "i = \<lparr>si_stop_epoch = sf_stop_epoch a, si_from = sf_clock a, si_to = sf_clock b\<rparr>"
    unfolding verify_stop_interval_iff by blast
  have ha: "h (tc_clock (sf_clock a)) = sf_stop_epoch a" and hb: "h (tc_clock (sf_clock b)) = sf_stop_epoch a"
    using assms(3,4) a b eq unfolding shows_history_def by auto
  have const: "h c = sf_stop_epoch a"
    if "tc_clock (sf_clock a) \<le> c" "c \<le> tc_clock (sf_clock b)" for c
    using assms(2) that ha hb unfolding never_falls_def by (metis antisym)
  have held: "unat (held_ms i) = unat (tc_clock (si_to i)) - unat (tc_clock (si_from i))"
    using lt by (simp add: held_ms_def i unat_sub)
  moreover have "0 < held_ms i"
    using lt by (simp add: held_ms_def i word_neq_0_conv [symmetric])
  ultimately show ?thesis
    using n boot const odd by (simp add: i)
qed

lemma interval_held_witness:
  "\<exists>first second i. verify_stop_interval demo_crypto first demo_nonce second (replicate 20 1) (demo_trust None) = Ok i
     \<and> unat (held_ms i) = 500"
proof -
  have n: "check_nonce (replicate 20 1) = Ok ()" by (simp add: check_nonce_def)
  obtain first where f: "verify_stop_receipt demo_crypto first (demo_trust (Some demo_nonce)) =
    Ok \<lparr>sf_kind = Status, sf_state = Stopped, sf_stop_epoch = 5, sf_policy_digest = replicate 32 0x11,
        sf_fresh = True, sf_clock = \<lparr>tc_clock = 1000, tc_reset_count = 1, tc_restart_count = 0, tc_safe = True\<rparr>\<rparr>"
    using demo_receipt [of demo_nonce 1000] by auto
  obtain second where s: "verify_stop_receipt demo_crypto second (demo_trust (Some (replicate 20 1))) =
    Ok \<lparr>sf_kind = Status, sf_state = Stopped, sf_stop_epoch = 5, sf_policy_digest = replicate 32 0x11,
        sf_fresh = True, sf_clock = \<lparr>tc_clock = 1500, tc_reset_count = 1, tc_restart_count = 0, tc_safe = True\<rparr>\<rparr>"
    using demo_receipt [of "replicate 20 1" 1500] n by auto
  have t: "(demo_trust None)\<lparr>st_nonce := Some n\<rparr> = demo_trust (Some n)" for n
    by (simp add: demo_trust_def)
  have ne: "demo_nonce \<noteq> replicate 20 1"
    using demo_nonce_simps(2) length_replicate [of 20 "1 :: byte"] by fastforce
  obtain i where i: "verify_stop_interval demo_crypto first demo_nonce second (replicate 20 1) (demo_trust None) = Ok i"
    "si_from i = \<lparr>tc_clock = 1000, tc_reset_count = 1, tc_restart_count = 0, tc_safe = True\<rparr>"
    "si_to i = \<lparr>tc_clock = 1500, tc_reset_count = 1, tc_restart_count = 0, tc_safe = True\<rparr>"
    using f s ne by (auto simp: verify_stop_interval_iff t same_boot_def) (simp add: demo_trust_def)
  have "shows_history demo_crypto (demo_trust None) (\<lambda>_. 5) first demo_nonce"
    "shows_history demo_crypto (demo_trust None) (\<lambda>_. 5) second (replicate 20 1)"
    using f s by (simp_all add: shows_history_def t)
  from interval_held [OF i(1) _ this] show ?thesis
    using i by (auto simp: never_falls_def)
qed

end
