(* ===== verification/FormatProps.thy ===== *)
theory FormatProps
  imports VerifyProps
begin

text \<open>
  The properties of the formats: what each parser accepts and that it is the inverse of the
  encoder, the digest of a request, the request reader, the guard on the gateway
  configuration, and the checks on what the TPM tools report.
\<close>

section \<open>Formats\<close>

text \<open>
  C29. The attestation message and the evidence bundle have one reading: a message built by
  \<open>build_canonical\<close> parses to its parts, for every input, and takes 93 bytes; and a byte
  string parses as a list of sections exactly when the builder makes it from that list, so
  the parser refuses all that the builder cannot make and loses nothing.
\<close>

theorem envelope_roundtrip:
  "parse_message (build_canonical H did c (encode_pcr_selection alg bm) ps ev) =
     Ok \<lparr>m_device_id = pad_right DEVICE_ID_LEN did, m_counter = c,
         m_pcr_selection = encode_pcr_selection alg bm, m_pcr_hash = sha256 H ps,
         m_evidence_hash = evidence_digest H ev\<rparr>
   \<and> length (build_canonical H did c (encode_pcr_selection alg bm) ps ev) = 93
   \<and> (parse_bundle b = Ok ss \<longleftrightarrow> build_bundle (map section_pair ss) = Ok b)"
  using parse_build_canonical [of "encode_pcr_selection alg bm" H did c ps ev]
    length_build_canonical [of "encode_pcr_selection alg bm" H did c ps ev]
  by (simp add: parse_bundle_iff build_bundle_iff)

text \<open>
  C30. The three formats of the stop crate have one reading each: record, certify section and
  receipt parse to a value exactly when that value encodes to the same bytes (for records:
  with the array widths of the type). An encoder refuses a value exactly when no bytes parse
  to it; for records those are the refusals that would say running.
\<close>

theorem stop_formats_roundtrip:
  "(record_parse b = Ok r \<longleftrightarrow> wf_record r \<and> record_encode r = Ok b)
   \<and> (nv_certify_parse b = Ok n \<longleftrightarrow> nv_certify_encode n = Ok b)
   \<and> (receipt_parse b = Ok rc \<longleftrightarrow> receipt_encode rc = Ok b)
   \<and> (is_ok (record_encode r) \<longleftrightarrow> \<not> (is_refusal (sr_kind r) \<and> sr_state r = Running))"
  using record_encode_ok_iff [of r]
  by (cases "sr_state r") (simp_all add: record_parse_iff nv_certify_parse_iff receipt_parse_iff)

text \<open>
  C31. The parsers of TPM structures accept exactly their layout, with no trailing byte: a quote
  is the bytes of its fields, with at most 16 banks whose counts are what is there; an ECC
  public area is the sized bytes of its own layout; an NV certify structure is its fields
  with any eight bytes of firmware version; and none has two readings.
\<close>

theorem tpm_parsers_exact:
  "(quote_parse b = Ok q \<longleftrightarrow> wf_quote q \<and> b = quote_bytes q)
   \<and> (ecc_parse_tpm2b b = Ok p \<longleftrightarrow>
        tpmt_layout p \<and> length (e_tpmt p) < 2 ^ 16 \<and> b = tpm2b_bytes (e_tpmt p))
   \<and> (parse_nv_certify_info b = Ok i \<longleftrightarrow> wf_nv_info i \<and> (\<exists>fw. length fw = 8 \<and> b = nv_info_bytes fw i))"
  using quote_parse_iff ecc_parse_tpm2b_iff nv_info_parse_iff by blast

text \<open>
  A release file has one spelling: the parser accepts a byte string exactly when it is the
  two lines of a release for a graphic device id and an even value in plain decimal, so two
  different files never mean the same release and no file means two.
\<close>

theorem release_spelling:
  "release_parse rc = Ok r \<longleftrightarrow> wf_release r \<and> rc = release_bytes r"
  by (rule release_parse_iff)

section \<open>Requests\<close>

lemma upper_no_nul: "list_all is_upper m \<Longrightarrow> 0 \<notin> set m"
  by (auto simp: list_all_iff is_upper_def)

lemma map_Data_inj: "map Data xs = map Data ys \<longleftrightarrow> xs = ys"
  by (rule inj_map_eq_map) (simp add: inj_def)

lemma request_line_method: "request_line l = Ok (m, p) \<Longrightarrow> list_all is_upper m"
  by (auto simp: request_line_def if_Err_Ok split: list.splits)

lemma parse_head_method: "parse_head h = Ok (m, p, n) \<Longrightarrow> list_all is_upper m \<and> n \<le> BODY_MAX"
  by (cases "split_crlf h")
     (auto simp: parse_head_def rbind_Ok if_Err_Ok Let_def not_less dest: request_line_method)

lemma read_request_parse:
  assumes "read_request evs = Some (Ok req)"
  obtains ds post n where "evs = map Data ds @ post" "http_parse (concat ds) = Ok (Some (req, n))"
    "n = length (concat ds)"
  using read_loop_Ok [OF assms [unfolded read_request_def]] by auto

lemma read_request_method: "read_request evs = Some (Ok req) \<Longrightarrow> list_all is_upper (q_method req)"
  by (elim read_request_parse) (auto dest!: http_parse_Some dest: parse_head_method)

text \<open>
  C20. The service reads one request, whole or not at all: an accepted request is the bytes of the
  connection up to some point, its head ends at the first blank line within 16 KiB, its body
  is exactly as long as the head declares and at most 1 MiB, nothing follows, and however
  the bytes are cut into reads, the same bytes give the same request.
\<close>

theorem request_exact:
  assumes "read_request evs = Some (Ok req)"
  shows "\<exists>ds post head. evs = map Data ds @ post \<and> concat ds = head @ CRLF2 @ q_body req
    \<and> find_window CRLF2 (concat ds) = Some (length head) \<and> length head \<le> 16384
    \<and> parse_head head = Ok (q_method req, q_path req, length (q_body req))
    \<and> length (q_body req) \<le> 1048576
    \<and> (\<forall>evs' req' ds' post'. read_request evs' = Some (Ok req') \<and> evs' = map Data ds' @ post'
         \<and> concat ds' = concat ds \<longrightarrow> req' = req)"
proof -
  obtain ds post where evs: "evs = map Data ds @ post"
    and p: "http_parse (concat ds) = Ok (Some (req, length (concat ds)))"
    using assms by (elim read_request_parse) blast
  obtain head rest where h: "concat ds = head @ CRLF2 @ q_body req @ rest" "length head \<le> HEAD_MAX"
    "find_window CRLF2 (concat ds) = Some (length head)"
    "parse_head head = Ok (q_method req, q_path req, length (q_body req))"
    "length (concat ds) = length head + 4 + length (q_body req)"
    using http_parse_Some [OF p] by blast
  have "length (head @ CRLF2 @ q_body req @ rest) = length head + 4 + length (q_body req)"
    using h(1,5) by argo
  then have "rest = []" by simp
  then have bytes: "concat ds = head @ CRLF2 @ q_body req" using h(1) by simp
  have body: "length (q_body req) \<le> 1048576" using parse_head_method [OF h(4)] by simp
  have hlen: "length head \<le> 16384" using h(2) by simp
  have "req' = req"
    if r': "read_request evs' = Some (Ok req')" and e': "evs' = map Data ds' @ post'"
      and c: "concat ds' = concat ds" for evs' req' ds' post'
  proof -
    obtain es post2 where es: "evs' = map Data es @ post2" "http_parse (concat es) = Ok (Some (req', length (concat es)))"
      using r' by (elim read_request_parse) blast
    have "map Data ds' @ post' = map Data es @ post2" using e' es(1) by simp
    then obtain us where "(map Data ds' = map Data es @ us \<and> us @ post' = post2) \<or>
        (map Data ds' @ us = map Data es \<and> post' = us @ post2)"
      by (auto simp: append_eq_append_conv2)
    then consider fs where "map Data ds' = map Data (es @ fs)" | fs where "map Data es = map Data (ds' @ fs)"
    proof (elim disjE conjE)
      assume "map Data ds' = map Data es @ us"
      then have "\<exists>fs. us = map Data fs" by (metis append_eq_map_conv)
      then show thesis using that(1) \<open>map Data ds' = map Data es @ us\<close> by auto
    next
      assume "map Data ds' @ us = map Data es"
      moreover from this obtain fs where "us = map Data fs" by (metis append_eq_map_conv)
      ultimately show thesis by (intro that(2) [of fs]) simp
    qed
    then show "req' = req"
    proof cases
      case 1
      then have "ds' = es @ fs" by (simp only: map_Data_inj)
      then have "http_parse (concat ds) = Ok (Some (req', length (concat es)))"
        using http_parse_append [OF es(2), of "concat fs"] c by simp
      with p show ?thesis by simp
    next
      case 2
      then have "es = ds' @ fs" by (simp only: map_Data_inj)
      then have "http_parse (concat es) = Ok (Some (req, length (concat ds)))"
        using http_parse_append [OF p, of "concat fs"] c by simp
      with es(2) show ?thesis by simp
    qed
  qed
  then have same: "\<forall>evs' req' ds' post'. read_request evs' = Some (Ok req') \<and> evs' = map Data ds' @ post'
      \<and> concat ds' = concat ds \<longrightarrow> req' = req" by blast
  show ?thesis
    by (intro exI [of _ ds] exI [of _ post] exI [of _ head] conjI evs bytes h(3,4) hlen body same)
qed

lemma request_exact_witness:
  "\<exists>ds head. demo_events = map Data ds \<and> concat ds = head @ CRLF2"
  using request_exact [OF demo_read] by (auto simp: demo_events_def Cons_eq_append_conv Cons_eq_map_conv)

text \<open>
  A refusal cannot be about another request: two requests the service has read whose paths
  hold no NUL byte have the same digest only if method, path and body agree, or the two
  inputs, written out, are a collision of the hash.
\<close>

theorem request_digest_separates:
  assumes "read_request evs = Some (Ok r)" "read_request evs' = Some (Ok r')"
    and "0 \<notin> set (q_path r)" "0 \<notin> set (q_path r')"
    and "request_digest H (q_method r) (q_path r) (q_body r) = request_digest H (q_method r') (q_path r') (q_body r')"
  shows "r = r' \<or> collision H (lit ''tactiq-stop/request/v1'' @ [0] @ q_method r @ [0] @ q_path r @ [0] @ q_body r)
    (lit ''tactiq-stop/request/v1'' @ [0] @ q_method r' @ [0] @ q_path r' @ [0] @ q_body r')"
proof (rule disjCI)
  assume no: "\<not> collision H (lit ''tactiq-stop/request/v1'' @ [0] @ q_method r @ [0] @ q_path r @ [0] @ q_body r)
    (lit ''tactiq-stop/request/v1'' @ [0] @ q_method r' @ [0] @ q_path r' @ [0] @ q_body r')"
  have "q_method r @ [0] @ q_path r @ [0] @ q_body r = q_method r' @ [0] @ q_path r' @ [0] @ q_body r'"
    using sha256_eq_or_collision [OF assms(5) [unfolded request_digest_def]] no by auto
  then have "q_method r = q_method r' \<and> q_path r = q_path r' \<and> q_body r = q_body r'"
    using upper_no_nul [OF read_request_method [OF assms(1)]] upper_no_nul [OF read_request_method [OF assms(2)]]
      assms(3,4) by (intro request_preimage_inj) blast+
  then show "r = r'" by simp
qed

text \<open>The two requests of the next property: a NUL inside the path, or at the start of the body.\<close>

definition nul_head :: "bytes \<Rightarrow> nat \<Rightarrow> bytes" where
  "nul_head path n = lit ''POST '' @ path @ lit '' HTTP/1.1'' @ CRLF @ lit ''Content-Length: '' @ dec n"

lemma nul_request:
  assumes "path = [47, 97, 0, 98] \<or> path = [47, 97]" "length body = n" "n = 1 \<or> n = 3"
  shows "http_parse (nul_head path n @ CRLF2 @ body) =
    Ok (Some (\<lparr>q_method = lit ''POST'', q_path = path, q_body = body\<rparr>, length (nul_head path n) + 4 + n))"
proof -
  let ?h = "nul_head path n"
  obtain c where d: "dec n = [c]" and c: "c = 49 \<or> c = 51"
    using assms(3) by (auto simp: dec.simps)
  have f: "find_window CRLF2 (?h @ CRLF2 @ body) = Some (length ?h)"
    using assms(1) c by (elim disjE) (simp_all add: nul_head_def lit_def d)
  have asc: "utf8_valid ?h"
    using assms(1) c by (intro utf8_valid_ascii, elim disjE) (simp_all add: nul_head_def lit_def d is_ascii_def)
  have sp: "split_crlf ?h = [lit ''POST '' @ path @ lit '' HTTP/1.1'', lit ''Content-Length: '' @ dec n]"
    using assms(1) c by (elim disjE) (simp_all add: nul_head_def lit_def d)
  have rl: "request_line (lit ''POST '' @ path @ lit '' HTTP/1.1'') = Ok (lit ''POST'', path)"
    using assms(1) by (elim disjE) (simp_all add: request_line_def lit_def is_upper_def is_digit_def)
  have tr: "trim_matches header_ws (32 # dec n) = dec n"
    using c by (elim disjE) (simp_all add: trim_matches_def trim_end_matches_def d header_ws_def)
  have pn: "parse_u64 (dec n) = Some n"
    unfolding parse_u64_def using assms(3) by (intro parse_radix_dec) auto
  have hl: "header_loop [lit ''Content-Length: '' @ dec n] None = Ok (Some n)"
    using tr pn c by (elim disjE) (simp_all add: lit_def d eq_ignore_case_def to_lower_def is_graphic_def is_upper_def is_digit_def)
  have ph: "parse_head ?h = Ok (lit ''POST'', path, n)"
    using asc sp rl hl assms(3) by (auto simp: parse_head_def)
  have len: "length ?h \<le> HEAD_MAX"
    using assms(1) by (elim disjE) (simp_all add: nul_head_def d)
  have "take (length ?h) (?h @ CRLF2 @ body) = ?h" by simp
  moreover have "slice (length ?h + 4) (length ?h + 4 + n) (?h @ CRLF2 @ body) = body"
    using assms(2) by (simp add: slice_append_skip slice_def)
  ultimately show ?thesis
    using f ph len assms(2) by (simp add: http_parse_def Let_def del: CRLF2_def HEAD_MAX_def) simp
qed

text \<open>
  C21. Without that condition it fails: the reader takes a NUL inside a path, and the digest
  separates path and body by a NUL, so two different requests that it reads have the same
  digest under every hash. A refusal receipt for one is a refusal of the other.
\<close>

theorem request_digest_ambiguous:
  "\<exists>evs evs' r r'. read_request evs = Some (Ok r) \<and> read_request evs' = Some (Ok r') \<and> r \<noteq> r'
     \<and> q_path r \<noteq> q_path r' \<and> q_body r \<noteq> q_body r'
     \<and> (\<forall>H. request_digest H (q_method r) (q_path r) (q_body r) =
            request_digest H (q_method r') (q_path r') (q_body r'))"
proof -
  let ?r = "\<lparr>q_method = lit ''POST'', q_path = [47, 97, 0, 98], q_body = [99]\<rparr>"
  let ?r' = "\<lparr>q_method = lit ''POST'', q_path = [47, 97], q_body = [98, 0, 99]\<rparr>"
  have read: "read_request [Data (nul_head path n @ CRLF2 @ body)] =
      Some (Ok \<lparr>q_method = lit ''POST'', q_path = path, q_body = body\<rparr>)"
    if "path = [47, 97, 0, 98] \<or> path = [47, 97]" "length body = n" "n = 1 \<or> n = 3" for path body n
  proof -
    have "length (dec n) = 1" using that(3) by (auto simp: dec.simps)
    then have "length (nul_head path n) \<le> 60"
      using that(1) by (elim disjE) (simp_all add: nul_head_def)
    then have "length (nul_head path n) + n \<le> 1064960" using that(3) by auto
    moreover have "http_parse [] = Ok None" by (simp add: http_parse_def)
    ultimately show ?thesis
      using nul_request [OF that] that(2,3)
      by (simp add: read_request_def read_loop.simps [of "[]"] Let_def
          read_loop.simps [of "nul_head _ _ @ _"] del: CRLF2_def) (simp add: CRLF2_def not_less)
  qed
  have "read_request [Data (nul_head [47, 97, 0, 98] 1 @ CRLF2 @ [99])] = Some (Ok ?r)"
    "read_request [Data (nul_head [47, 97] 3 @ CRLF2 @ [98, 0, 99])] = Some (Ok ?r')"
    by (rule read; simp)+
  moreover have "request_digest H (q_method ?r) (q_path ?r) (q_body ?r) =
      request_digest H (q_method ?r') (q_path ?r') (q_body ?r')" for H
    by (simp add: request_digest_def)
  ultimately show ?thesis
    by (intro exI conjI allI) (assumption | simp)+
qed

section \<open>Every connection ends\<close>

fun data_length :: "read_event list \<Rightarrow> nat" where
  "data_length [] = 0"
| "data_length (Data d # evs) = length d + data_length evs"
| "data_length (_ # evs) = data_length evs"

lemma read_loop_too_much:
  assumes "HEAD_MAX + BODY_MAX + 4 < length buf + data_length evs" "length buf \<le> HEAD_MAX + BODY_MAX + 4"
  shows "read_loop buf evs \<noteq> None"
  using assms
proof (induction evs arbitrary: buf)
  case Nil
  then show ?case by simp
next
  case (Cons ev evs)
  show ?case
  proof (cases ev)
    case (Data d)
    have "read_loop (buf @ d) evs \<noteq> None" if "length (buf @ d) \<le> HEAD_MAX + BODY_MAX + 4"
      using Cons.prems that Data by (intro Cons.IH) simp_all
    then show ?thesis
      using Data
      by (auto simp: read_loop.simps [of buf] Let_def split: sum.splits option.splits)
  qed (auto simp: read_loop.simps [of buf] split: sum.splits option.splits)
qed

text \<open>
  No client holds the single connection for ever or makes the service buffer without bound: as
  soon as one read meets the deadline, an error or the end of the stream, or more bytes have
  come than a request may have, the connection has its answer.
\<close>

definition conn_ends :: "read_event list \<Rightarrow> bool" where
  "conn_ends evs \<longleftrightarrow> (\<exists>ev \<in> set evs. \<forall>d. ev \<noteq> Data d) \<or> HEAD_MAX + BODY_MAX + 4 < data_length evs"

lemma connection_answered:
  assumes "conn_ends evs"
  shows "\<exists>out w'. handle render C T x evs w = Some (out, w')"
proof -
  have "read_request evs \<noteq> None"
    using assms read_loop_ends [of _ evs "[]"] read_loop_too_much [of "[]" evs]
    unfolding read_request_def conn_ends_def by auto
  then show ?thesis
    by (auto simp: handle_def split: prod.splits)
qed

end
