(* ===== verification/Numerals.thy ===== *)
theory Numerals
  imports NumText
begin

text \<open>
  Which texts the parser of unsigned integers reads as a number: its decimal digits, after any
  number of zeros and at most one plus sign.
\<close>

definition spells :: "bytes \<Rightarrow> nat \<Rightarrow> bool" where
  "spells s n \<longleftrightarrow> (\<exists>z. s = replicate z 48 @ dec n \<or> s = 43 # replicate z 48 @ dec n)"

lemma radix_digit: "digit_val b < 10 \<longleftrightarrow> is_digit b"
  by (auto simp: digit_val_def is_digit_def split: if_splits)

lemma radix_val_zeros [simp]: "radix_val 10 (replicate z 48 @ s) = radix_val 10 s"
  by (induction z) (simp_all add: radix_val_def digit_val_def is_digit_def)

lemma digit_of_val: "is_digit b \<Longrightarrow> of_nat (48 + digit_val b) = b"
  by (simp add: digit_val_def is_digit_def del: of_nat_add)

lemma digits_spelled:
  "d \<noteq> [] \<Longrightarrow> list_all is_digit d \<Longrightarrow> \<exists>z. d = replicate z 48 @ dec (radix_val 10 d)"
proof (induction d rule: rev_induct)
  case (snoc b ds)
  then have b: "is_digit b" "digit_val b < 10" by (simp_all add: radix_digit)
  then have one: "dec (digit_val b) = [b]" by (simp add: dec.simps digit_of_val del: of_nat_add)
  show ?case
  proof (cases "ds = []")
    case True
    then show ?thesis using one by (simp add: radix_val_def)
  next
    case False
    with snoc obtain z where ds: "ds = replicate z 48 @ dec (radix_val 10 ds)" by auto
    show ?thesis
    proof (cases "radix_val 10 ds = 0")
      case True
      then have "ds = replicate (Suc z) 48"
        using ds by (simp add: dec.simps replicate_append_same)
      then show ?thesis
        using one radix_val_zeros [of "Suc z" "[b]"] radix_val_snoc [of 10 "[]" b]
        by (intro exI [of _ "Suc z"]) (simp del: radix_val_zeros)
    next
      case False
      then have "dec (radix_val 10 (ds @ [b])) = dec (radix_val 10 ds) @ [b]"
        using b by (subst dec.simps) (simp add: digit_of_val del: of_nat_add)
      then show ?thesis using ds by (intro exI [of _ z]) (metis append_assoc)
    qed
  qed
qed simp

lemma parse_radix_spells: "parse_radix 10 m s = Some n \<longleftrightarrow> n \<le> m \<and> spells s n"
proof
  assume "parse_radix 10 m s = Some n"
  then obtain d where d: "d \<noteq> []" "list_all is_digit d" "radix_val 10 d = n" "n \<le> m" "s = d \<or> s = 43 # d"
    by (cases s) (auto simp: parse_radix_def Let_def radix_digit split: if_splits)
  with digits_spelled [OF d(1,2)] show "n \<le> m \<and> spells s n" by (auto simp: spells_def)
next
  assume n: "n \<le> m \<and> spells s n"
  have z: "list_all is_digit (replicate z 48 @ dec n)" for z
    using dec_digits [of n] by (auto simp: list_all_iff is_digit_def)
  from n obtain z where "s = replicate z 48 @ dec n \<or> s = 43 # replicate z 48 @ dec n"
    by (auto simp: spells_def)
  then show "parse_radix 10 m s = Some n"
  proof
    assume "s = replicate z 48 @ dec n"
    then show ?thesis using n parse_radix_digits [OF _ z [of z], of m] by simp
  next
    assume "s = 43 # replicate z 48 @ dec n"
    moreover have "list_all (\<lambda>b. digit_val b < 10) (replicate z 48 @ dec n)"
      using z [of z] by (simp add: list_all_iff radix_digit)
    ultimately show ?thesis using n by (simp add: parse_radix_def)
  qed
qed

lemma parse_u8_spells: "parse_u8 s = Some n \<longleftrightarrow> n \<le> 255 \<and> spells s n"
  by (simp add: parse_u8_def parse_radix_spells)

lemma parse_u64_spells: "parse_u64 s = Some n \<longleftrightarrow> n < 2 ^ 64 \<and> spells s n"
  by (simp only: parse_u64_def parse_radix_spells) auto

lemma spells_dec: "spells (dec n) n"
  unfolding spells_def by (intro exI [of _ 0]) simp

lemma spells_val: "spells s n \<Longrightarrow> spells s m \<Longrightarrow> m = n"
  using parse_radix_spells [of "max m n" s n] parse_radix_spells [of "max m n" s m] by simp

lemma spells_graphic: "spells s n \<Longrightarrow> s \<noteq> [] \<and> is_digit (last s)"
  using dec_digits [of n] by (auto simp: spells_def list_all_iff)

end
