(* ===== verification/ConfigLines.thy ===== *)
theory ConfigLines
  imports Config Numerals
begin

text \<open>
  The gateway configuration as its author writes it: lines with an indentation, a list dash, a
  key, a value with or without quotes and a comment. Stated without the guard's own reading of
  a text, so that the guard can be compared with it.
\<close>

section \<open>Lines\<close>

text \<open>
  A line that sets a key: indentation, dash or not, key, gap after the colon, quote or not,
  value, trailing space, comment or not. A value is empty where a block starts.
\<close>

datatype cfg_line =
    Blank bytes "bytes option"
  | Setting bytes bool bytes bytes "byte option" bytes bytes "bytes option"

definition comment_text :: "bytes option \<Rightarrow> bytes" where
  "comment_text c = (case c of None \<Rightarrow> [] | Some t \<Rightarrow> 35 # t)"

definition quote_text :: "byte option \<Rightarrow> bytes" where
  "quote_text q = (case q of None \<Rightarrow> [] | Some b \<Rightarrow> [b])"

fun line_text :: "cfg_line \<Rightarrow> bytes" where
  "line_text (Blank ws c) = ws @ comment_text c"
| "line_text (Setting ws dash k gap q v aft c) =
     ws @ (if dash then lit ''- '' else []) @ k @ 58 # gap @ quote_text q @ v @ quote_text q @ aft @ comment_text c"

definition config_text :: "cfg_line list \<Rightarrow> bytes" where
  "config_text ls = concat (map (\<lambda>l. line_text l @ [10]) ls)"

text \<open>
  Spaces and tabs around; keys and values are printable ASCII without spaces, comment signs and
  quotes, keys without colons; a comment is anything up to the end of its line.
\<close>

definition is_space :: "byte \<Rightarrow> bool" where
  "is_space b \<longleftrightarrow> b = 32 \<or> b = 9"

definition is_plain :: "byte \<Rightarrow> bool" where
  "is_plain b \<longleftrightarrow> is_graphic b \<and> b \<noteq> 35 \<and> b \<noteq> 34 \<and> b \<noteq> 39"

definition wf_comment :: "bytes option \<Rightarrow> bool" where
  "wf_comment c \<longleftrightarrow> (case c of None \<Rightarrow> True | Some t \<Rightarrow> 10 \<notin> set t)"

fun wf_line :: "cfg_line \<Rightarrow> bool" where
  "wf_line (Blank ws c) \<longleftrightarrow> list_all is_space ws \<and> wf_comment c"
| "wf_line (Setting ws dash k gap q v aft c) \<longleftrightarrow>
     list_all is_space ws \<and> k \<noteq> [] \<and> list_all is_plain k \<and> 58 \<notin> set k \<and> list_all is_space gap
     \<and> (q = None \<or> q = Some 34 \<or> q = Some 39) \<and> list_all is_plain v \<and> list_all is_space aft \<and> wf_comment c"

text \<open>The values a key is given, in order.\<close>

fun setting_of :: "cfg_line \<Rightarrow> (bytes \<times> bytes) option" where
  "setting_of (Blank ws c) = None"
| "setting_of (Setting ws dash k gap q v aft c) = Some (k, v)"

definition values_of :: "cfg_line list \<Rightarrow> string \<Rightarrow> bytes list" where
  "values_of ls k = map snd (filter (\<lambda>kv. fst kv = lit k) (List.map_filter setting_of ls))"

text \<open>A duration: a number of milliseconds or of seconds, the latter in 64-bit milliseconds.\<close>

definition duration :: "bytes \<Rightarrow> nat \<Rightarrow> bool" where
  "duration t ms \<longleftrightarrow>
     (\<exists>s n. spells s n \<and> n < 2 ^ 64
        \<and> (t = s @ lit ''ms'' \<and> ms = n \<or> t = s @ lit ''s'' \<and> ms = n * 1000 mod 2 ^ 64))"

section \<open>White space\<close>

lemma ws_len_space: "is_space b \<Longrightarrow> ws_len (b # xs) = 1"
  unfolding is_space_def by (elim disjE; cases xs; cases "tl xs"; simp)

lemma rws_len_space: "is_space b \<Longrightarrow> rws_len (b # xs) = 1"
  using ws_len_space [of b "[]"] by (simp add: rws_len_def)

lemma trim_start_spaces: "list_all is_space ws \<Longrightarrow> trim_start (ws @ xs) = trim_start xs"
proof (induction ws)
  case (Cons b ws)
  then show ?case by (subst trim_start.simps) (simp add: ws_len_space)
qed simp

lemma rtrim_spaces: "list_all is_space ws \<Longrightarrow> rtrim (ws @ xs) = rtrim xs"
proof (induction ws)
  case (Cons b ws)
  then show ?case by (subst rtrim.simps) (simp add: rws_len_space)
qed simp

lemma trim_spaces:
  assumes "list_all is_space ws" "list_all is_space aft" "xs = [] \<or> is_graphic (hd xs) \<and> is_graphic (last xs)"
  shows "trim (ws @ xs @ aft) = xs"
proof (cases "xs = []")
  case True
  have "trim_start (ws @ aft) = []"
    using assms(1,2) trim_start_spaces [of "ws @ aft" "[]"] by (simp add: trim_start.simps)
  then show ?thesis using True by (simp add: trim_def trim_end_def rtrim.simps)
next
  case False
  then obtain x ys where xs: "xs = x # ys" "is_graphic x" using assms(3) by (cases xs) auto
  have "trim_start (ws @ xs @ aft) = xs @ aft"
    using assms(1) xs(2) by (simp add: trim_start_spaces xs(1) trim_start.simps [of "x # _"] ws_len_graphic)
  moreover have "rtrim (rev aft @ rev xs) = rtrim (rev xs)"
    using assms(2) by (intro rtrim_spaces) (simp add: list_all_iff)
  moreover have "rtrim (rev xs) = rev xs"
    using False assms(3)
    by (cases "rev xs") (auto simp: rtrim.simps [of "_ # _"] rws_len_graphic dest: arg_cong [where f = hd] simp: hd_rev)
  ultimately show ?thesis by (simp add: trim_def trim_end_def)
qed

lemma plain_graphic: "list_all is_plain v \<Longrightarrow> v \<noteq> [] \<Longrightarrow> is_graphic (hd v) \<and> is_graphic (last v)"
  by (auto simp: list_all_iff is_plain_def)

lemma trim_plain [simp]: "list_all is_plain v \<Longrightarrow> trim v = v"
  using trim_spaces [of "[]" "[]" v] plain_graphic by auto

section \<open>The guard reads the lines\<close>

lemma no_quotes: "list_all is_plain v \<Longrightarrow> dropWhile is_quote_mark v = v" "list_all is_plain v \<Longrightarrow> dropWhile is_quote_mark (rev v) = rev v"
  by (auto simp: list_all_iff is_plain_def is_quote_mark_def dropWhile_eq_self_iff hd_rev dest: hd_in_set last_in_set)

lemma unquoted:
  assumes "list_all is_plain v" "q = None \<or> q = Some 34 \<or> q = Some 39"
  shows "trim_matches is_quote_mark (quote_text q @ v @ quote_text q) = v"
proof (cases q)
  case None
  then show ?thesis using no_quotes [OF assms(1)] by (simp add: quote_text_def trim_matches_def trim_end_matches_def)
next
  case (Some b)
  then have b: "is_quote_mark b" using assms(2) by (auto simp: is_quote_mark_def)
  show ?thesis
  proof (cases "v = []")
    case True
    then show ?thesis using Some b by (simp add: quote_text_def trim_matches_def trim_end_matches_def)
  next
    case False
    then have "dropWhile is_quote_mark (v @ [b]) = v @ [b]"
      using assms(1) by (cases v) (auto simp: is_plain_def is_quote_mark_def)
    then show ?thesis
      using Some b no_quotes(2) [OF assms(1)] by (simp add: quote_text_def trim_matches_def trim_end_matches_def)
  qed
qed

lemma norm_value:
  assumes "list_all is_plain v" "list_all is_space gap" "q = None \<or> q = Some 34 \<or> q = Some 39"
  shows "norm (gap @ quote_text q @ v @ quote_text q) = v"
proof -
  have "trim (gap @ (quote_text q @ v @ quote_text q) @ []) = quote_text q @ v @ quote_text q"
    using assms plain_graphic [OF assms(1)]
    by (intro trim_spaces) (auto simp: quote_text_def is_graphic_def split: option.splits)
  then show ?thesis
    using unquoted [OF assms(1,3)] assms(1) by (simp add: norm_def)
qed

lemma code_part:
  assumes "35 \<notin> set b" "b = [] \<or> last b \<noteq> 13"
  shows "hd (split_on 35 (strip_cr (b @ comment_text c))) = b"
proof (cases c)
  case None
  then show ?thesis using assms by (auto simp: comment_text_def strip_cr_def split_on_no_sep_id)
next
  case (Some t)
  have "\<exists>t'. strip_cr (b @ 35 # t) = b @ 35 # t'"
    by (auto simp: strip_cr_def butlast_append)
  then show ?thesis using Some assms(1) by (auto simp: comment_text_def split_on_append_sep)
qed

lemma trim_dashes_key:
  "list_all is_plain k \<Longrightarrow> k \<noteq> [] \<Longrightarrow> trim_dashes (k @ 58 # xs) = k @ 58 # xs"
  by (cases k; cases "tl k") (auto simp: is_plain_def is_graphic_def)

lemma entry_line:
  assumes "wf_line l"
  shows "entry (strip_cr (line_text l)) = setting_of l"
proof (cases l)
  case (Blank ws c)
  then have "list_all is_space ws" using assms by simp
  moreover from this have "35 \<notin> set ws" "13 \<notin> set ws"
    by (auto simp: list_all_iff is_space_def)
  moreover from this have "ws = [] \<or> last ws \<noteq> 13" using last_in_set by metis
  ultimately show ?thesis
    using Blank code_part [of ws c] trim_spaces [of ws "[]" "[]"] trim_spaces [of "[]" "[]" "[]"]
    by (simp add: entry_def)
next
  case (Setting ws dash k gap q v aft c)
  let ?qv = "quote_text q @ v @ quote_text q"
  let ?d = "if dash then lit ''- '' else []"
  define rest where "rest = (if ?qv = [] then [] else gap @ ?qv)"
  define post where "post = (if ?qv = [] then gap @ aft else aft)"
  have wf: "list_all is_space ws" "k \<noteq> []" "list_all is_plain k" "58 \<notin> set k" "list_all is_space gap"
    "q = None \<or> q = Some 34 \<or> q = Some 39" "list_all is_plain v" "list_all is_space aft"
    using assms Setting by simp_all
  let ?b = "ws @ (?d @ k @ 58 # rest) @ post"
  have b: "line_text l = ?b @ comment_text c"
    using Setting by (auto simp: rest_def post_def)
  have set: "set rest \<subseteq> {x. is_space x \<or> is_graphic x \<and> x \<noteq> 35}" "set post \<subseteq> {x. is_space x}"
    using wf by (auto simp: rest_def post_def list_all_iff is_plain_def quote_text_def is_graphic_def split: option.splits)
  have "35 \<notin> set ?b"
    using wf set by (auto simp: list_all_iff is_space_def is_plain_def lit_def)
  moreover have "13 \<notin> set ?b"
    using wf set by (auto simp: list_all_iff is_space_def is_plain_def lit_def is_graphic_def)
  then have "last ?b \<noteq> 13" by (metis last_in_set append_is_Nil_conv list.distinct(1))
  ultimately have h: "hd (split_on 35 (strip_cr (line_text l))) = ?b" unfolding b by (intro code_part) blast+
  have last: "is_graphic (last (58 # rest))"
    using wf plain_graphic [OF wf(7)] by (auto simp: rest_def quote_text_def is_graphic_def split: option.splits)
  have edge: "is_graphic (hd (k @ 58 # rest))" "is_graphic (last (k @ 58 # rest))"
    using plain_graphic [OF wf(3,2)] last wf(2) by simp_all
  have t1: "trim ?b = ?d @ k @ 58 # rest"
    using wf(1,2) set(2) edge last
    by (intro trim_spaces) (auto simp: list_all_iff lit_def is_graphic_def)
  have t2: "trim (k @ 58 # rest) = k @ 58 # rest"
    using trim_spaces [of "[]" "[]" "k @ 58 # rest"] edge by simp
  have "trim_dashes (?d @ k @ 58 # rest) = k @ 58 # rest"
    using trim_dashes_key [OF wf(3,2)] by (simp add: lit_def)
  then have "trim (trim_dashes (trim ?b)) = k @ 58 # rest" using t1 t2 by simp
  moreover have "split_once 58 (k @ 58 # rest) = Some (k, rest)"
    using wf(4) by (simp add: split_once_Some)
  moreover have "norm rest = v"
  proof (cases "?qv = []")
    case True
    then show ?thesis using norm_value [OF wf(7), of "[]" q] wf(6) by (simp add: rest_def)
  next
    case False
    then have "rest = gap @ ?qv" unfolding rest_def by (rule if_not_P)
    then show ?thesis using norm_value [OF wf(7,5,6)] by simp
  qed
  ultimately show ?thesis using wf(3) h Setting by (simp add: entry_def)
qed

lemma line_no_newline: "wf_line l \<Longrightarrow> 10 \<notin> set (line_text l)"
  by (cases l)
     (auto simp: list_all_iff is_space_def is_plain_def is_graphic_def lit_def comment_text_def quote_text_def
       wf_comment_def split: option.splits)

lemma split_config:
  "list_all wf_line ls \<Longrightarrow> split_on 10 (config_text ls) = map line_text ls @ [[]]"
  by (induction ls) (simp_all add: config_text_def split_on_append_sep line_no_newline)

lemma entries_config:
  assumes "list_all wf_line ls"
  shows "entries (config_text ls) = List.map_filter setting_of ls"
proof -
  have "str_lines (config_text ls) = map (strip_cr \<circ> line_text) ls"
    using split_config [OF assms] by (simp add: str_lines_def)
  moreover have "List.map_filter entry (map (strip_cr \<circ> line_text) ls) = List.map_filter setting_of ls"
    using assms by (induction ls) (simp_all add: entry_line List.map_filter_def)
  ultimately show ?thesis by (simp add: entries_def)
qed

lemma sets_config: "list_all wf_line ls \<Longrightarrow> sets (config_text ls) k v \<longleftrightarrow> values_of ls k = [v]"
  by (simp add: sets_def cfg_all_def entries_config values_of_def)

lemma values_plain:
  assumes "list_all wf_line ls" "v \<in> set (values_of ls k)"
  shows "list_all is_plain v"
proof -
  have "list_all is_plain v" if "wf_line l" "setting_of l = Some (k, v)" for l k v
    using that by (cases l) auto
  then show ?thesis using assms by (fastforce simp: values_of_def List.map_filter_def list_all_iff)
qed

section \<open>Durations\<close>

lemma duration_reads:
  assumes "list_all is_plain t"
  shows "(\<exists>w. parse_duration_ms t = Some w \<and> k \<le> unat w) \<longleftrightarrow> (\<exists>ms. duration t ms \<and> k \<le> ms)"
proof (cases "strip_suffix (lit ''ms'') t")
  case (Some s)
  then have t: "t = s @ lit ''ms''" by (simp add: strip_suffix_Some)
  have no: "\<not> spells (s @ [109]) n" for n
    using spells_graphic [of "s @ [109]" n] by (auto simp: is_digit_def)
  have "duration t ms \<longleftrightarrow> spells s ms \<and> ms < 2 ^ 64" for ms
    unfolding duration_def t using no by (auto simp: lit_def)
  moreover have "trim s = s" using assms t by simp
  then have "parse_duration_ms t = map_option of_nat (parse_u64 s)" using Some by (simp add: parse_duration_ms_def)
  ultimately show ?thesis
    by (auto simp: parse_u64_spells unat_of_nat)
next
  case None
  show ?thesis
  proof (cases "strip_suffix (lit ''s'') t")
    case (Some s)
    then have t: "t = s @ lit ''s''" by (simp add: strip_suffix_Some)
    have d: "duration t ms \<longleftrightarrow> (\<exists>n. spells s n \<and> n < 2 ^ 64 \<and> ms = n * 1000 mod 2 ^ 64)" for ms
      using None strip_suffix_Some [of "lit ''ms''" t] unfolding duration_def t by (auto simp: lit_def)
    moreover have "trim s = s" using assms t by simp
    then have p: "parse_duration_ms t = map_option (\<lambda>n. of_nat n * 1000) (parse_u64 s)"
      using None Some by (simp add: parse_duration_ms_def)
    have "unat (of_nat n * 1000 :: u64) = n * 1000 mod 2 ^ 64" for n
      by (simp add: unat_word_ariths unat_of_nat mod_mult_left_eq)
    then show ?thesis unfolding p d by (auto simp: parse_u64_spells)
  next
    case no: None
    then have "parse_duration_ms t = None" using None by (simp add: parse_duration_ms_def)
    moreover have "\<not> duration t ms" for ms
      using None no unfolding duration_def by (metis option.distinct(1) strip_suffix_Some)
    ultimately show ?thesis by simp
  qed
qed

section \<open>The guard\<close>

lemma check_config_lines:
  assumes "list_all wf_line ls"
  shows "check_gateway_config (config_text ls) listen = Ok () \<longleftrightarrow>
   123 \<notin> set (config_text ls)
   \<and> length (values_of ls ''extAuthz'') = 1 \<and> values_of ls ''host'' = [listen]
   \<and> values_of ls ''failureMode'' = [lit ''deny'']
   \<and> (\<exists>t ms. values_of ls ''requestTimeout'' = [t] \<and> duration t ms \<and> 3000 \<le> ms)
   \<and> length (values_of ls ''includeRequestBody'') = 1
   \<and> (\<exists>mx n. values_of ls ''maxRequestBytes'' = [mx] \<and> spells mx n \<and> 0 < n \<and> n \<le> 1048576)
   \<and> values_of ls ''allowPartialMessage'' = [lit ''false'']"
proof -
  have one: "(\<exists>v. xs = [v]) \<longleftrightarrow> length xs = 1" for xs :: "bytes list"
    by (auto simp: length_Suc_conv)
  have t: "(\<exists>t w. values_of ls ''requestTimeout'' = [t] \<and> parse_duration_ms t = Some w \<and> MIN_TIMEOUT_MS \<le> unat w)
      \<longleftrightarrow> (\<exists>t ms. values_of ls ''requestTimeout'' = [t] \<and> duration t ms \<and> 3000 \<le> ms)"
    using duration_reads [of _ 3000] values_plain [OF assms, of _ "''requestTimeout''"] by fastforce
  have q: "parse_u64 mx = Some n \<and> 0 < n \<and> n \<le> BODY_MAX \<longleftrightarrow> spells mx n \<and> 0 < n \<and> n \<le> 1048576" for mx n
    by (auto simp: parse_u64_spells)
  have n: "(\<exists>mx n. values_of ls ''maxRequestBytes'' = [mx] \<and> parse_u64 mx = Some n \<and> 0 < n \<and> n \<le> BODY_MAX)
      \<longleftrightarrow> (\<exists>mx n. values_of ls ''maxRequestBytes'' = [mx] \<and> spells mx n \<and> 0 < n \<and> n \<le> 1048576)"
    using q by blast
  show ?thesis
    unfolding check_gateway_config_iff sets_config [OF assms] one t n ..
qed

end
