(* ===== verification/StopServe.thy ===== *)
theory StopServe
  imports FormatProps ConfigLines
begin

text \<open>
  The service as a process (\<open>tactiq-stop/main.rs\<close>, \<open>serve\<close> and \<open>main\<close>): what must hold before it
  answers, its loop over the connections, one after the other, and the dispatch of the
  commands; and the gateway configuration it starts on. The connections that came so far are a list; binding the address is a parameter.
\<close>

section \<open>The loop\<close>

text \<open>What \<open>incoming\<close> gives: a connection with what its reads give, or a failed accept.\<close>

datatype incoming = Connection "read_event list" | AcceptFailed

fun serve_loop ::
  "(err \<Rightarrow> bytes) \<Rightarrow> ('k, 's) crypto \<Rightarrow> 'w stop_tpm \<Rightarrow> ('w, 'k) stop_ctx \<Rightarrow> incoming list \<Rightarrow> 'w
     \<Rightarrow> (bytes list \<times> 'w) option" where
  "serve_loop render C T x [] w = Some ([], w)"
| "serve_loop render C T x (AcceptFailed # cs) w = serve_loop render C T x cs w"
| "serve_loop render C T x (Connection evs # cs) w =
     (case handle render C T x evs w of
        None \<Rightarrow> None
      | Some (out, w') \<Rightarrow> map_option (\<lambda>(outs, w''). (out # outs, w'')) (serve_loop render C T x cs w'))"

definition serve_start ::
  "('k, 's) crypto \<Rightarrow> (bytes \<Rightarrow> 'k option) \<Rightarrow> 'w service_os \<Rightarrow> ('w, unit) io \<Rightarrow> ('w, bytes \<times> 'k owned \<times> gate_answer) io" where
  "serve_start C from_pem so bind =
     sbind (work_dir so) (\<lambda>work.
     sbind (so_scratch so work) (\<lambda>scratch.
     sbind (owned_load C from_pem (so_os so) scratch) (\<lambda>ow.
     sbind (smap_err (Ctx ''bind'') bind) (\<lambda>_.
     sbind (t_read_counter (real_tpm (so_os so) scratch)) (\<lambda>at.
     sbind (gate C (x_lift (owned_ctx (so_os so) ow)) at) (\<lambda>g.
     sret (scratch, ow, g)))))))"

definition serve ::
  "(err \<Rightarrow> bytes) \<Rightarrow> ('k, 's) crypto \<Rightarrow> (bytes \<Rightarrow> 'k option) \<Rightarrow> 'w service_os \<Rightarrow> ('w, unit) io \<Rightarrow> incoming list
     \<Rightarrow> 'w \<Rightarrow> (bytes list res \<times> 'w) option" where
  "serve render C from_pem so bind conns w =
     (case serve_start C from_pem so bind w of
        (Inl e, w') \<Rightarrow> Some (Err e, w')
      | (Inr (scratch, ow, _), w') \<Rightarrow>
          map_option (\<lambda>(outs, w''). (Ok outs, w''))
            (serve_loop render C (real_tpm (so_os so) scratch) (owned_ctx (so_os so) ow) conns w'))"

section \<open>The commands\<close>

text \<open>Exit status and standard output, where the receipt of \<open>status\<close> goes; none while it still serves.\<close>

definition stop_exit :: "('a \<Rightarrow> bytes) \<Rightarrow> 'a res \<times> 'w \<Rightarrow> (nat \<times> bytes) \<times> 'w" where
  "stop_exit out r = (case r of (Inr x, w) \<Rightarrow> ((0, out x), w) | (Inl e, w) \<Rightarrow> ((1, []), w))"

definition stop_main ::
  "(err \<Rightarrow> bytes) \<Rightarrow> ('k, 's) crypto \<Rightarrow> (bytes \<Rightarrow> 'k option) \<Rightarrow> 'w service_os \<Rightarrow> ('w, unit) io \<Rightarrow> bool
     \<Rightarrow> incoming list \<Rightarrow> bytes list \<Rightarrow> 'w \<Rightarrow> ((nat \<times> bytes) \<times> 'w) option" where
  "stop_main render C from_pem so bind terminal conns args w =
     (let cmd = (case args of c # _ \<Rightarrow> c | [] \<Rightarrow> []) in
      if cmd = lit ''serve'' then map_option (stop_exit (\<lambda>_. [])) (serve render C from_pem so bind conns w)
      else if cmd = lit ''status'' then
        Some (stop_exit fst (cmd_status C from_pem so terminal (case tl args of h # _ \<Rightarrow> Some h | [] \<Rightarrow> None) w))
      else if cmd = lit ''trip'' then Some (stop_exit (\<lambda>_. []) (cmd_trip so w))
      else if cmd = lit ''recover'' then Some (stop_exit (\<lambda>_. []) (cmd_recover C from_pem so w))
      else if cmd = lit ''define'' then Some (stop_exit (\<lambda>_. []) (cmd_define so (tl args) w))
      else Some ((1, []), w))"

section \<open>Every connection is answered\<close>

fun connections :: "incoming list \<Rightarrow> read_event list list" where
  "connections [] = []"
| "connections (Connection evs # cs) = evs # connections cs"
| "connections (AcceptFailed # cs) = connections cs"

text \<open>An answer that lets a call through only after the whole request was admitted.\<close>

definition closed_answer ::
  "('k, 's) crypto \<Rightarrow> 'w stop_tpm \<Rightarrow> ('w, 'k) stop_ctx \<Rightarrow> read_event list \<Rightarrow> bytes \<Rightarrow> bool" where
  "closed_answer C T x evs out \<longleftrightarrow>
     probe_code out \<in> {lit ''200'', lit ''400'', lit ''403'', lit ''503''}
     \<and> (probe_code out = lit ''200'' \<longrightarrow>
          (\<exists>req w w'. read_request evs = Some (Ok req)
             \<and> admit C T x (request_digest (c_hash C) (q_method req) (q_path req) (q_body req)) w = (Inr Allow, w')))"

lemma serve_loop_answers:
  assumes "list_all conn_ends (connections conns)"
  shows "\<exists>outs w'. serve_loop render C T x conns w = Some (outs, w')
    \<and> list_all2 (closed_answer C T x) (connections conns) outs"
  using assms
proof (induction conns arbitrary: w rule: connections.induct)
  case (2 evs cs)
  then obtain out w' where h: "handle render C T x evs w = Some (out, w')"
    using connection_answered [of evs render C T x w] by auto
  from 2 obtain outs w'' where "serve_loop render C T x cs w' = Some (outs, w'')"
    "list_all2 (closed_answer C T x) (connections cs) outs" by force
  moreover have "closed_answer C T x evs out"
    using handle_closed [OF h] unfolding closed_answer_def by blast
  ultimately show ?case using h by simp
qed auto

text \<open>
  C22. However clients behave, the service works off its connections one after the other: if every
  one of them meets the deadline, an error, the end of its stream or the bound on a request, then
  each has exactly one answer, in order, and a failed accept changes nothing. An answer has one of
  four codes, and 200 only if the whole request of that connection was read and admitted.
\<close>

theorem service_answers:
  assumes "list_all conn_ends (connections conns)"
  shows "\<exists>outs w'. serve_loop render C T x conns w = Some (outs, w')
    \<and> list_all2 (closed_answer C T x) (connections conns) outs"
  by (rule serve_loop_answers [OF assms])

lemma service_answers_witness:
  "\<exists>out1 out2 w'. serve_loop (\<lambda>_. []) demo_crypto demo_tpm (demo_ctx None)
     [Connection [Data [71], DeadlinePassed], AcceptFailed, Connection [DeadlinePassed]] 4 = Some ([out1, out2], w')"
proof -
  have "list_all conn_ends (connections [Connection [Data [71], DeadlinePassed], AcceptFailed, Connection [DeadlinePassed]])"
    by (simp add: conn_ends_def)
  from service_answers [OF this, of "\<lambda>_. []" demo_crypto demo_tpm "demo_ctx None" 4]
  show ?thesis by (auto simp: list_all2_Cons1)
qed

section \<open>The configuration it starts on\<close>

lemma serve_start_config:
  assumes "serve_start C from_pem so bind w = (Ok (scratch, ow, g), w')"
  shows "\<exists>text w1 w2. read_file (so_os so) POLICY w1 = (Ok text, w2) \<and> o_policy ow = sha256 (c_hash C) text
    \<and> check_gateway_config (utf8_lossy text) LISTEN = Ok ()"
proof -
  from assms obtain w1 w2 where "owned_load C from_pem (so_os so) scratch w1 = (Ok ow, w2)"
    unfolding serve_start_def sbind_Ok by auto
  then show ?thesis unfolding owned_load_def sbind_Ok by (clarsimp simp: split_beta sbind_Ok) blast
qed

text \<open>
  C40. The guard accepts a gateway configuration, written as lines with indentation, dashes, quotes
  and comments, exactly when it has no brace anywhere and its lines set, each exactly once, an
  \<open>extAuthz\<close> block, the service's address as the only host, \<open>failureMode: deny\<close>, a timeout of at
  least three seconds, a body inclusion of at most the size the service reads, and no partial
  messages; where the lines stand in the structure is not looked at. And the service starts
  serving only on a file the guard accepted, whose digest it puts into its records.
\<close>

theorem config_guard:
  assumes "list_all wf_line ls"
  shows "(check_gateway_config (config_text ls) listen = Ok () \<longleftrightarrow>
     123 \<notin> set (config_text ls)
     \<and> length (values_of ls ''extAuthz'') = 1 \<and> values_of ls ''host'' = [listen]
     \<and> values_of ls ''failureMode'' = [lit ''deny'']
     \<and> (\<exists>t ms. values_of ls ''requestTimeout'' = [t] \<and> duration t ms \<and> 3000 \<le> ms)
     \<and> length (values_of ls ''includeRequestBody'') = 1
     \<and> (\<exists>mx n. values_of ls ''maxRequestBytes'' = [mx] \<and> spells mx n \<and> 0 < n \<and> n \<le> 1048576)
     \<and> values_of ls ''allowPartialMessage'' = [lit ''false''])
   \<and> (serve_start C from_pem so bind w = (Ok (scratch, ow, g), w') \<longrightarrow>
       (\<exists>text w1 w2. read_file (so_os so) POLICY w1 = (Ok text, w2) \<and> o_policy ow = sha256 (c_hash C) text
          \<and> check_gateway_config (utf8_lossy text) LISTEN = Ok ()))"
  by (intro conjI impI check_config_lines [OF assms]) (rule serve_start_config)

definition demo_config :: "cfg_line list" where
  "demo_config =
     [Blank [] (Some (lit '' the gateway: authorizer of every listener'')),
      Setting [32] True (lit ''extAuthz'') [] None [] [] None,
      Setting [32, 32] False (lit ''host'') [32] (Some 34) (lit ''127.0.0.1:9191'') [] None,
      Setting [32, 32] False (lit ''failureMode'') [32] None (lit ''deny'') [32] (Some (lit '' never allow'')),
      Setting [32, 32] False (lit ''requestTimeout'') [32] None (lit ''5s'') [] None,
      Setting [32, 32] False (lit ''includeRequestBody'') [] None [] [] None,
      Setting [9] False (lit ''maxRequestBytes'') [32] None (lit ''65536'') [] None,
      Setting [9] False (lit ''allowPartialMessage'') [32] (Some 39) (lit ''false'') [] None]"

lemma demo_config_facts:
  "list_all wf_line demo_config" "123 \<notin> set (config_text demo_config)"
  "length (values_of demo_config ''extAuthz'') = 1" "values_of demo_config ''host'' = [lit ''127.0.0.1:9191'']"
  "values_of demo_config ''failureMode'' = [lit ''deny'']" "values_of demo_config ''requestTimeout'' = [lit ''5s'']"
  "length (values_of demo_config ''includeRequestBody'') = 1" "values_of demo_config ''maxRequestBytes'' = [lit ''65536'']"
  "values_of demo_config ''allowPartialMessage'' = [lit ''false'']"
  by (simp_all add: demo_config_def wf_comment_def is_space_def is_plain_def is_graphic_def lit_def config_text_def
      comment_text_def quote_text_def values_of_def List.map_filter_def)

lemma config_guard_witness:
  "check_gateway_config (config_text demo_config) (lit ''127.0.0.1:9191'') = Ok ()
   \<and> check_gateway_config (config_text demo_config) (lit ''0.0.0.0:9191'') \<noteq> Ok ()"
proof -
  have d: "dec 5 = [53]" "dec 65536 = lit ''65536''" by (simp_all add: dec.simps lit_def)
  have s: "spells [53] 5" "spells (lit ''65536'') 65536"
    using spells_dec [of 5] spells_dec [of 65536] by (simp_all only: d)
  have "duration (lit ''5s'') 5000"
    unfolding duration_def using s(1) by (intro exI [of _ "[53]"] exI [of _ 5]) (simp add: lit_def)
  note f = demo_config_facts this s(2)
  note g = config_guard [OF demo_config_facts(1), THEN conjunct1]
  have "lit ''127.0.0.1:9191'' \<noteq> lit ''0.0.0.0:9191''" by (simp add: lit_def)
  then show ?thesis
    unfolding g f(3-9)
    using f by (intro conjI exI [of _ "lit ''5s''"] exI [of _ 5000] exI [of _ "lit ''65536''"] exI [of _ 65536])
      (simp_all add: f(4))
qed

end
