(* ===== verification/AgentState.thy ===== *)
theory AgentState
  imports TpmTools Release
begin

text \<open>
  The prover agent's view of the disk (\<open>prover/src/state.rs\<close>): the file operations the
  agent uses, as a record of parameters, and the identity kept on the data partition: device
  id and attestation public key, which are present together or not at all.
\<close>

section \<open>Files\<close>

text \<open>
  The calls of \<open>std::fs\<close> the agent makes. \<open>'h\<close> is an open file. \<open>f_exists\<close> is
  \<open>Path::exists\<close>, which has no error; \<open>f_list\<close> is \<open>read_dir\<close>: the names of the entries,
  each of which may fail, as bytes that need not be UTF-8. The entries are taken once; the
  agent removes only entries it has already been given.
\<close>

record ('w, 'h) files =
  f_exists :: "bytes \<Rightarrow> 'w \<Rightarrow> bool"
  f_mkdirs :: "bytes \<Rightarrow> ('w, err, unit) step"
  f_list :: "bytes \<Rightarrow> ('w, err, (err + bytes) list) step"
  f_remove :: "bytes \<Rightarrow> ('w, io_error, unit) step"
  f_rename :: "bytes \<Rightarrow> bytes \<Rightarrow> ('w, err, unit) step"
  f_open :: "bytes \<Rightarrow> ('w, io_error, 'h) step"
  f_create :: "bytes \<Rightarrow> ('w, err, 'h) step"
  f_create_new :: "bytes \<Rightarrow> nat \<Rightarrow> ('w, err, 'h) step"
  f_write :: "'h \<Rightarrow> bytes \<Rightarrow> ('w, err, unit) step"
  f_read :: "'h \<Rightarrow> nat \<Rightarrow> ('w, err, bytes) step"
  f_fsync :: "'h \<Rightarrow> ('w, err, unit) step"
  f_stat :: "bytes \<Rightarrow> ('w, err, unit) step"
  f_chmod :: "bytes \<Rightarrow> nat \<Rightarrow> ('w, err, unit) step"

definition fexists :: "('w, 'h) files \<Rightarrow> bytes \<Rightarrow> ('w, bool) io" where
  "fexists fs p w = (Ok (f_exists fs p w), w)"

definition sync_dir :: "('w, 'h) files \<Rightarrow> bytes \<Rightarrow> ('w, unit) io" where
  "sync_dir fs dir =
     smap_err (Ctx ''fsync dir'') (sbind (smap_err io_err (f_open fs dir)) (f_fsync fs))"

definition ensure_dir :: "('w, 'h) files \<Rightarrow> bytes \<Rightarrow> ('w, unit) io" where
  "ensure_dir fs p = smap_err (Ctx ''mkdir'') (f_mkdirs fs p)"

definition write_synced :: "('w, 'h) files \<Rightarrow> bytes \<Rightarrow> bytes \<Rightarrow> ('w, unit) io" where
  "write_synced fs path data =
     sbind (smap_err (Ctx ''create'') (f_create fs path)) (\<lambda>f.
     sbind (smap_err (Ctx ''write'') (f_write fs f data)) (\<lambda>_.
     smap_err (Ctx ''fsync'') (f_fsync fs f)))"

definition sync_file :: "('w, 'h) files \<Rightarrow> bytes \<Rightarrow> ('w, unit) io" where
  "sync_file fs path =
     smap_err (Ctx ''fsync'') (sbind (smap_err io_err (f_open fs path)) (f_fsync fs))"

section \<open>The identity\<close>

record paths =
  keys_dir :: bytes

definition device_id_path :: "paths \<Rightarrow> bytes" where
  "device_id_path p = path_join (keys_dir p) (lit ''device_id'')"

definition pubkey_path :: "paths \<Rightarrow> bytes" where
  "pubkey_path p = path_join (keys_dir p) (lit ''ak.pub'')"

datatype provisioning = Complete | Absent | Partial bool bool

definition inspect :: "('w, 'h) files \<Rightarrow> paths \<Rightarrow> ('w, provisioning) io" where
  "inspect fs p =
     sbind (fexists fs (device_id_path p)) (\<lambda>have_id.
     sbind (fexists fs (pubkey_path p)) (\<lambda>have_key.
     sret (case (have_id, have_key) of
         (True, True) \<Rightarrow> Complete
       | (False, False) \<Rightarrow> Absent
       | _ \<Rightarrow> Partial have_id have_key)))"

definition validate_id :: "bytes \<Rightarrow> unit res" where
  "validate_id d =
     (if d = [] then Err (Msg ''device id is empty'' [])
      else if length d > DEVICE_ID_LEN then Err (Msg ''device id too long'' [Txt d, Num (length d), Num DEVICE_ID_LEN])
      else if \<not> list_all is_graphic d then Err (Msg ''device id must be printable ASCII without spaces'' [Txt d])
      else Ok ())"

text \<open>\<open>fs::read_to_string\<close> refuses bytes that are not UTF-8.\<close>

definition read_to_string :: "'w os \<Rightarrow> bytes \<Rightarrow> ('w, bytes) io" where
  "read_to_string os p =
     sbind (read_file os p) (\<lambda>raw.
     if utf8_valid raw then sret raw
     else sfail (Ctx ''read'' (Msg ''stream did not contain valid UTF-8'' [])))"

definition read_id :: "'w os \<Rightarrow> paths \<Rightarrow> ('w, bytes) io" where
  "read_id os p =
     sbind (read_to_string os (device_id_path p)) (\<lambda>raw.
     let d = trim raw in
     sbind (sres (validate_id d)) (\<lambda>_. sret d))"

definition write_id :: "('w, 'h) files \<Rightarrow> paths \<Rightarrow> bytes \<Rightarrow> ('w, unit) io" where
  "write_id fs p d =
     sbind (sres (validate_id d)) (\<lambda>_.
     sbind (smap_err (Ctx ''create'') (f_create_new fs (device_id_path p) 384)) (\<lambda>f.
     sbind (smap_err (Ctx ''write'') (f_write fs f (d @ [10]))) (\<lambda>_.
     sbind (smap_err (Ctx ''fsync'') (f_fsync fs f)) (\<lambda>_.
     sync_dir fs (keys_dir p)))))"

text \<open>The modes: \<open>0o600\<close> is 384, \<open>0o644\<close> is 420.\<close>

definition finalize_pubkey_perms :: "('w, 'h) files \<Rightarrow> paths \<Rightarrow> ('w, unit) io" where
  "finalize_pubkey_perms fs p =
     sbind (smap_err (Ctx ''stat'') (f_stat fs (pubkey_path p))) (\<lambda>_.
     smap_err (Ctx ''chmod'') (f_chmod fs (pubkey_path p) 420))"

section \<open>Lemmas\<close>

lemma validate_id_Ok: "validate_id d = Ok u \<longleftrightarrow> valid_device_id d"
  by (auto simp: validate_id_def valid_device_id_def)

lemma inspect_app:
  "inspect fs p w =
     (Ok (if f_exists fs (device_id_path p) w then
            (if f_exists fs (pubkey_path p) w then Complete else Partial True False)
          else (if f_exists fs (pubkey_path p) w then Partial False True else Absent)), w)"
  by (simp add: inspect_def fexists_def sbind_def)

lemma inspect_iff:
  "inspect fs p w = (Ok Complete, w') \<longleftrightarrow>
     w' = w \<and> f_exists fs (device_id_path p) w \<and> f_exists fs (pubkey_path p) w"
  "inspect fs p w = (Ok Absent, w') \<longleftrightarrow>
     w' = w \<and> \<not> f_exists fs (device_id_path p) w \<and> \<not> f_exists fs (pubkey_path p) w"
  by (auto simp: inspect_app)

lemma valid_device_id_trim [simp]: "valid_device_id d \<Longrightarrow> trim d = d"
  by (cases d) (auto simp: valid_device_id_def list_all_iff intro!: trim_graphic_edges)

end
