(* ===== verification/Agent.thy ===== *)
theory Agent
  imports AgentState "HOL-Library.Product_Lexorder" "HOL-Library.List_Lexorder"
begin

text \<open>
  The prover agent (\<open>prover/src/main.rs\<close>): envelope counters, the audit directory and its
  pruning, provisioning, one attestation cycle with the staged publication of its files, the
  boot log, the loop of the service with its notifications, and the dispatch of \<open>main\<close>.
  Console output and the sleep between cycles are left out. The loop runs a given number of
  cycles: the code's loop has no end of its own, so it returns only through an error.
\<close>

section \<open>Envelope counters\<close>

definition DEFAULT_PCR_SPEC :: bytes where "DEFAULT_PCR_SPEC = lit ''sha256:0,1,2,3,4,5,6,7''"
definition DEFAULT_KEYS_DIR :: bytes where "DEFAULT_KEYS_DIR = lit ''/data/tactiq/keys''"
definition DEFAULT_OUT_DIR :: bytes where "DEFAULT_OUT_DIR = lit ''/data/tactiq/audit''"
definition DEFAULT_WORK_DIR :: bytes where "DEFAULT_WORK_DIR = lit ''/run/tactiq-agent''"
definition DEFAULT_AUDIT_KEEP :: nat where "DEFAULT_AUDIT_KEEP = 2880"

definition SEQ_BITS :: nat where [simp]: "SEQ_BITS = 24"
definition SEQ_LIMIT :: u64 where "SEQ_LIMIT = push_bit SEQ_BITS 1"

definition compose_counter :: "u64 \<Rightarrow> u64 \<Rightarrow> u64 res" where
  "compose_counter epoch seq =
     (if seq \<ge> SEQ_LIMIT then Err (Msg ''seq out of range'' [Num (unat seq)])
      else if epoch \<ge> push_bit (64 - SEQ_BITS) 1 then
        Err (Msg ''epoch does not fit beside the seq'' [Num (unat epoch), Num SEQ_BITS])
      else Ok (push_bit SEQ_BITS epoch OR seq))"

record counter_alloc =
  ca_epoch :: "u64 option"
  ca_next_seq :: u64

definition alloc_new :: counter_alloc where
  "alloc_new = \<lparr>ca_epoch = None, ca_next_seq = 0\<rparr>"

text \<open>A step of the world beside the allocator, which a process keeps in memory.\<close>

definition on_world :: "('w, 'e, 'a) step \<Rightarrow> ('w \<times> 's, 'e, 'a) step" where
  "on_world m s = (case m (fst s) of (r, w') \<Rightarrow> (r, (w', snd s)))"

definition new_epoch :: "u64 \<Rightarrow> ('w \<times> counter_alloc, unit) io" where
  "new_epoch e s = (Ok (), (fst s, \<lparr>ca_epoch = Some e, ca_next_seq = 0\<rparr>))"

definition take_seq :: "('w \<times> counter_alloc, u64) io" where
  "take_seq s =
     (let a = snd s in
      case compose_counter (the (ca_epoch a)) (ca_next_seq a) of
        Inl e \<Rightarrow> (Inl e, s)
      | Inr c \<Rightarrow> (Ok c, (fst s, a\<lparr>ca_next_seq := ca_next_seq a + 1\<rparr>)))"

definition alloc_next :: "'w os \<Rightarrow> bytes \<Rightarrow> ('w \<times> counter_alloc, u64) io" where
  "alloc_next os work s =
     (if ca_epoch (snd s) = None \<or> ca_next_seq (snd s) \<ge> SEQ_LIMIT then
        sbind (on_world (verify_counter os)) (\<lambda>_.
        sbind (on_world (nv_increment_and_read os work)) (\<lambda>e.
        sbind (new_epoch e) (\<lambda>_.
        take_seq))) s
      else take_seq s)"

section \<open>The audit directory\<close>

definition envelope_exts :: "bytes list" where
  "envelope_exts = [lit ''msg'', lit ''attest'', lit ''sig'', lit ''tag'']"

definition stem_of_name :: "bytes \<Rightarrow> (nat \<times> bytes) option" where
  "stem_of_name n =
     (case rsplit_once 46 n of
        None \<Rightarrow> None
      | Some (stem, ext) \<Rightarrow>
          if ext \<notin> set envelope_exts then None
          else if stem = [] \<or> \<not> list_all is_digit stem then None
          else map_option (\<lambda>v. (v, stem)) (parse_u64 stem))"

definition stems_to_prune :: "bytes list \<Rightarrow> nat \<Rightarrow> bytes list" where
  "stems_to_prune names keep =
     (let stems = remdups_adj (sort (List.map_filter stem_of_name names));
          excess = length stems - keep in
      map snd (take excess stems))"

text \<open>Removal of one file where a missing one is no failure, and of all files of the stems.\<close>

definition remove_if_there :: "('w, 'h) files \<Rightarrow> bytes \<Rightarrow> ('w, unit) io" where
  "remove_if_there fs p =
     sbind (stry (f_remove fs p)) (\<lambda>r.
     case r of
       Inr _ \<Rightarrow> sret ()
     | Inl NotFound \<Rightarrow> sret ()
     | Inl e \<Rightarrow> sfail (Ctx ''remove'' (io_err e)))"

fun remove_all :: "('w, 'h) files \<Rightarrow> bytes list \<Rightarrow> ('w, unit) io" where
  "remove_all fs [] = sret ()"
| "remove_all fs (p # ps) = sbind (remove_if_there fs p) (\<lambda>_. remove_all fs ps)"

definition envelope_file :: "bytes \<Rightarrow> bytes \<Rightarrow> bytes \<Rightarrow> bytes" where
  "envelope_file out stem ext = path_join out (stem @ 46 # ext)"

definition utf8_names :: "(err + bytes) list \<Rightarrow> bytes list" where
  "utf8_names es = filter utf8_valid (List.map_filter res_ok es)"

definition prune_audit :: "('w, 'h) files \<Rightarrow> bytes \<Rightarrow> nat \<Rightarrow> ('w, nat) io" where
  "prune_audit fs out keep =
     sbind (smap_err (Ctx ''read_dir'') (f_list fs out)) (\<lambda>es.
     let stems = stems_to_prune (utf8_names es) keep in
     sbind (remove_all fs (concat (map (\<lambda>s. map (envelope_file out s) envelope_exts) stems))) (\<lambda>_.
     sret (length stems)))"

section \<open>Provisioning\<close>

definition env_or :: "'w os \<Rightarrow> bytes \<Rightarrow> bytes \<Rightarrow> bytes" where
  "env_or os key dflt = (case os_env os key of Some v \<Rightarrow> v | None \<Rightarrow> dflt)"

definition partial_err :: "bool \<Rightarrow> bool \<Rightarrow> err" where
  "partial_err have_id have_key =
     Msg ''partial provisioning state'' [Num (of_bool have_id), Num (of_bool have_key)]"

datatype status_report = Provisioned bytes bytes bytes | Unprovisioned

definition agent_status :: "hash \<Rightarrow> 'w os \<Rightarrow> ('w, 'h) files \<Rightarrow> paths \<Rightarrow> ('w, status_report) io" where
  "agent_status H os fs p =
     sbind (inspect fs p) (\<lambda>st.
     case st of
       Complete \<Rightarrow>
         sbind (read_id os p) (\<lambda>d.
         let work = env_or os (lit ''TACTIQ_WORK_DIR'') DEFAULT_WORK_DIR in
         sbind (ensure_dir fs work) (\<lambda>_.
         sbind (verify_ak H os (pubkey_path p) work) (\<lambda>_.
         sbind (sres (ak_handle os)) (\<lambda>h.
         sret (Provisioned d h (pubkey_path p))))))
     | Absent \<Rightarrow> sret Unprovisioned
     | Partial i k \<Rightarrow> sfail (partial_err i k))"

definition provision_key :: "'w os \<Rightarrow> ('w, 'h) files \<Rightarrow> paths \<Rightarrow> bytes \<Rightarrow> bytes \<Rightarrow> ('w, unit) io" where
  "provision_key os fs p work d =
     sbind (create_ak os work) (\<lambda>_.
     sbind (sres (nv_counter os)) (\<lambda>nv.
     sbind (nv_defined os nv) (\<lambda>there.
     sbind (if there then sret () else nv_define os) (\<lambda>_.
     sbind (read_ak_public os (pubkey_path p)) (\<lambda>_.
     sbind (finalize_pubkey_perms fs p) (\<lambda>_.
     sbind (sync_dir fs (keys_dir p)) (\<lambda>_.
     write_id fs p d)))))))"

definition cmd_provision :: "'w os \<Rightarrow> ('w, 'h) files \<Rightarrow> paths \<Rightarrow> bytes \<Rightarrow> bytes \<Rightarrow> ('w, unit) io" where
  "cmd_provision os fs p work d =
     sbind (sres (validate_id d)) (\<lambda>_.
     sbind (ensure_dir fs (keys_dir p)) (\<lambda>_.
     sbind (ensure_dir fs work) (\<lambda>_.
     sbind (inspect fs p) (\<lambda>st.
     case st of
       Complete \<Rightarrow> sbind (read_id os p) (\<lambda>existing. sfail (Msg ''already provisioned'' [Txt existing]))
     | Partial i k \<Rightarrow> sfail (partial_err i k)
     | Absent \<Rightarrow>
         sbind (sres (ak_handle os)) (\<lambda>akh.
         sbind (handle_exists os akh) (\<lambda>there.
         if there then sfail (Msg ''the AK handle already holds an object'' [Txt akh])
         else provision_key os fs p work d))))))"

section \<open>Publishing an envelope\<close>

definition PART :: bytes where "PART = lit ''part''"

definition is_part_name :: "bytes \<Rightarrow> bool" where
  "is_part_name n =
     (case strip_suffix (46 # PART) n of
        None \<Rightarrow> False
      | Some rest \<Rightarrow>
          (case rsplit_once 46 rest of
             None \<Rightarrow> False
           | Some (stem, ext) \<Rightarrow> ext \<in> set envelope_exts \<and> stem \<noteq> [] \<and> list_all is_digit stem))"

fun remove_matching :: "(bytes \<Rightarrow> bool) \<Rightarrow> ('w, 'h) files \<Rightarrow> bytes \<Rightarrow> (err + bytes) list \<Rightarrow> nat \<Rightarrow> ('w, nat) io" where
  "remove_matching P fs out [] n = sret n"
| "remove_matching P fs out (Inl e # es) n = sfail (Ctx ''read_dir'' e)"
| "remove_matching P fs out (Inr name # es) n =
     (if utf8_valid name \<and> P name then
        sbind (smap_err (\<lambda>e. Ctx ''remove'' (io_err e)) (f_remove fs (path_join out name))) (\<lambda>_.
        remove_matching P fs out es (n + 1))
      else remove_matching P fs out es n)"

definition remove_partials :: "('w, 'h) files \<Rightarrow> bytes \<Rightarrow> ('w, nat) io" where
  "remove_partials fs out =
     sbind (smap_err (Ctx ''read_dir'') (f_list fs out)) (\<lambda>es.
     remove_matching is_part_name fs out es 0)"

definition part_file :: "bytes \<Rightarrow> bytes \<Rightarrow> bytes \<Rightarrow> bytes" where
  "part_file out stem ext = path_join out (stem @ 46 # ext @ 46 # PART)"

fun cleanup :: "('w, 'h) files \<Rightarrow> bytes \<Rightarrow> bytes \<Rightarrow> bytes list \<Rightarrow> ('w, unit) io" where
  "cleanup fs out stem [] = sret ()"
| "cleanup fs out stem (ext # exts) =
     sbind (stry (f_remove fs (part_file out stem ext))) (\<lambda>_. cleanup fs out stem exts)"

definition stage_files ::
    "('w, 'h) files \<Rightarrow> bytes \<Rightarrow> bytes \<Rightarrow> bytes \<Rightarrow> bytes \<Rightarrow> (bytes \<Rightarrow> bytes \<Rightarrow> ('w, unit) io) \<Rightarrow> ('w, unit) io" where
  "stage_files fs out stem msg tag quote =
     sbind (write_synced fs (part_file out stem (lit ''msg'')) msg) (\<lambda>_.
     sbind (quote (part_file out stem (lit ''attest'')) (part_file out stem (lit ''sig''))) (\<lambda>_.
     sbind (sync_file fs (part_file out stem (lit ''attest''))) (\<lambda>_.
     sbind (sync_file fs (part_file out stem (lit ''sig''))) (\<lambda>_.
     write_synced fs (part_file out stem (lit ''tag'')) tag))))"

fun rename_into_place :: "('w, 'h) files \<Rightarrow> bytes \<Rightarrow> bytes \<Rightarrow> bytes list \<Rightarrow> ('w, unit) io" where
  "rename_into_place fs out stem [] = sret ()"
| "rename_into_place fs out stem (ext # exts) =
     sbind (smap_err (Ctx ''rename'') (f_rename fs (part_file out stem ext) (envelope_file out stem ext))) (\<lambda>_.
     rename_into_place fs out stem exts)"

definition publish_envelope ::
    "('w, 'h) files \<Rightarrow> bytes \<Rightarrow> bytes \<Rightarrow> bytes \<Rightarrow> bytes \<Rightarrow> (bytes \<Rightarrow> bytes \<Rightarrow> ('w, unit) io) \<Rightarrow> ('w, unit) io" where
  "publish_envelope fs out stem msg tag quote =
     sbind (stry (stage_files fs out stem msg tag quote)) (\<lambda>staged.
     case staged of
       Inl e \<Rightarrow> sbind (cleanup fs out stem envelope_exts) (\<lambda>_. sfail e)
     | Inr _ \<Rightarrow>
         sbind (rename_into_place fs out stem [lit ''msg'', lit ''attest'', lit ''sig'']) (\<lambda>_.
         sbind (sync_dir fs out) (\<lambda>_.
         sbind (rename_into_place fs out stem [lit ''tag'']) (\<lambda>_.
         sync_dir fs out))))"

section \<open>One attestation cycle\<close>

definition attest_message :: "hash \<Rightarrow> bytes \<Rightarrow> u64 \<Rightarrow> u16 \<Rightarrow> bytes \<Rightarrow> bytes \<Rightarrow> bytes" where
  "attest_message H d counter alg_id bitmap pcr_state =
     build_canonical H d counter (encode_pcr_selection alg_id bitmap) pcr_state []"

definition attest_tag :: "bytes \<Rightarrow> u64 \<Rightarrow> bytes" where
  "attest_tag d counter = d @ lit '' counter='' @ dec (unat counter) @ [10]"

definition attest_identity :: "'w os \<Rightarrow> ('w, 'h) files \<Rightarrow> paths \<Rightarrow> ('w, bytes) io" where
  "attest_identity os fs p =
     sbind (inspect fs p) (\<lambda>st.
     case st of
       Complete \<Rightarrow> read_id os p
     | Absent \<Rightarrow> sfail (Msg ''not provisioned'' [])
     | Partial i k \<Rightarrow> sfail (partial_err i k))"

definition cmd_attest ::
    "hash \<Rightarrow> 'w os \<Rightarrow> ('w, 'h) files \<Rightarrow> paths \<Rightarrow> bytes \<Rightarrow> bytes \<Rightarrow> bytes \<Rightarrow> ('w \<times> counter_alloc, u64) io" where
  "cmd_attest H os fs p work out spec =
     sbind (on_world (ensure_dir fs work)) (\<lambda>_.
     sbind (on_world (ensure_dir fs out)) (\<lambda>_.
     sbind (on_world (remove_partials fs out)) (\<lambda>_.
     sbind (on_world (attest_identity os fs p)) (\<lambda>d.
     sbind (sres (parse_pcr_spec spec)) (\<lambda>(alg_id, bitmap).
     sbind (on_world (verify_ak H os (pubkey_path p) work)) (\<lambda>_.
     sbind (alloc_next os work) (\<lambda>counter.
     sbind (on_world (pcr_read os spec work)) (\<lambda>pcr_state.
     let msg = attest_message H d counter alg_id bitmap pcr_state in
     if length msg \<noteq> MSG_LEN then sfail (Msg ''built bytes, expected'' [Num (length msg), Num MSG_LEN])
     else
     sbind (on_world (publish_envelope fs out (dec_pad 12 (unat counter)) msg (attest_tag d counter)
              (tpm_quote H os msg spec))) (\<lambda>_.
     sret counter)))))))))"

section \<open>The boot log\<close>

definition DEFAULT_BOOT_LOG :: bytes where
  "DEFAULT_BOOT_LOG = lit ''/sys/kernel/security/tpm0/binary_bios_measurements''"

definition BOOT_LOG_MAX :: nat where "BOOT_LOG_MAX = 1048576"

definition is_boot_part :: "bytes \<Rightarrow> bool" where
  "is_boot_part n \<longleftrightarrow> starts_with (lit ''boot-'') n \<and> ends_with (lit ''.bios.log.'' @ PART) n"

definition boot_log_name :: "hash \<Rightarrow> bytes \<Rightarrow> bytes" where
  "boot_log_name H data = lit ''boot-'' @ hex_lower (evidence_digest H data) @ lit ''.bios.log''"

definition store_boot_log :: "hash \<Rightarrow> ('w, 'h) files \<Rightarrow> bytes \<Rightarrow> bytes \<Rightarrow> ('w, bytes option) io" where
  "store_boot_log H fs out data =
     (let name = boot_log_name H data; dst = path_join out name in
      sbind (fexists fs dst) (\<lambda>there.
      if there then sret None
      else
        let tmp = path_join out (name @ 46 # PART) in
        sbind (write_synced fs tmp data) (\<lambda>_.
        sbind (smap_err (Ctx ''rename'') (f_rename fs tmp dst)) (\<lambda>_.
        sbind (sync_dir fs out) (\<lambda>_.
        sret (Some dst))))))"

definition save_boot_log :: "hash \<Rightarrow> ('w, 'h) files \<Rightarrow> bytes \<Rightarrow> bytes \<Rightarrow> ('w, bytes option) io" where
  "save_boot_log H fs out src =
     sbind (smap_err (Ctx ''read_dir'') (f_list fs out)) (\<lambda>es.
     sbind (remove_matching is_boot_part fs out es 0) (\<lambda>_.
     sbind (stry (f_open fs src)) (\<lambda>opened.
     case opened of
       Inl NotFound \<Rightarrow> sret None
     | Inl e \<Rightarrow> sfail (Ctx ''open'' (io_err e))
     | Inr f \<Rightarrow>
         sbind (smap_err (Ctx ''read'') (f_read fs f (BOOT_LOG_MAX + 1))) (\<lambda>data.
         if length data > BOOT_LOG_MAX then sfail (Msg ''boot log is too large'' [Txt src, Num BOOT_LOG_MAX])
         else if data = [] then sret None
         else store_boot_log H fs out data))))"

section \<open>The service\<close>

text \<open>The datagrams a notification sends: the socket and the text.\<close>

definition sd_notify :: "'w os \<Rightarrow> bytes \<Rightarrow> (bytes \<times> bytes) list" where
  "sd_notify os msg =
     (case os_env os (lit ''NOTIFY_SOCKET'') of
        None \<Rightarrow> []
      | Some sock \<Rightarrow> if starts_with (lit ''@'') sock then [] else [(sock, msg)])"

definition run_cycle ::
    "hash \<Rightarrow> 'w os \<Rightarrow> ('w, 'h) files \<Rightarrow> paths \<Rightarrow> bytes \<Rightarrow> bytes \<Rightarrow> bytes \<Rightarrow> nat \<Rightarrow> ('w \<times> counter_alloc, nat) io" where
  "run_cycle H os fs p work out spec keep =
     sbind (cmd_attest H os fs p work out spec) (\<lambda>_. on_world (prune_audit fs out keep))"

text \<open>
  The loop for at most a number of cycles: the error it ended with, or \<open>None\<close> when it still
  runs, the datagrams in order, and the state.
\<close>

fun run_loop ::
    "'w os \<Rightarrow> ('w \<times> counter_alloc, nat) io \<Rightarrow> nat \<Rightarrow> 'w \<times> counter_alloc \<Rightarrow>
     err option \<times> (bytes \<times> bytes) list \<times> 'w \<times> counter_alloc" where
  "run_loop os cyc 0 s = (None, [], s)"
| "run_loop os cyc (Suc n) s =
     (case cyc s of
        (Inr _, s') \<Rightarrow>
          (case run_loop os cyc n s' of (r, ns, t) \<Rightarrow> (r, sd_notify os (lit ''WATCHDOG=1'') @ ns, t))
      | (Inl e, s') \<Rightarrow> (Some e, sd_notify os (lit ''STATUS=attest failed: '' @ os_render os e), s'))"

definition cmd_run ::
    "hash \<Rightarrow> 'w os \<Rightarrow> ('w, 'h) files \<Rightarrow> paths \<Rightarrow> bytes \<Rightarrow> bytes \<Rightarrow> bytes \<Rightarrow> nat \<Rightarrow> nat \<Rightarrow> 'w \<Rightarrow>
     err option \<times> (bytes \<times> bytes) list \<times> 'w" where
  "cmd_run H os fs p work out spec keep cycles w =
     (case sbind (inspect fs p) (\<lambda>st.
             if st \<noteq> Complete then sfail (Msg ''cannot run'' [])
             else ensure_dir fs out) w of
        (Inl e, w') \<Rightarrow> (Some e, [], w')
      | (Inr _, w') \<Rightarrow>
          (case save_boot_log H fs out (env_or os (lit ''TACTIQ_BOOT_LOG'') DEFAULT_BOOT_LOG) w' of
             (_, w'') \<Rightarrow>
               (case run_loop os (run_cycle H os fs p work out spec keep) cycles (w'', alloc_new) of
                  (r, ns, t) \<Rightarrow> (r, sd_notify os (lit ''READY=1'') @ ns, fst t))))"

text \<open>
  \<open>main\<close>: the exit status, or \<open>None\<close> while \<open>run\<close> goes on.
\<close>

definition audit_keep :: "'w os \<Rightarrow> nat" where
  "audit_keep os =
     (case parse_u64 (env_or os (lit ''TACTIQ_AUDIT_KEEP'') (dec DEFAULT_AUDIT_KEEP)) of
        Some k \<Rightarrow> if k > 0 then k else DEFAULT_AUDIT_KEEP
      | None \<Rightarrow> DEFAULT_AUDIT_KEEP)"

definition exit_of :: "'e + 'a \<Rightarrow> nat" where
  "exit_of r = (case r of Inl _ \<Rightarrow> 1 | Inr _ \<Rightarrow> 0)"

definition agent_main ::
    "hash \<Rightarrow> 'w os \<Rightarrow> ('w, 'h) files \<Rightarrow> nat \<Rightarrow> bytes list \<Rightarrow> 'w \<Rightarrow> nat option \<times> 'w" where
  "agent_main H os fs cycles args w =
     (let cmd = (if 1 < length args then args ! 1 else lit ''help'');
          p = \<lparr>keys_dir = env_or os (lit ''TACTIQ_KEYS_DIR'') DEFAULT_KEYS_DIR\<rparr>;
          out = env_or os (lit ''TACTIQ_OUT_DIR'') DEFAULT_OUT_DIR;
          work = env_or os (lit ''TACTIQ_WORK_DIR'') DEFAULT_WORK_DIR;
          spec = env_or os (lit ''TACTIQ_PCR_SPEC'') DEFAULT_PCR_SPEC in
      if cmd = lit ''provision'' then
        (if length args \<le> 2 then (Some 2, w)
         else case cmd_provision os fs p work (args ! 2) w of (r, w') \<Rightarrow> (Some (exit_of r), w'))
      else if cmd = lit ''attest'' then
        (case cmd_attest H os fs p work out spec (w, alloc_new) of (r, s) \<Rightarrow> (Some (exit_of r), fst s))
      else if cmd = lit ''run'' then
        (case cmd_run H os fs p work out spec (audit_keep os) cycles w of
           (None, _, w') \<Rightarrow> (None, w')
         | (Some _, _, w') \<Rightarrow> (Some 1, w'))
      else if cmd = lit ''status'' then
        (case agent_status H os fs p w of (r, w') \<Rightarrow> (Some (exit_of r), w'))
      else (Some 2, w))"

end
