(* ===== verification/AgentCounter.thy ===== *)
theory AgentCounter
  imports Agent
begin

text \<open>
  The agent's counters. The TPM's NV counter is a measure of the world that only its
  increment changes; every other step of the agent keeps it. From this follow that envelope
  counters never repeat across cycles and restarts, and when a counter value is spent.
\<close>

section \<open>Steps that keep a measure\<close>

definition keeps :: "('w \<Rightarrow> 'm) \<Rightarrow> ('w, 'e, 'a) step \<Rightarrow> bool" where
  "keeps N m \<longleftrightarrow> (\<forall>w. N (snd (m w)) = N w)"

named_theorems keeps_intros \<open>steps that keep a measure of the world\<close>

lemma keepsI: "(\<And>w r w'. m w = (r, w') \<Longrightarrow> N w' = N w) \<Longrightarrow> keeps N m"
  by (metis keeps_def prod.collapse)

lemma keepsD: "keeps N m \<Longrightarrow> m w = (r, w') \<Longrightarrow> N w' = N w"
  by (metis keeps_def snd_conv)

lemma keeps_basic [keeps_intros]:
  "keeps N (sret x)" "keeps N (sfail e)" "keeps N (sres q)"
  by (simp_all add: keeps_def)

lemma keeps_sbind [keeps_intros]: "keeps N m \<Longrightarrow> (\<And>x. keeps N (f x)) \<Longrightarrow> keeps N (sbind m f)"
  by (simp add: keeps_def sbind_def split: prod.splits sum.splits) (metis snd_conv)

lemma keeps_smap_err [keeps_intros]: "keeps N m \<Longrightarrow> keeps N (smap_err f m)"
  by (simp add: keeps_def smap_err_def split: prod.splits) (metis snd_conv)

lemma keeps_stry [keeps_intros]: "keeps N m \<Longrightarrow> keeps N (stry m)"
  by (simp add: keeps_def stry_def split: prod.splits) (metis snd_conv)

lemma keeps_if [keeps_intros]: "(c \<Longrightarrow> keeps N m) \<Longrightarrow> (\<not> c \<Longrightarrow> keeps N n) \<Longrightarrow> keeps N (if c then m else n)"
  by simp

lemma keeps_Let [keeps_intros]: "(\<And>x. keeps N (f x)) \<Longrightarrow> keeps N (Let y f)"
  by simp

lemma keeps_option [keeps_intros]:
  "keeps N m \<Longrightarrow> (\<And>x. keeps N (f x)) \<Longrightarrow> keeps N (case y of None \<Rightarrow> m | Some x \<Rightarrow> f x)"
  by (cases y) auto

lemma keeps_prod [keeps_intros]: "(\<And>x z. keeps N (f x z)) \<Longrightarrow> keeps N (case y of (x, z) \<Rightarrow> f x z)"
  by (cases y) auto

lemma keeps_sum [keeps_intros]:
  "(\<And>e. keeps N (g e)) \<Longrightarrow> (\<And>x. keeps N (f x)) \<Longrightarrow> keeps N (case y of Inl e \<Rightarrow> g e | Inr x \<Rightarrow> f x)"
  by (cases y) auto

lemma keeps_io_error [keeps_intros]:
  "keeps N m \<Longrightarrow> (\<And>e. keeps N (f e)) \<Longrightarrow> keeps N (case y of NotFound \<Rightarrow> m | OtherIo e \<Rightarrow> f e)"
  by (cases y) auto

lemma keeps_provisioning [keeps_intros]:
  "keeps N m \<Longrightarrow> keeps N n \<Longrightarrow> (\<And>i k. keeps N (f i k)) \<Longrightarrow>
   keeps N (case y of Complete \<Rightarrow> m | Absent \<Rightarrow> n | Partial i k \<Rightarrow> f i k)"
  by (cases y) auto

lemma keeps_fexists [keeps_intros]: "keeps N (fexists fs p)"
  by (simp add: keeps_def fexists_def)

section \<open>The NV counter\<close>

text \<open>
  What the agent relies on: the measure \<open>N\<close> is the counter's value. Files and reads do not
  change it; of the tools only \<open>tpm2_nvincrement\<close> does, and when it succeeds the value has
  grown; \<open>tpm2_nvread\<close> puts the value, eight bytes, into the file it is given.
\<close>

definition quiet_files :: "('w, 'h) files \<Rightarrow> ('w \<Rightarrow> 'm) \<Rightarrow> bool" where
  "quiet_files fs N \<longleftrightarrow>
     (\<forall>p. keeps N (f_mkdirs fs p) \<and> keeps N (f_list fs p) \<and> keeps N (f_remove fs p) \<and> keeps N (f_open fs p)
        \<and> keeps N (f_create fs p) \<and> keeps N (f_stat fs p))
     \<and> (\<forall>a b. keeps N (f_rename fs a b)) \<and> (\<forall>p m. keeps N (f_create_new fs p m) \<and> keeps N (f_chmod fs p m))
     \<and> (\<forall>h d. keeps N (f_write fs h d)) \<and> (\<forall>h n. keeps N (f_read fs h n)) \<and> (\<forall>h. keeps N (f_fsync fs h))"

definition is_increment :: "bytes list \<Rightarrow> bool" where
  "is_increment args \<longleftrightarrow> args \<noteq> [] \<and> hd args = lit ''tpm2_nvincrement''"

definition nv_tools :: "'w os \<Rightarrow> bytes \<Rightarrow> ('w \<Rightarrow> nat) \<Rightarrow> bool" where
  "nv_tools os work N \<longleftrightarrow>
     (\<forall>args. \<not> is_increment args \<longrightarrow> keeps N (os_run os args))
     \<and> (\<forall>args w r w'. os_run os args w = (r, w') \<longrightarrow> N w \<le> N w')
     \<and> (\<forall>p. keeps N (os_read os p) \<and> keeps N (os_stat os p))
     \<and> (\<forall>nv out errs w w'. os_run os [lit ''tpm2_nvincrement'', nv, lit ''-C'', nv] w = (Inr (True, out, errs), w')
          \<longrightarrow> N w < N w')
     \<and> (\<forall>nv out errs w w1 raw w2.
          os_run os [lit ''tpm2_nvread'', nv, lit ''-C'', nv, lit ''-o'',
            utf8_lossy (path_join work (lit ''counter.bin''))] w = (Inr (True, out, errs), w1)
          \<and> os_read os (path_join work (lit ''counter.bin'')) w1 = (Inr raw, w2) \<and> length raw = 8
          \<longrightarrow> unat (un64 raw) = N w1)"

lemma keeps_run [keeps_intros]: "nv_tools os work N \<Longrightarrow> \<not> is_increment args \<Longrightarrow> keeps N (run_tool os args)"
  unfolding run_tool_def nv_tools_def by (auto intro!: keeps_intros)

lemma keeps_reads [keeps_intros]:
  "nv_tools os work N \<Longrightarrow> keeps N (os_read os p)" "nv_tools os work N \<Longrightarrow> keeps N (os_stat os p)"
  "nv_tools os work N \<Longrightarrow> keeps N (read_file os p)"
  unfolding nv_tools_def read_file_def by (auto intro!: keeps_intros)

lemma keeps_files [keeps_intros]:
  assumes "quiet_files fs N"
  shows "keeps N (f_mkdirs fs p)" "keeps N (f_list fs p)" "keeps N (f_remove fs p)" "keeps N (f_open fs p)"
    "keeps N (f_create fs p)" "keeps N (f_stat fs p)" "keeps N (f_rename fs p q)" "keeps N (f_write fs h d)"
    "keeps N (f_read fs h n)" "keeps N (f_fsync fs h)"
  using assms unfolding quiet_files_def by blast+

lemma not_increment [simp]:
  "\<not> is_increment (lit ''tpm2_getcap'' # xs)" "\<not> is_increment (lit ''tpm2_readpublic'' # xs)"
  "\<not> is_increment (lit ''tpm2_nvreadpublic'' # xs)" "\<not> is_increment (lit ''tpm2_nvread'' # xs)"
  "\<not> is_increment (lit ''tpm2_pcrread'' # xs)" "\<not> is_increment (lit ''tpm2_quote'' # xs)"
  by (simp_all add: is_increment_def lit_def)

lemma keeps_tools [keeps_intros]:
  assumes "nv_tools os work N"
  shows "keeps N (handle_exists os h)" "keeps N (read_ak_public os p)" "keeps N (verify_ak H os p wk)"
    "keeps N (verify_counter os)" "keeps N (pcr_read os spec wk)" "keeps N (tpm_quote H os msg spec a s)"
    "keeps N (read_id os ps)"
  using assms
  by (auto intro!: keeps_intros simp: handle_exists_def read_ak_public_def verify_ak_def verify_counter_def
      pcr_read_def tpm_quote_def quote_qualified_def read_id_def read_to_string_def)

lemma keeps_remove_matching [keeps_intros]:
  "quiet_files fs N \<Longrightarrow> keeps N (remove_matching P fs out es n)"
  by (induction P fs out es n rule: remove_matching.induct) (auto intro!: keeps_intros)

lemma keeps_cleanup [keeps_intros]: "quiet_files fs N \<Longrightarrow> keeps N (cleanup fs out st exts)"
  by (induction fs out st exts rule: cleanup.induct) (auto intro!: keeps_intros)

lemma keeps_renames [keeps_intros]: "quiet_files fs N \<Longrightarrow> keeps N (rename_into_place fs out st exts)"
  by (induction fs out st exts rule: rename_into_place.induct) (auto intro!: keeps_intros)

lemma keeps_disk [keeps_intros]:
  assumes "quiet_files fs N"
  shows "keeps N (sync_dir fs d)" "keeps N (ensure_dir fs d)" "keeps N (write_synced fs p x)"
    "keeps N (sync_file fs p)" "keeps N (remove_partials fs d)" "keeps N (inspect fs ps)"
  using assms
  by (auto intro!: keeps_intros simp: sync_dir_def ensure_dir_def write_synced_def sync_file_def
      remove_partials_def inspect_def)

lemma keeps_publish [keeps_intros]:
  assumes "quiet_files fs N" "\<And>a s. keeps N (q a s)"
  shows "keeps N (publish_envelope fs out st msg tag q)"
  using assms by (auto intro!: keeps_intros simp: publish_envelope_def stage_files_def)

lemma keeps_identity [keeps_intros]:
  "nv_tools os work N \<Longrightarrow> quiet_files fs N \<Longrightarrow> keeps N (attest_identity os fs p)"
  unfolding attest_identity_def by (auto intro!: keeps_intros)

lemma increment_and_read:
  assumes "nv_tools os work N" "nv_increment_and_read os work w = (Inr v, w')"
  shows "N w < unat v" "N w' = unat v"
proof -
  from assms(2) obtain nv w0 o1 e1 w1 o2 e2 w2 raw w3 where
    eqs: "w0 = w" "w' = w3" "\<not> length raw \<noteq> 8" "un64 raw = v" and
    inc0: "os_run os [lit ''tpm2_nvincrement'', nv, lit ''-C'', nv] w0 = (Inr (True, o1, e1), w1)" and
    rd: "os_run os [lit ''tpm2_nvread'', nv, lit ''-C'', nv, lit ''-o'',
            utf8_lossy (path_join work (lit ''counter.bin''))] w1 = (Inr (True, o2, e2), w2)" and
    cfile0: "os_read os (path_join work (lit ''counter.bin'')) w2 = (Inr raw, w3)"
    unfolding nv_increment_and_read_def Let_def sbind_Ok sres_Ok run_tool_Ok read_file_def smap_err_Ok
        counter_of_bytes_def if_Err_Ok sum.inject
    by (elim exE conjE) (rule that)
  note inc = inc0 [unfolded eqs(1)] and cfile = cfile0 [folded eqs(2)]
  have raw: "length raw = 8" "v = un64 raw" using eqs by simp_all
  have "N w < N w1" using assms(1) inc unfolding nv_tools_def by blast
  moreover have "keeps N (os_run os (lit ''tpm2_nvread'' # xs))" for xs
    using assms(1) not_increment(4) [of xs] unfolding nv_tools_def by blast
  then have "N w2 = N w1" using rd by (rule keepsD)
  moreover have "N w' = N w2" by (rule keepsD [OF keeps_reads(1) cfile]) (rule assms)
  moreover have "unat v = N w2"
    using assms(1) rd cfile raw unfolding nv_tools_def by blast
  ultimately show "N w < unat v" "N w' = unat v" by simp_all
qed

section \<open>Steps that never lower a measure\<close>

definition grows :: "('w \<Rightarrow> nat) \<Rightarrow> ('w, 'e, 'a) step \<Rightarrow> bool" where
  "grows N m \<longleftrightarrow> (\<forall>w. N w \<le> N (snd (m w)))"

lemma growsD: "grows N m \<Longrightarrow> m w = (r, w') \<Longrightarrow> N w \<le> N w'"
  by (metis grows_def snd_conv)

lemma keeps_grows: "keeps N m \<Longrightarrow> grows N m"
  by (simp add: keeps_def grows_def)

lemma grows_sbind: "grows N m \<Longrightarrow> (\<And>x. grows N (f x)) \<Longrightarrow> grows N (sbind m f)"
  by (simp add: grows_def sbind_def split: prod.splits sum.splits) (metis snd_conv order_trans)

lemma grows_smap_err: "grows N m \<Longrightarrow> grows N (smap_err f m)"
  by (simp add: grows_def smap_err_def split: prod.splits) (metis snd_conv)

lemma grows_run: "nv_tools os work N \<Longrightarrow> grows N (run_tool os args)"
proof -
  assume t: "nv_tools os work N"
  have "grows N (os_run os args)"
    unfolding grows_def
  proof
    fix w
    have "os_run os args w = (fst (os_run os args w), snd (os_run os args w))" by simp
    then show "N w \<le> N (snd (os_run os args w))" using t unfolding nv_tools_def by blast
  qed
  then show ?thesis
    unfolding run_tool_def
    by (intro grows_sbind grows_smap_err keeps_grows [OF keeps_prod] keeps_grows [OF keeps_if]) (auto intro!: keeps_grows keeps_intros)
qed

lemma grows_increment_and_read: "nv_tools os work N \<Longrightarrow> grows N (nv_increment_and_read os work)"
  unfolding nv_increment_and_read_def Let_def
  by (intro grows_sbind grows_run keeps_grows [OF keeps_basic(3)] keeps_grows [OF keeps_reads(3)])

section \<open>Handing out counters\<close>

lemma unat_seq_limit: "unat SEQ_LIMIT = 2 ^ 24"
  by (simp add: SEQ_LIMIT_def)

lemma compose_counter_iff:
  "compose_counter e s = Ok c \<longleftrightarrow>
   unat s < 2 ^ 24 \<and> unat e < 2 ^ 40 \<and> unat c = unat e * 2 ^ 24 + unat s"
proof -
  have l: "s < SEQ_LIMIT \<longleftrightarrow> unat s < 2 ^ 24" "e < push_bit (64 - SEQ_BITS) 1 \<longleftrightarrow> unat e < 2 ^ 40"
    by (simp_all add: word_less_nat_alt unat_seq_limit)
  have v: "unat (push_bit SEQ_BITS e OR s) = unat e * 2 ^ 24 + unat s"
    if "unat s < 2 ^ 24" "unat e < 2 ^ 40"
  proof -
    have "push_bit 24 e AND s = 0"
    proof (rule bit_word_eqI)
      fix n assume "n < LENGTH(64)"
      have "\<not> bit s n" if "24 \<le> n"
      proof -
        have "unat s < 2 ^ n" using \<open>unat s < 2 ^ 24\<close> that
          by (meson less_le_trans one_le_numeral power_increasing)
        then have "\<not> bit (unat s) n" by (simp add: bit_iff_odd)
        then show ?thesis by (simp add: bit_unsigned_iff)
      qed
      then show "bit (push_bit 24 e AND s) n = bit 0 n" by (auto simp: bit_simps)
    qed
    then have "push_bit 24 e OR s = push_bit 24 e + s" by (rule disjunctive_add_eq_or [symmetric])
    moreover have "unat (push_bit 24 e) = unat e * 2 ^ 24"
      using that(2) by (simp add: push_bit_eq_mult unat_word_ariths)
    moreover have "unat e * 2 ^ 24 + unat s < 2 ^ 64" using that by simp
    ultimately show ?thesis by (simp add: unat_word_ariths)
  qed
  have "compose_counter e s = Ok c \<longleftrightarrow>
      s < SEQ_LIMIT \<and> e < push_bit (64 - SEQ_BITS) 1 \<and> push_bit SEQ_BITS e OR s = c"
    by (simp only: compose_counter_def if_Err_Ok sum.inject not_le)
  then show ?thesis
    unfolding l unat_inject [symmetric, of _ c] using v by metis
qed

section \<open>The allocator's invariant\<close>

text \<open>
  \<open>cs\<close> are the counters handed out so far, by this process and the ones before it, latest
  first.
\<close>

definition alloc_inv :: "('w \<Rightarrow> nat) \<Rightarrow> 'w \<times> counter_alloc \<Rightarrow> u64 list \<Rightarrow> bool" where
  "alloc_inv N s cs \<longleftrightarrow>
     sorted_wrt (>) cs
     \<and> (\<forall>c \<in> set cs. unat c < (N (fst s) + 1) * 2 ^ 24)
     \<and> (\<forall>e. ca_epoch (snd s) = Some e \<longrightarrow> unat e \<le> N (fst s)
          \<and> (\<forall>c \<in> set cs. unat c < unat e * 2 ^ 24 + unat (ca_next_seq (snd s))))"

lemma alloc_inv_new: "alloc_inv N s cs \<Longrightarrow> alloc_inv N (fst s, alloc_new) cs"
  by (simp add: alloc_inv_def alloc_new_def)

lemma alloc_inv_grows:
  assumes "alloc_inv N (w, a) cs" "N w \<le> N w'"
  shows "alloc_inv N (w', a) cs"
proof -
  have "(N w + 1) * 2 ^ 24 \<le> (N w' + 1) * (2 ^ 24 :: nat)" using assms(2) by simp
  with assms show ?thesis unfolding alloc_inv_def by fastforce
qed

lemma take_seq_inv:
  assumes "alloc_inv N s cs" "ca_epoch (snd s) = Some e" "take_seq s = (r, s')"
  shows "fst s' = fst s"
    and "case r of Inl _ \<Rightarrow> alloc_inv N s' cs | Inr c \<Rightarrow> alloc_inv N s' (c # cs)"
proof -
  show "fst s' = fst s"
    using assms(3) by (auto simp: take_seq_def Let_def split: sum.splits)
  show "case r of Inl _ \<Rightarrow> alloc_inv N s' cs | Inr c \<Rightarrow> alloc_inv N s' (c # cs)"
  proof (cases r)
    case (Inl x)
    then show ?thesis using assms by (auto simp: take_seq_def Let_def split: sum.splits)
  next
    case (Inr c)
    let ?n = "ca_next_seq (snd s)"
    have c: "compose_counter e ?n = Ok c" and s': "s' = (fst s, (snd s)\<lparr>ca_next_seq := ?n + 1\<rparr>)"
      using assms(2,3) Inr by (auto simp: take_seq_def Let_def split: sum.splits)
    from c have v: "unat ?n < 2 ^ 24" "unat c = unat e * 2 ^ 24 + unat ?n"
      by (simp_all add: compose_counter_iff)
    have next1: "unat (?n + 1) = unat ?n + 1" using v(1) by (simp add: unat_word_ariths)
    have e: "unat e \<le> N (fst s)" "\<forall>c' \<in> set cs. unat c' < unat c"
      using assms(1,2) by (auto simp: alloc_inv_def v(2))
    have "unat e * 2 ^ 24 + unat ?n < (unat e + 1) * 2 ^ 24" using v(1) by simp
    also have "\<dots> \<le> (N (fst s) + 1) * 2 ^ 24" using e(1) by simp
    finally have "unat c < (N (fst s) + 1) * 2 ^ 24" by (simp add: v(2))
    then have "alloc_inv N s' (c # cs)"
      using assms(1,2) e next1 v(2) by (auto simp: alloc_inv_def s' word_less_nat_alt)
    then show ?thesis using Inr by simp
  qed
qed

lemma alloc_next_inv:
  assumes "nv_tools os work N" "alloc_inv N s cs" "alloc_next os work s = (r, s')"
  shows "case r of Inl _ \<Rightarrow> alloc_inv N s' cs | Inr c \<Rightarrow> alloc_inv N s' (c # cs)"
proof (cases "ca_epoch (snd s) = None \<or> ca_next_seq (snd s) \<ge> SEQ_LIMIT")
  case False
  then obtain e where "ca_epoch (snd s) = Some e" by auto
  moreover have "take_seq s = (r, s')" using False assms(3) by (auto simp: alloc_next_def)
  ultimately show ?thesis using take_seq_inv(2) [OF assms(2)] by simp
next
  case True
  obtain w a where s: "s = (w, a)" by fastforce
  obtain v w1 where v: "verify_counter os w = (v, w1)" by fastforce
  have w1: "N w1 = N w" by (rule keepsD [OF keeps_tools(4) v]) (rule assms(1))
  show ?thesis
  proof (cases v)
    case (Inl x)
    then show ?thesis
      using True assms(3) v w1 alloc_inv_grows [of N w a cs w1] assms(2)
      by (auto simp: alloc_next_def s on_world_def sbind_def)
  next
    case (Inr u)
    obtain q w2 where q: "nv_increment_and_read os work w1 = (q, w2)" by fastforce
    have w2: "N w1 \<le> N w2" by (rule growsD [OF grows_increment_and_read q]) (rule assms(1))
    show ?thesis
    proof (cases q)
      case (Inl x)
      then show ?thesis
        using True assms(3) v Inr q w1 w2 alloc_inv_grows [of N w a cs w2] assms(2)
        by (auto simp: alloc_next_def s on_world_def sbind_def)
    next
      case e: (Inr e)
      have ne: "N w1 < unat e" "N w2 = unat e"
        using increment_and_read [OF assms(1) q [unfolded e]] by simp_all
      let ?s = "(w2, \<lparr>ca_epoch = Some e, ca_next_seq = 0\<rparr>)"
      have t: "take_seq ?s = (r, s')"
        using True assms(3) v Inr q e by (simp add: alloc_next_def s on_world_def sbind_def new_epoch_def)
      have "(N w + 1) * 2 ^ 24 \<le> unat e * (2 ^ 24 :: nat)" using ne w1 by simp
      then have "alloc_inv N ?s cs"
        using assms(2) ne unfolding alloc_inv_def s by fastforce
      then show ?thesis using take_seq_inv(2) [OF _ _ t] by simp
    qed
  qed
qed

section \<open>One cycle\<close>

lemma sbind_run:
  assumes "sbind m f s = (r, s')"
  obtains (fail) e where "m s = (Inl e, s')" "r = Inl e"
    | (step) x s1 where "m s = (Inr x, s1)" "f x s1 = (r, s')"
  using assms by (auto simp: sbind_def split: prod.splits sum.splits)

lemma keeps_on_world: "keeps N m \<Longrightarrow> keeps (\<lambda>s. (N (fst s), snd s)) (on_world m)"
  by (simp add: keeps_def on_world_def split: prod.splits) (metis snd_conv)

text \<open>
  What a cycle does before it takes a counter, and after: only taking one moves the counter.
\<close>

definition cycle_ready ::
    "hash \<Rightarrow> 'w os \<Rightarrow> ('w, 'h) files \<Rightarrow> paths \<Rightarrow> bytes \<Rightarrow> bytes \<Rightarrow> bytes \<Rightarrow> ('w \<times> counter_alloc, bytes \<times> u16 \<times> bytes) io" where
  "cycle_ready H os fs p work out spec =
     sbind (on_world (ensure_dir fs work)) (\<lambda>_.
     sbind (on_world (ensure_dir fs out)) (\<lambda>_.
     sbind (on_world (remove_partials fs out)) (\<lambda>_.
     sbind (on_world (attest_identity os fs p)) (\<lambda>d.
     sbind (sres (parse_pcr_spec spec)) (\<lambda>(alg_id, bitmap).
     sbind (on_world (verify_ak H os (pubkey_path p) work)) (\<lambda>_.
     sret (d, alg_id, bitmap)))))))"

definition cycle_rest ::
    "hash \<Rightarrow> 'w os \<Rightarrow> ('w, 'h) files \<Rightarrow> bytes \<Rightarrow> bytes \<Rightarrow> bytes \<Rightarrow> bytes \<times> u16 \<times> bytes \<Rightarrow> u64 \<Rightarrow> ('w \<times> counter_alloc, u64) io" where
  "cycle_rest H os fs work out spec sel = (\<lambda>counter. case sel of (d, alg_id, bitmap) \<Rightarrow>
     sbind (on_world (pcr_read os spec work)) (\<lambda>pcr_state.
     let msg = attest_message H d counter alg_id bitmap pcr_state in
     if length msg \<noteq> MSG_LEN then sfail (Msg ''built bytes, expected'' [Num (length msg), Num MSG_LEN])
     else
     sbind (on_world (publish_envelope fs out (dec_pad 12 (unat counter)) msg (attest_tag d counter)
              (tpm_quote H os msg spec))) (\<lambda>_.
     sret counter)))"

lemma cmd_attest_split:
  "cmd_attest H os fs p work out spec =
     sbind (cycle_ready H os fs p work out spec) (\<lambda>sel.
     sbind (alloc_next os work) (cycle_rest H os fs work out spec sel))"
  by (simp add: cmd_attest_def cycle_ready_def cycle_rest_def sbind_assoc case_prod_unfold Let_def
      cong del: if_weak_cong)

lemma keeps_cycle:
  assumes "nv_tools os work N" "quiet_files fs N"
  shows "keeps (\<lambda>s. (N (fst s), snd s)) (cycle_ready H os fs p work out spec)"
    and "keeps (\<lambda>s. (N (fst s), snd s)) (cycle_rest H os fs work out spec sel c)"
  unfolding cycle_ready_def cycle_rest_def
  by (auto intro!: keeps_intros keeps_on_world assms)

lemma cmd_attest_inv:
  assumes "nv_tools os work N" "quiet_files fs N" "alloc_inv N s cs"
    "cmd_attest H os fs p work out spec s = (r, s')"
  shows "case r of Inl _ \<Rightarrow> \<exists>new. length new \<le> 1 \<and> alloc_inv N s' (new @ cs) | Inr c \<Rightarrow> alloc_inv N s' (c # cs)"
proof -
  have same: "alloc_inv N s2 xs" if "alloc_inv N s1 xs" "(N (fst s2), snd s2) = (N (fst s1), snd s1)" for s1 s2 xs
    using that by (simp add: alloc_inv_def)
  from assms(4) [unfolded cmd_attest_split] show ?thesis
  proof (cases rule: sbind_run)
    case (fail e)
    then have "alloc_inv N s' cs" using same [OF assms(3)] keepsD [OF keeps_cycle(1) [OF assms(1,2)]] by blast
    then show ?thesis using fail(2) by (auto intro: exI [of _ "[]"])
  next
    case (step sel s1)
    have s1: "alloc_inv N s1 cs" using same [OF assms(3)] keepsD [OF keeps_cycle(1) [OF assms(1,2)] step(1)] by blast
    from step(2) show ?thesis
    proof (cases rule: sbind_run)
      case (fail e)
      then have "alloc_inv N s' cs" using alloc_next_inv [OF assms(1) s1 fail(1)] by simp
      then show ?thesis using fail(2) by (auto intro: exI [of _ "[]"])
    next
      case c: (step c s2)
      have s2: "alloc_inv N s2 (c # cs)" using alloc_next_inv [OF assms(1) s1 c(1)] by simp
      then have s': "alloc_inv N s' (c # cs)"
        using same keepsD [OF keeps_cycle(2) [OF assms(1,2)] c(2)] by blast
      show ?thesis
      proof (cases r)
        case (Inr c')
        then have "c' = c" using c(2)
          by (auto simp: cycle_rest_def sbind_Ok Let_def split: prod.splits if_splits)
        then show ?thesis using s' Inr by simp
      qed (use s' in \<open>auto intro!: exI [of _ "[c]"]\<close>)
    qed
  qed
qed

end
