(* ===== verification/CrashDisk.thy ===== *)
theory CrashDisk
  imports Agent "HOL-Library.AList" "HOL-Library.Sublist"
begin

text \<open>
  A disk that can lose power. The agent's file operations act on a cache: file contents with
  a flag that says whether the medium has them, and one directory with the operations on it
  that the medium may not have yet. Any operation may fail; a power cut is the case where all
  operations from some point on fail. After a cut any of the pending directory operations may
  be missing, and a file not synced since its last write may hold anything. This is the world
  in which publication is shown to be crash safe; it is not part of the sources.
\<close>

section \<open>The disk\<close>

datatype dirop = Link bytes nat | Unlink bytes | Move bytes bytes nat

record disk =
  k_live :: "(bytes \<times> nat) list"
  k_safe :: "(bytes \<times> nat) list"
  k_pending :: "dirop list"
  k_data :: "nat \<Rightarrow> bytes"
  k_synced :: "nat \<Rightarrow> bool"
  k_next :: nat
  k_ops :: nat
  k_fate :: "nat \<Rightarrow> bool"

datatype disk_handle = HDir | HFile nat

fun apply_op :: "dirop \<Rightarrow> (bytes \<times> nat) list \<Rightarrow> (bytes \<times> nat) list" where
  "apply_op (Link n i) d = AList.update n i d"
| "apply_op (Unlink n) d = AList.delete n d"
| "apply_op (Move a b i) d = AList.update b i (AList.delete a d)"

definition crash_dirs :: "disk \<Rightarrow> (bytes \<times> nat) list list" where
  "crash_dirs k = map (\<lambda>ops. fold apply_op ops (k_safe k)) (subseqs (k_pending k))"

definition durable :: "disk \<Rightarrow> nat \<Rightarrow> bytes \<Rightarrow> bool" where
  "durable k i c \<longleftrightarrow> k_synced k i \<and> k_data k i = c"

text \<open>One operation: it happens, or it fails and nothing happens.\<close>

definition attempt :: "'e \<Rightarrow> (disk, 'e, 'a) step \<Rightarrow> (disk, 'e, 'a) step" where
  "attempt e m k =
     (let k' = k\<lparr>k_ops := k_ops k + 1\<rparr> in
      if k_fate k (k_ops k) then m k' else (Inl e, k'))"

abbreviation io_fail :: err where "io_fail \<equiv> Msg ''Input/output error'' []"

definition dir_step :: "dirop \<Rightarrow> disk \<Rightarrow> disk" where
  "dir_step op k = k\<lparr>k_live := apply_op op (k_live k), k_pending := k_pending k @ [op]\<rparr>"

definition disk_remove :: "bytes \<Rightarrow> (disk, io_error, unit) step" where
  "disk_remove p = attempt (OtherIo io_fail) (\<lambda>k.
     if map_of (k_live k) p = None then (Inl NotFound, k) else (Ok (), dir_step (Unlink p) k))"

definition disk_rename :: "bytes \<Rightarrow> bytes \<Rightarrow> (disk, unit) io" where
  "disk_rename a b = attempt io_fail (\<lambda>k.
     case map_of (k_live k) a of None \<Rightarrow> (Inl (io_err NotFound), k) | Some i \<Rightarrow> (Ok (), dir_step (Move a b i) k))"

definition disk_open :: "bytes \<Rightarrow> bytes \<Rightarrow> (disk, io_error, disk_handle) step" where
  "disk_open out p = attempt (OtherIo io_fail) (\<lambda>k.
     if p = out then (Ok HDir, k)
     else case map_of (k_live k) p of None \<Rightarrow> (Inl NotFound, k) | Some i \<Rightarrow> (Ok (HFile i), k))"

definition disk_create :: "bytes \<Rightarrow> (disk, disk_handle) io" where
  "disk_create p = attempt io_fail (\<lambda>k.
     case map_of (k_live k) p of
       Some i \<Rightarrow> (Ok (HFile i), k\<lparr>k_data := (k_data k)(i := []), k_synced := (k_synced k)(i := False)\<rparr>)
     | None \<Rightarrow>
         (let i = k_next k in
          (Ok (HFile i), (dir_step (Link p i) k)\<lparr>k_data := (k_data k)(i := []),
             k_synced := (k_synced k)(i := False), k_next := i + 1\<rparr>)))"

definition disk_write :: "disk_handle \<Rightarrow> bytes \<Rightarrow> (disk, unit) io" where
  "disk_write h d = attempt io_fail (\<lambda>k.
     case h of
       HDir \<Rightarrow> (Inl io_fail, k)
     | HFile i \<Rightarrow> (Ok (), k\<lparr>k_data := (k_data k)(i := k_data k i @ d), k_synced := (k_synced k)(i := False)\<rparr>))"

definition disk_fsync :: "disk_handle \<Rightarrow> (disk, unit) io" where
  "disk_fsync h = attempt io_fail (\<lambda>k.
     case h of
       HDir \<Rightarrow> (Ok (), k\<lparr>k_safe := k_live k, k_pending := []\<rparr>)
     | HFile i \<Rightarrow> (Ok (), k\<lparr>k_synced := (k_synced k)(i := True)\<rparr>))"

definition disk_files :: "bytes \<Rightarrow> (disk, disk_handle) files" where
  "disk_files out =
     \<lparr>f_exists = (\<lambda>p k. p = out \<or> map_of (k_live k) p \<noteq> None),
      f_mkdirs = (\<lambda>_. attempt io_fail (sret ())),
      f_list = (\<lambda>p. attempt io_fail (\<lambda>k.
         (Ok (map (\<lambda>(n, _). Ok (drop (length (path_join out [])) n)) (k_live k)), k))),
      f_remove = disk_remove,
      f_rename = disk_rename,
      f_open = disk_open out,
      f_create = disk_create,
      f_create_new = (\<lambda>p mode k. if map_of (k_live k) p \<noteq> None then (Inl (Msg ''File exists'' []), k)
         else disk_create p k),
      f_write = disk_write,
      f_read = (\<lambda>h n. attempt io_fail (\<lambda>k.
         case h of HDir \<Rightarrow> (Inl io_fail, k) | HFile i \<Rightarrow> (Ok (take n (k_data k i)), k))),
      f_fsync = disk_fsync,
      f_stat = (\<lambda>p. attempt io_fail (sret ())),
      f_chmod = (\<lambda>p m. attempt io_fail (sret ()))\<rparr>"

lemma disk_files_simps [simp]:
  "f_remove (disk_files out) = disk_remove" "f_rename (disk_files out) = disk_rename"
  "f_open (disk_files out) = disk_open out" "f_create (disk_files out) = disk_create"
  "f_write (disk_files out) = disk_write" "f_fsync (disk_files out) = disk_fsync"
  by (simp_all add: disk_files_def)

text \<open>The quoting tool: it writes the attestation and the signature and syncs neither.\<close>

definition disk_quote :: "bytes \<Rightarrow> bytes \<Rightarrow> bytes \<Rightarrow> bytes \<Rightarrow> (disk, unit) io" where
  "disk_quote a s attest sig =
     sbind (disk_create attest) (\<lambda>f.
     sbind (disk_write f a) (\<lambda>_.
     sbind (disk_create sig) (\<lambda>g.
     disk_write g s)))"

section \<open>Triples\<close>

text \<open>A precondition, the postcondition of a success and the one of a failure.\<close>

definition triple :: "('w \<Rightarrow> bool) \<Rightarrow> ('w, 'e, 'a) step \<Rightarrow> ('a \<Rightarrow> 'w \<Rightarrow> bool) \<Rightarrow> ('w \<Rightarrow> bool) \<Rightarrow> bool" where
  "triple P m Q E \<longleftrightarrow> (\<forall>k r k'. P k \<and> m k = (r, k') \<longrightarrow> (case r of Inl _ \<Rightarrow> E k' | Inr x \<Rightarrow> Q x k'))"

lemma tripleI:
  "(\<And>k x k'. P k \<Longrightarrow> m k = (Inr x, k') \<Longrightarrow> Q x k') \<Longrightarrow>
   (\<And>k e k'. P k \<Longrightarrow> m k = (Inl e, k') \<Longrightarrow> E k') \<Longrightarrow> triple P m Q E"
  by (auto simp: triple_def split: sum.splits)

lemma tripleD:
  "triple P m Q E \<Longrightarrow> P k \<Longrightarrow> m k = (Inr x, k') \<Longrightarrow> Q x k'"
  "triple P m Q E \<Longrightarrow> P k \<Longrightarrow> m k = (Inl e, k') \<Longrightarrow> E k'"
  by (fastforce simp: triple_def)+

lemma triple_sbind:
  "triple P m R E \<Longrightarrow> (\<And>x. triple (R x) (f x) Q E) \<Longrightarrow> triple P (sbind m f) Q E"
  by (rule tripleI) (fastforce simp: sbind_Ok sbind_Err dest: tripleD)+

lemma triple_smap_err: "triple P m Q E \<Longrightarrow> triple P (smap_err f m) Q E"
  by (rule tripleI) (fastforce simp: smap_err_Ok smap_err_Err dest: tripleD)+

lemma triple_stry:
  "triple P m Q E' \<Longrightarrow> triple P (stry m) (\<lambda>r k. case r of Inl _ \<Rightarrow> E' k | Inr x \<Rightarrow> Q x k) E"
  by (rule tripleI) (auto simp: stry_Ok dest: tripleD split: sum.splits)

lemma triple_weaken:
  "triple P m Q E \<Longrightarrow> (\<And>k. P' k \<Longrightarrow> P k) \<Longrightarrow> (\<And>x k. Q x k \<Longrightarrow> Q' x k) \<Longrightarrow> (\<And>k. E k \<Longrightarrow> E' k) \<Longrightarrow> triple P' m Q' E'"
  by (fastforce simp: triple_def split: sum.splits)

lemma triple_sret: "(\<And>k. P k \<Longrightarrow> Q x k) \<Longrightarrow> triple P (sret x) Q E"
  by (simp add: triple_def)

lemma triple_sfail: "(\<And>k. P k \<Longrightarrow> E k) \<Longrightarrow> triple P (sfail e) Q E"
  by (simp add: triple_def)

lemma triple_attempt:
  assumes "\<And>k. P k \<Longrightarrow> P' (k\<lparr>k_ops := k_ops k + 1\<rparr>)" "\<And>k. P' k \<Longrightarrow> E k" "triple P' m Q E"
  shows "triple P (attempt e m) Q E"
proof (rule tripleI)
  fix k x k' assume "P k" "attempt e m k = (Inr x, k')"
  then show "Q x k'"
    using tripleD(1) [OF assms(3) assms(1)] by (auto simp: attempt_def Let_def split: if_splits)
next
  fix k f k' assume "P k" "attempt e m k = (Inl f, k')"
  then show "E k'"
    using tripleD(2) [OF assms(3) assms(1)] assms(2) [OF assms(1)]
    by (auto simp: attempt_def Let_def split: if_splits)
qed

end
