(* ===== verification/AgentCrash.thy ===== *)
theory AgentCrash
  imports CrashDisk
begin

text \<open>
  Publication of an envelope on a disk that can lose power: what the directory can hold after
  a cut at any point. The proof follows the two phases of \<open>publish_envelope\<close>: while the files
  are staged no envelope name exists anywhere, and the renames only ever give envelope names
  to files the medium holds in full.
\<close>

section \<open>Names\<close>

lemma path_join_append: "path_join p n = path_join p [] @ n"
  by (simp add: path_join_def)

lemma path_join_eq [simp]: "path_join p m = path_join p n \<longleftrightarrow> m = n"
  by (subst (1 2) path_join_append) simp

lemma path_join_not_dir: "n \<noteq> [] \<Longrightarrow> path_join p n \<noteq> p"
  by (simp add: path_join_def)

lemma file_not_dir [simp]: "part_file out st e \<noteq> out" "envelope_file out st e \<noteq> out"
  by (simp_all add: part_file_def envelope_file_def path_join_not_dir)

lemma part_file_eq [simp]: "part_file out st e = part_file out st e' \<longleftrightarrow> e = e'"
  by (simp add: part_file_def)

lemma envelope_file_eq [simp]: "envelope_file out st e = envelope_file out st e' \<longleftrightarrow> e = e'"
  by (simp add: envelope_file_def)

lemma exts_no_dot: "e \<in> set envelope_exts \<Longrightarrow> 46 \<notin> set e"
  by (auto simp: envelope_exts_def lit_def)

lemma part_not_envelope [simp]:
  "e' \<in> set envelope_exts \<Longrightarrow> part_file out st e \<noteq> envelope_file out st e'"
  "e' \<in> set envelope_exts \<Longrightarrow> envelope_file out st e' \<noteq> part_file out st e"
  using exts_no_dot [of e'] by (auto simp: part_file_def envelope_file_def)

lemma exts_distinct [simp]:
  "lit ''msg'' \<in> set envelope_exts" "lit ''attest'' \<in> set envelope_exts"
  "lit ''sig'' \<in> set envelope_exts" "lit ''tag'' \<in> set envelope_exts"
  "lit ''msg'' \<noteq> lit ''attest''" "lit ''msg'' \<noteq> lit ''sig''" "lit ''msg'' \<noteq> lit ''tag''"
  "lit ''attest'' \<noteq> lit ''sig''" "lit ''attest'' \<noteq> lit ''tag''" "lit ''sig'' \<noteq> lit ''tag''"
  "lit ''attest'' \<noteq> lit ''msg''" "lit ''sig'' \<noteq> lit ''msg''" "lit ''tag'' \<noteq> lit ''msg''"
  "lit ''sig'' \<noteq> lit ''attest''" "lit ''tag'' \<noteq> lit ''attest''" "lit ''tag'' \<noteq> lit ''sig''"
  by (simp_all add: envelope_exts_def lit_def)

section \<open>What a cut can leave\<close>

fun puts :: "dirop \<Rightarrow> bytes \<Rightarrow> nat option" where
  "puts (Link n i) m = (if m = n then Some i else None)"
| "puts (Unlink n) m = None"
| "puts (Move a b i) m = (if m = b then Some i else None)"

fun touches :: "dirop \<Rightarrow> bytes \<Rightarrow> bool" where
  "touches (Link n i) m = (m = n)"
| "touches (Unlink n) m = (m = n)"
| "touches (Move a b i) m = (m = a \<or> m = b)"

lemma apply_op_lookup: "map_of (apply_op op d) m = Some i \<Longrightarrow> map_of d m = Some i \<or> puts op m = Some i"
  by (cases op) (auto simp: update_conv delete_conv split: if_splits)

lemma apply_op_untouched: "\<not> touches op m \<Longrightarrow> map_of (apply_op op d) m = map_of d m"
  by (cases op) (auto simp: update_conv delete_conv)

lemma fold_op_lookup:
  "map_of (fold apply_op ops d) m = Some i \<Longrightarrow> map_of d m = Some i \<or> (\<exists>op \<in> set ops. puts op m = Some i)"
  by (induction ops arbitrary: d) (auto dest: apply_op_lookup)

lemma fold_op_untouched:
  "list_all (\<lambda>op. \<not> touches op m) ops \<Longrightarrow> map_of (fold apply_op ops d) m = map_of d m"
  by (induction ops arbitrary: d) (auto simp: apply_op_untouched)

lemma subseqs_subset: "ops \<in> set (subseqs xs) \<Longrightarrow> set ops \<subseteq> set xs"
  using subseqs_powset [of xs] by blast

lemma crash_lookup:
  "d \<in> set (crash_dirs k) \<Longrightarrow> map_of d m = Some i \<Longrightarrow>
   map_of (k_safe k) m = Some i \<or> (\<exists>op \<in> set (k_pending k). puts op m = Some i)"
  by (fastforce simp: crash_dirs_def dest: fold_op_lookup subseqs_subset)

lemma crash_untouched:
  "d \<in> set (crash_dirs k) \<Longrightarrow> list_all (\<lambda>op. \<not> touches op m) (k_pending k) \<Longrightarrow>
   map_of d m = map_of (k_safe k) m"
  unfolding crash_dirs_def using subseqs_subset [of _ "k_pending k"]
  by (clarsimp simp only: set_map image_iff) (rule fold_op_untouched, auto simp: list_all_iff)

section \<open>The invariants\<close>

text \<open>\<open>c\<close> gives the content that belongs under each extension.\<close>

definition whole :: "bytes \<Rightarrow> bytes \<Rightarrow> (bytes \<Rightarrow> bytes) \<Rightarrow> disk \<Rightarrow> bool" where
  "whole out st c k \<longleftrightarrow> (\<forall>e i. e \<in> set envelope_exts \<longrightarrow>
     (map_of (k_live k) (envelope_file out st e) = Some i
      \<or> map_of (k_safe k) (envelope_file out st e) = Some i
      \<or> (\<exists>op \<in> set (k_pending k). puts op (envelope_file out st e) = Some i)) \<longrightarrow> durable k i (c e))"

definition nowhere :: "bytes \<Rightarrow> disk \<Rightarrow> bool" where
  "nowhere n k \<longleftrightarrow> map_of (k_live k) n = None \<and> map_of (k_safe k) n = None
     \<and> (\<forall>op \<in> set (k_pending k). puts op n = None)"

definition settled :: "bytes \<Rightarrow> disk \<Rightarrow> bool" where
  "settled n k \<longleftrightarrow> map_of (k_live k) n \<noteq> None \<and> map_of (k_safe k) n \<noteq> None
     \<and> list_all (\<lambda>op. \<not> touches op n) (k_pending k)"

abbreviation body_exts :: "bytes list" where
  "body_exts \<equiv> [lit ''msg'', lit ''attest'', lit ''sig'']"

lemma exts_split: "set envelope_exts = insert (lit ''tag'') (set body_exts)"
  by (auto simp: envelope_exts_def)

definition crash_ok :: "bytes \<Rightarrow> bytes \<Rightarrow> (bytes \<Rightarrow> bytes) \<Rightarrow> disk \<Rightarrow> bool" where
  "crash_ok out st c k \<longleftrightarrow> whole out st c k
     \<and> (nowhere (envelope_file out st (lit ''tag'')) k
        \<or> (\<forall>e \<in> set body_exts. settled (envelope_file out st e) k))"

text \<open>While staging: no envelope name of the stem anywhere, inodes below the next one.\<close>

definition unpublished :: "bytes \<Rightarrow> bytes \<Rightarrow> disk \<Rightarrow> bool" where
  "unpublished out st k \<longleftrightarrow> (\<forall>e \<in> set envelope_exts. nowhere (envelope_file out st e) k)
     \<and> (\<forall>n i. map_of (k_live k) n = Some i \<longrightarrow> i < k_next k)"

datatype progress = Gone | Dirty | Done

definition part_ok :: "bytes \<Rightarrow> bytes \<Rightarrow> (bytes \<Rightarrow> bytes) \<Rightarrow> nat option \<Rightarrow> disk \<Rightarrow> progress \<Rightarrow> bytes \<Rightarrow> bool" where
  "part_ok out st c j k s e = (case s of
      Gone \<Rightarrow> map_of (k_live k) (part_file out st e) = None
    | Dirty \<Rightarrow> (\<exists>i. map_of (k_live k) (part_file out st e) = Some i \<and> j \<noteq> Some i \<and> k_data k i = c e)
    | Done \<Rightarrow> (\<exists>i. map_of (k_live k) (part_file out st e) = Some i \<and> j \<noteq> Some i \<and> durable k i (c e)))"

definition staged :: "bytes \<Rightarrow> bytes \<Rightarrow> (bytes \<Rightarrow> bytes) \<Rightarrow> (bytes \<Rightarrow> progress) \<Rightarrow> disk \<Rightarrow> bool" where
  "staged out st c f k \<longleftrightarrow> unpublished out st k \<and> (\<forall>e \<in> set envelope_exts. part_ok out st c None k (f e) e)"

text \<open>File \<open>e\<close> is open for writing as inode \<open>i\<close>, which no other staged file uses.\<close>

definition opened :: "bytes \<Rightarrow> bytes \<Rightarrow> (bytes \<Rightarrow> bytes) \<Rightarrow> (bytes \<Rightarrow> progress) \<Rightarrow> bytes \<Rightarrow> disk_handle \<Rightarrow> disk \<Rightarrow> bool" where
  "opened out st c f e h k \<longleftrightarrow> (\<exists>i. h = HFile i \<and> unpublished out st k
     \<and> map_of (k_live k) (part_file out st e) = Some i \<and> k_data k i = []
     \<and> (\<forall>e' \<in> set envelope_exts. e' \<noteq> e \<longrightarrow> part_ok out st c (Some i) k (f e') e'))"

section \<open>Staging\<close>

lemma crash_ok_unpublished: "unpublished out st k \<Longrightarrow> crash_ok out st c k"
  by (fastforce simp: unpublished_def crash_ok_def whole_def nowhere_def)

lemma unpublished_ops [simp]: "unpublished out st (k\<lparr>k_ops := n\<rparr>) = unpublished out st k"
  by (simp add: unpublished_def nowhere_def)

lemma part_ok_ops [simp]: "part_ok out st c j (k\<lparr>k_ops := n\<rparr>) s e = part_ok out st c j k s e"
  by (simp add: part_ok_def durable_def split: progress.splits)

lemma staged_ops [simp]: "staged out st c f (k\<lparr>k_ops := n\<rparr>) = staged out st c f k"
  by (simp add: staged_def)

lemma opened_ops [simp]: "opened out st c f e h (k\<lparr>k_ops := n\<rparr>) = opened out st c f e h k"
  by (simp add: opened_def)

lemma staged_unpublished: "staged out st c f k \<Longrightarrow> unpublished out st k"
  by (simp add: staged_def)

lemma stage_create:
  assumes "e \<in> set envelope_exts" "f e = Gone"
  shows "triple (staged out st c f) (disk_create (part_file out st e)) (opened out st c f e) (unpublished out st)"
  unfolding disk_create_def
proof (rule triple_attempt [where P' = "staged out st c f"], simp, erule staged_unpublished, rule tripleI)
  fix k h k'
  assume s: "staged out st c f k"
    and r: "(case map_of (k_live k) (part_file out st e) of
       Some i \<Rightarrow> (Ok (HFile i), k\<lparr>k_data := (k_data k)(i := []), k_synced := (k_synced k)(i := False)\<rparr>)
     | None \<Rightarrow>
         (let i = k_next k in
          (Ok (HFile i), (dir_step (Link (part_file out st e) i) k)\<lparr>k_data := (k_data k)(i := []),
             k_synced := (k_synced k)(i := False), k_next := i + 1\<rparr>))) = (Inr h, k')"
  have "map_of (k_live k) (part_file out st e) = None"
    using s assms by (auto simp: staged_def part_ok_def)
  with r have k': "h = HFile (k_next k)"
    "k' = (dir_step (Link (part_file out st e) (k_next k)) k)\<lparr>k_data := (k_data k)(k_next k := []),
             k_synced := (k_synced k)(k_next k := False), k_next := k_next k + 1\<rparr>"
    by (auto simp: Let_def)
  have u: "unpublished out st k'"
    using s by (auto simp: k' staged_def unpublished_def nowhere_def dir_step_def update_conv less_Suc_eq)
  have "part_ok out st c (Some (k_next k)) k' (f e') e'" if "e' \<in> set envelope_exts" "e' \<noteq> e" for e'
  proof -
    have "part_ok out st c None k (f e') e'" "\<forall>i. map_of (k_live k) (part_file out st e') = Some i \<longrightarrow> i \<noteq> k_next k"
      using s that by (auto simp: staged_def unpublished_def)
    then show ?thesis
      using that by (auto simp: k' part_ok_def dir_step_def update_conv durable_def split: progress.splits)
  qed
  with u show "opened out st c f e h k'"
    by (auto simp: opened_def k' dir_step_def update_conv)
qed (auto simp: Let_def split: option.splits)

lemma part_ok_upd:
  "part_ok out st c (Some i) k s e \<Longrightarrow>
   part_ok out st c None (k\<lparr>k_data := (k_data k)(i := x), k_synced := (k_synced k)(i := b)\<rparr>) s e"
  by (auto simp: part_ok_def durable_def split: progress.splits)

lemma unpublished_upd [simp]:
  "unpublished out st (k\<lparr>k_data := x, k_synced := y\<rparr>) = unpublished out st k"
  "unpublished out st (k\<lparr>k_synced := y\<rparr>) = unpublished out st k"
  "unpublished out st (k\<lparr>k_data := x\<rparr>) = unpublished out st k"
  by (simp_all add: unpublished_def nowhere_def)

text \<open>Written, and still open.\<close>

definition written :: "bytes \<Rightarrow> bytes \<Rightarrow> (bytes \<Rightarrow> bytes) \<Rightarrow> (bytes \<Rightarrow> progress) \<Rightarrow> bytes \<Rightarrow> disk_handle \<Rightarrow> disk \<Rightarrow> bool" where
  "written out st c f e h k \<longleftrightarrow> staged out st c (f(e := Dirty)) k
     \<and> (\<exists>i. h = HFile i \<and> map_of (k_live k) (part_file out st e) = Some i)"

lemma written_ops [simp]: "written out st c f e h (k\<lparr>k_ops := n\<rparr>) = written out st c f e h k"
  by (simp add: written_def)

lemma stage_write:
  "triple (opened out st c f e h) (disk_write h (c e)) (\<lambda>_. written out st c f e h) (unpublished out st)"
  unfolding disk_write_def
  by (rule triple_attempt [where P' = "opened out st c f e h"], simp, simp add: opened_def, blast, rule tripleI)
     (auto simp: opened_def written_def staged_def part_ok_upd, auto simp: part_ok_def)

lemma part_ok_sync:
  "part_ok out st c None k s e \<Longrightarrow> part_ok out st c None (k\<lparr>k_synced := (k_synced k)(i := True)\<rparr>) s e"
  by (auto simp: part_ok_def durable_def split: progress.splits)

lemma stage_fsync:
  assumes "e \<in> set envelope_exts"
  shows "triple (written out st c f e h) (disk_fsync h) (\<lambda>_. staged out st c (f(e := Done))) (unpublished out st)"
  unfolding disk_fsync_def
proof (rule triple_attempt [where P' = "written out st c f e h"], simp, simp add: written_def staged_def, rule tripleI)
  fix k x k'
  assume w: "written out st c f e h k"
    and r: "(case h of
       HDir \<Rightarrow> (Ok (), k\<lparr>k_safe := k_live k, k_pending := []\<rparr>)
     | HFile i \<Rightarrow> (Ok (), k\<lparr>k_synced := (k_synced k)(i := True)\<rparr>)) = (Inr x, k')"
  obtain i where i: "h = HFile i" "map_of (k_live k) (part_file out st e) = Some i" "k_data k i = c e"
    using w assms by (auto simp: written_def staged_def part_ok_def)
  have k': "k' = k\<lparr>k_synced := (k_synced k)(i := True)\<rparr>" using r i(1) by simp
  have "part_ok out st c None k' ((f(e := Done)) e') e'" if "e' \<in> set envelope_exts" for e'
  proof (cases "e' = e")
    case True
    then show ?thesis using i by (simp add: k' part_ok_def durable_def)
  next
    case False
    then have "part_ok out st c None k (f e') e'" using w that by (auto simp: written_def staged_def)
    then show ?thesis using False by (simp add: k' part_ok_sync)
  qed
  then show "staged out st c (f(e := Done)) k'"
    using w by (simp add: staged_def written_def k')
qed (auto split: disk_handle.splits)

lemma stage_open:
  assumes "e \<in> set envelope_exts" "f e = Dirty"
  shows "triple (staged out st c f) (disk_open out (part_file out st e)) (\<lambda>h. written out st c f e h) (unpublished out st)"
proof -
  have "f(e := Dirty) = f" using assms(2) by (simp add: fun_upd_idem)
  then show ?thesis
    unfolding disk_open_def using assms
    by (intro triple_attempt [where P' = "staged out st c f"] tripleI)
       (auto simp: written_def staged_unpublished split: option.splits)
qed

lemma stage_write_synced:
  "e \<in> set envelope_exts \<Longrightarrow> f e = Gone \<Longrightarrow>
   triple (staged out st c f) (write_synced (disk_files out) (part_file out st e) (c e))
     (\<lambda>_. staged out st c (f(e := Done))) (unpublished out st)"
  unfolding write_synced_def disk_files_simps
  by (rule triple_sbind, rule triple_smap_err, rule stage_create, assumption+,
      rule triple_sbind, rule triple_smap_err, rule stage_write, rule triple_smap_err, rule stage_fsync)

lemma stage_sync_file:
  "e \<in> set envelope_exts \<Longrightarrow> f e = Dirty \<Longrightarrow>
   triple (staged out st c f) (sync_file (disk_files out) (part_file out st e))
     (\<lambda>_. staged out st c (f(e := Done))) (unpublished out st)"
  unfolding sync_file_def disk_files_simps
  by (rule triple_smap_err, rule triple_sbind, rule triple_smap_err, rule stage_open, assumption+,
      rule stage_fsync)

lemma stage_write_dirty:
  "triple (opened out st c f e h) (disk_write h (c e)) (\<lambda>_. staged out st c (f(e := Dirty))) (unpublished out st)"
  by (rule triple_weaken [OF stage_write]) (auto simp: written_def)

lemma stage_all:
  "triple (staged out st c (\<lambda>_. Gone))
     (stage_files (disk_files out) out st (c (lit ''msg'')) (c (lit ''tag''))
        (disk_quote (c (lit ''attest'')) (c (lit ''sig''))))
     (\<lambda>_. staged out st c (\<lambda>_. Done)) (unpublished out st)"
  unfolding stage_files_def disk_quote_def
  by (rule triple_weaken [OF _ _ _], rule triple_sbind, rule stage_write_synced, simp, simp,
      rule triple_sbind, rule triple_sbind, rule stage_create, simp, simp,
      rule triple_sbind, rule stage_write_dirty, rule triple_sbind, rule stage_create, simp, simp,
      rule stage_write_dirty, rule triple_sbind, rule stage_sync_file, simp, simp,
      rule triple_sbind, rule stage_sync_file, simp, simp, rule stage_write_synced, simp, simp)
     (simp_all add: staged_def exts_split)

lemma cleanup_unpublished:
  "set exts \<subseteq> set envelope_exts \<Longrightarrow>
   triple (unpublished out st) (cleanup (disk_files out) out st exts) (\<lambda>_. unpublished out st) (unpublished out st)"
proof (induction exts)
  case Nil
  show ?case by (simp add: triple_def)
next
  case (Cons e exts)
  have "triple (unpublished out st) (disk_remove (part_file out st e)) (\<lambda>_. unpublished out st) (unpublished out st)"
    unfolding disk_remove_def
    by (rule triple_attempt [where P' = "unpublished out st"], simp, assumption, rule tripleI)
       (auto simp: unpublished_def nowhere_def dir_step_def delete_conv' split: if_splits)
  then have "triple (unpublished out st) (stry (disk_remove (part_file out st e))) (\<lambda>_. unpublished out st)
      (unpublished out st)"
    by (rule triple_weaken [OF triple_stry]) (auto split: sum.splits)
  moreover have "triple (unpublished out st) (cleanup (disk_files out) out st exts) (\<lambda>_. unpublished out st)
      (unpublished out st)"
    using Cons by simp
  ultimately show ?case unfolding cleanup.simps disk_files_simps by (rule triple_sbind)
qed

section \<open>Renaming\<close>

definition part_durable :: "bytes \<Rightarrow> bytes \<Rightarrow> (bytes \<Rightarrow> bytes) \<Rightarrow> bytes \<Rightarrow> disk \<Rightarrow> bool" where
  "part_durable out st c e k \<longleftrightarrow> (\<exists>i. map_of (k_live k) (part_file out st e) = Some i \<and> durable k i (c e))"

definition renaming :: "bytes \<Rightarrow> bytes \<Rightarrow> (bytes \<Rightarrow> bytes) \<Rightarrow> bytes set \<Rightarrow> disk \<Rightarrow> bool" where
  "renaming out st c R k \<longleftrightarrow> whole out st c k \<and> nowhere (envelope_file out st (lit ''tag'')) k
     \<and> (\<forall>e \<in> set body_exts. if e \<in> R then map_of (k_live k) (envelope_file out st e) \<noteq> None
          else part_durable out st c e k)
     \<and> part_durable out st c (lit ''tag'') k"

definition body_settled :: "bytes \<Rightarrow> bytes \<Rightarrow> (bytes \<Rightarrow> bytes) \<Rightarrow> disk \<Rightarrow> bool" where
  "body_settled out st c k \<longleftrightarrow> whole out st c k
     \<and> (\<forall>e \<in> set body_exts. settled (envelope_file out st e) k)"

definition published :: "bytes \<Rightarrow> bytes \<Rightarrow> (bytes \<Rightarrow> bytes) \<Rightarrow> disk \<Rightarrow> bool" where
  "published out st c k \<longleftrightarrow> whole out st c k
     \<and> (\<forall>e \<in> set envelope_exts. settled (envelope_file out st e) k)"

lemma ops_invariant [simp]:
  "whole out st c (k\<lparr>k_ops := n\<rparr>) = whole out st c k"
  "nowhere m (k\<lparr>k_ops := n\<rparr>) = nowhere m k"
  "settled m (k\<lparr>k_ops := n\<rparr>) = settled m k"
  "part_durable out st c e (k\<lparr>k_ops := n\<rparr>) = part_durable out st c e k"
  by (simp_all add: whole_def nowhere_def settled_def part_durable_def durable_def)

lemma triple_sync_dir:
  assumes "\<And>k n. P k \<Longrightarrow> P (k\<lparr>k_ops := n\<rparr>)" "\<And>k. P k \<Longrightarrow> Q (k\<lparr>k_safe := k_live k, k_pending := []\<rparr>)"
    "\<And>k. P k \<Longrightarrow> E k"
  shows "triple P (sync_dir (disk_files out) out) (\<lambda>_. Q) E"
proof -
  have "triple P (disk_open out out) (\<lambda>h k. h = HDir \<and> P k) E"
    unfolding disk_open_def using assms by (intro triple_attempt [where P' = P] tripleI) auto
  moreover have "triple (\<lambda>k. h = HDir \<and> P k) (disk_fsync h) (\<lambda>_. Q) E" for h
    unfolding disk_fsync_def
    using assms by (intro triple_attempt [where P' = "\<lambda>k. h = HDir \<and> P k"] tripleI) auto
  ultimately show ?thesis
    unfolding sync_dir_def disk_files_simps by (intro triple_smap_err triple_sbind)
qed

lemma triple_rename:
  assumes "\<And>k n. P k \<Longrightarrow> P (k\<lparr>k_ops := n\<rparr>)"
    "\<And>k i. P k \<Longrightarrow> map_of (k_live k) a = Some i \<Longrightarrow> Q (dir_step (Move a b i) k)" "\<And>k. P k \<Longrightarrow> E k"
  shows "triple P (disk_rename a b) (\<lambda>_. Q) E"
  unfolding disk_rename_def
  using assms by (intro triple_attempt [where P' = P] tripleI) (auto split: option.splits)

lemma dir_step_simps [simp]:
  "k_live (dir_step op k) = apply_op op (k_live k)" "k_safe (dir_step op k) = k_safe k"
  "k_pending (dir_step op k) = k_pending k @ [op]" "durable (dir_step op k) i c = durable k i c"
  by (simp_all add: dir_step_def durable_def)

lemma whole_move:
  assumes "whole out st c k" "part_durable out st c e k" "e \<in> set envelope_exts"
    "map_of (k_live k) (part_file out st e) = Some i"
  shows "whole out st c (dir_step (Move (part_file out st e) (envelope_file out st e) i) k)"
proof -
  have "durable k i (c e)" using assms(2,4) by (auto simp: part_durable_def)
  then show ?thesis
    using assms(1,3) unfolding whole_def
    by (auto simp: update_conv delete_conv' split: if_splits)
qed

lemma rename_body:
  assumes "e \<in> set body_exts" "e \<notin> R"
  shows "triple (renaming out st c R) (disk_rename (part_file out st e) (envelope_file out st e))
     (\<lambda>_. renaming out st c (insert e R)) (crash_ok out st c)"
proof (rule triple_rename)
  fix k i
  assume r: "renaming out st c R k" and i: "map_of (k_live k) (part_file out st e) = Some i"
  have e: "e \<in> set envelope_exts" "e \<noteq> lit ''tag''" using assms(1) by auto
  have p: "part_durable out st c e k" using r assms by (auto simp: renaming_def)
  let ?k = "dir_step (Move (part_file out st e) (envelope_file out st e) i) k"
  have w: "whole out st c ?k" using r p e i by (intro whole_move) (auto simp: renaming_def)
  have n: "nowhere (envelope_file out st (lit ''tag'')) ?k"
    using r e by (auto simp: renaming_def nowhere_def update_conv delete_conv')
  have o: "part_durable out st c e' ?k" if "part_durable out st c e' k" "e' \<noteq> e" for e'
    using that e by (auto simp: part_durable_def update_conv delete_conv')
  have f: "map_of (k_live ?k) (envelope_file out st e') \<noteq> None"
    if "e' = e \<or> map_of (k_live k) (envelope_file out st e') \<noteq> None" "e' \<in> set envelope_exts" for e'
    using that by (auto simp: update_conv delete_conv')
  show "renaming out st c (insert e R) ?k"
    unfolding renaming_def
  proof (intro conjI ballI)
    fix e' assume e': "e' \<in> set body_exts"
    then have x: "e' \<in> set envelope_exts" by auto
    show "if e' \<in> insert e R then map_of (k_live ?k) (envelope_file out st e') \<noteq> None
          else part_durable out st c e' ?k"
      using r e' f [OF _ x] o [of e'] by (auto simp only: renaming_def split: if_splits)
  qed (use r w n o e in \<open>auto simp: renaming_def\<close>)
qed (auto simp: renaming_def crash_ok_def)

lemma rename_tag:
  "triple (\<lambda>k. body_settled out st c k \<and> part_durable out st c (lit ''tag'') k)
     (disk_rename (part_file out st (lit ''tag'')) (envelope_file out st (lit ''tag'')))
     (\<lambda>_ k. body_settled out st c k \<and> map_of (k_live k) (envelope_file out st (lit ''tag'')) \<noteq> None)
     (crash_ok out st c)"
proof (rule triple_rename)
  fix k i
  assume p: "body_settled out st c k \<and> part_durable out st c (lit ''tag'') k"
    and i: "map_of (k_live k) (part_file out st (lit ''tag'')) = Some i"
  let ?k = "dir_step (Move (part_file out st (lit ''tag'')) (envelope_file out st (lit ''tag'')) i) k"
  have "whole out st c ?k" using p i by (intro whole_move) (auto simp: body_settled_def)
  moreover have "settled (envelope_file out st e) ?k" if "e \<in> set body_exts" for e
  proof -
    have "e \<in> set envelope_exts" "e \<noteq> lit ''tag''" using that by auto
    then show ?thesis
      using p that by (auto simp: body_settled_def settled_def update_conv delete_conv')
  qed
  ultimately show "body_settled out st c ?k \<and> map_of (k_live ?k) (envelope_file out st (lit ''tag'')) \<noteq> None"
    by (simp add: body_settled_def update_conv)
qed (auto simp: body_settled_def crash_ok_def)

lemma sync_bodies:
  "triple (renaming out st c (set body_exts)) (sync_dir (disk_files out) out)
     (\<lambda>_ k. body_settled out st c k \<and> part_durable out st c (lit ''tag'') k) (crash_ok out st c)"
  by (rule triple_sync_dir)
     (simp add: renaming_def, auto simp: renaming_def body_settled_def whole_def settled_def part_durable_def
        durable_def crash_ok_def)

lemma sync_tag:
  "triple (\<lambda>k. body_settled out st c k \<and> map_of (k_live k) (envelope_file out st (lit ''tag'')) \<noteq> None)
     (sync_dir (disk_files out) out) (\<lambda>_. published out st c) (crash_ok out st c)"
  by (rule triple_sync_dir)
     (simp add: body_settled_def, auto simp: body_settled_def published_def exts_split whole_def settled_def
        durable_def crash_ok_def)

lemma rename_bodies:
  "triple (renaming out st c {}) (rename_into_place (disk_files out) out st body_exts)
     (\<lambda>_. renaming out st c (set body_exts)) (crash_ok out st c)"
proof -
  have s: "set body_exts = insert (lit ''sig'') (insert (lit ''attest'') (insert (lit ''msg'') {}))"
    by auto
  show ?thesis
    unfolding rename_into_place.simps disk_files_simps s
    by (rule triple_sbind, rule triple_smap_err, rule rename_body, simp, simp,
        rule triple_sbind, rule triple_smap_err, rule rename_body, simp, simp,
        rule triple_sbind, rule triple_smap_err, rule rename_body, simp, simp, rule triple_sret)
qed

lemma staged_renaming: "staged out st c (\<lambda>_. Done) k \<Longrightarrow> renaming out st c {} k"
  using crash_ok_unpublished [of out st k c]
  by (auto simp: staged_def renaming_def crash_ok_def unpublished_def part_ok_def part_durable_def)

lemma publish_triple:
  "triple (staged out st c (\<lambda>_. Gone))
     (publish_envelope (disk_files out) out st (c (lit ''msg'')) (c (lit ''tag''))
        (disk_quote (c (lit ''attest'')) (c (lit ''sig''))))
     (\<lambda>_. published out st c) (crash_ok out st c)"
proof -
  let ?rest = "\<lambda>staged. case staged of
       Inl e \<Rightarrow> sbind (cleanup (disk_files out) out st envelope_exts) (\<lambda>_. sfail e)
     | Inr _ \<Rightarrow>
         sbind (rename_into_place (disk_files out) out st body_exts) (\<lambda>_.
         sbind (sync_dir (disk_files out) out) (\<lambda>_.
         sbind (rename_into_place (disk_files out) out st [lit ''tag'']) (\<lambda>_.
         sync_dir (disk_files out) out)))"
  let ?mid = "\<lambda>r k. case r of Inl _ \<Rightarrow> unpublished out st k | Inr _ \<Rightarrow> staged out st c (\<lambda>_. Done) k"
  have "triple (?mid r) (?rest r) (\<lambda>_. published out st c) (crash_ok out st c)" for r
  proof (cases r)
    case (Inl e)
    have "triple (unpublished out st) (cleanup (disk_files out) out st envelope_exts)
        (\<lambda>_. unpublished out st) (crash_ok out st c)"
      by (rule triple_weaken [OF cleanup_unpublished]) (auto simp: crash_ok_unpublished)
    then have "triple (unpublished out st)
        (sbind (cleanup (disk_files out) out st envelope_exts) (\<lambda>_. sfail e))
        (\<lambda>_. published out st c) (crash_ok out st c)"
      by (rule triple_sbind) (rule triple_sfail, erule crash_ok_unpublished)
    with Inl show ?thesis by simp
  next
    case (Inr u)
    have bodies: "triple (staged out st c (\<lambda>_. Done)) (rename_into_place (disk_files out) out st body_exts)
        (\<lambda>_. renaming out st c (set body_exts)) (crash_ok out st c)"
      by (rule triple_weaken [OF rename_bodies staged_renaming])
    have tag: "triple (\<lambda>k. body_settled out st c k \<and> part_durable out st c (lit ''tag'') k)
        (rename_into_place (disk_files out) out st [lit ''tag''])
        (\<lambda>_ k. body_settled out st c k \<and> map_of (k_live k) (envelope_file out st (lit ''tag'')) \<noteq> None)
        (crash_ok out st c)"
      unfolding rename_into_place.simps disk_files_simps
      by (rule triple_sbind, rule triple_smap_err, rule rename_tag, rule triple_sret)
    show ?thesis
      unfolding Inr sum.case
      by (rule triple_sbind [OF bodies], rule triple_sbind [OF sync_bodies], rule triple_sbind [OF tag],
          rule sync_tag)
  qed
  moreover have "triple (staged out st c (\<lambda>_. Gone))
      (stry (stage_files (disk_files out) out st (c (lit ''msg'')) (c (lit ''tag''))
        (disk_quote (c (lit ''attest'')) (c (lit ''sig''))))) ?mid (crash_ok out st c)"
    by (rule triple_stry) (rule stage_all)
  ultimately show ?thesis
    unfolding publish_envelope_def by (rule triple_sbind [rotated])
qed

section \<open>After a cut\<close>

lemma crash_ok_dirs:
  assumes "crash_ok out st c k" "d \<in> set (crash_dirs k)" "e \<in> set envelope_exts"
  shows "map_of d (envelope_file out st e) = Some i \<Longrightarrow> durable k i (c e)"
    and "map_of d (envelope_file out st (lit ''tag'')) \<noteq> None \<Longrightarrow> map_of d (envelope_file out st e) \<noteq> None"
proof -
  show "map_of d (envelope_file out st e) = Some i \<Longrightarrow> durable k i (c e)"
    using crash_lookup [OF assms(2)] assms(1,3) unfolding crash_ok_def whole_def by blast
  assume t: "map_of d (envelope_file out st (lit ''tag'')) \<noteq> None"
  then obtain j where j: "map_of d (envelope_file out st (lit ''tag'')) = Some j" by auto
  have "\<not> nowhere (envelope_file out st (lit ''tag'')) k"
    using crash_lookup [OF assms(2) j] by (auto simp: nowhere_def)
  then have "e \<noteq> lit ''tag'' \<Longrightarrow> settled (envelope_file out st e) k"
    using assms(1,3) unfolding crash_ok_def exts_split by blast
  then show "map_of d (envelope_file out st e) \<noteq> None"
    using t crash_untouched [OF assms(2), of "envelope_file out st e"]
    by (cases "e = lit ''tag''") (auto simp: settled_def)
qed

lemma published_dirs:
  "published out st c k \<Longrightarrow> d \<in> set (crash_dirs k) \<Longrightarrow> e \<in> set envelope_exts \<Longrightarrow>
   \<exists>i. map_of d (envelope_file out st e) = Some i \<and> durable k i (c e)"
  using crash_untouched [of d k "envelope_file out st e"]
  by (fastforce simp: published_def settled_def whole_def)

lemma published_crash_ok: "published out st c k \<Longrightarrow> crash_ok out st c k"
  by (auto simp: published_def crash_ok_def)

end
