(* ===== verification/Rim.thy ===== *)
theory Rim
  imports Verdict PcrBits "HOL-Library.List_Lexorder"
begin

text \<open>
  Reference values from a RIM (\<open>attest-appraise/rim.rs\<close>): the set of composites a device
  booted from one slot can present. The parser of JSON is the crate \<open>serde_json\<close>, a
  parameter; its value type is modelled with the accessors the code calls. Indexing a
  \<open>serde_json::Map\<close> with an absent key panics: a panic is a value of its own here.
\<close>

section \<open>JSON values\<close>

text \<open>
  \<open>JNum (Some n)\<close> is a number \<open>as_u64\<close> gives \<open>n\<close> for. The keys of an object are
  distinct, in the order the map iterates them.
\<close>

datatype json =
    JNull | JBool bool | JNum "nat option" | JStr bytes | JArr "json list" | JObj "(bytes \<times> json) list"

definition json_get :: "bytes \<Rightarrow> json \<Rightarrow> json option" where
  "json_get k v = (case v of JObj kvs \<Rightarrow> map_of kvs k | _ \<Rightarrow> None)"

definition as_str :: "json \<Rightarrow> bytes option" where
  "as_str v = (case v of JStr s \<Rightarrow> Some s | _ \<Rightarrow> None)"

definition as_array :: "json \<Rightarrow> json list option" where
  "as_array v = (case v of JArr xs \<Rightarrow> Some xs | _ \<Rightarrow> None)"

definition as_object :: "json \<Rightarrow> (bytes \<times> json) list option" where
  "as_object v = (case v of JObj kvs \<Rightarrow> Some kvs | _ \<Rightarrow> None)"

definition as_u64 :: "json \<Rightarrow> nat option" where
  "as_u64 v = (case v of JNum n \<Rightarrow> n | _ \<Rightarrow> None)"

section \<open>Operations\<close>

datatype rim_fail = Refused err | Panicked

definition RIM_FORMAT :: bytes where "RIM_FORMAT = lit ''tactiq-rim/1''"
definition RIM_ALG_SHA256 :: u16 where "RIM_ALG_SHA256 = 0x000B"

datatype pcr_values = AnyOf "bytes list" | BySlot "(bytes \<times> bytes) list"

definition rim_digest :: "json \<Rightarrow> bytes res" where
  "rim_digest v =
     rbind (ok_or (Msg ''not a string'' []) (as_str v)) (\<lambda>s.
     if length s \<noteq> 64 \<or> \<not> list_all is_hexdigit s then Err (Msg ''not 64 hex digits'' [Txt s])
     else collect (map (ok_or (Msg ''from_str_radix'' [])) (hex_pairs s)))"

text \<open>\<open>sort_unstable\<close> and \<open>dedup\<close>.\<close>

definition sort_dedup :: "'a :: linorder list \<Rightarrow> 'a list" where
  "sort_dedup xs = remdups_adj (sort xs)"

definition rim_selection :: "json \<Rightarrow> nat list res" where
  "rim_selection pcr =
     rbind (ok_or (Msg ''RIM pcr.selection is not a list'' [])
              (Option.bind (json_get (lit ''selection'') pcr) as_array)) (\<lambda>vs.
     rbind (collect (map (\<lambda>v. ok_or (Msg ''RIM pcr.selection: index not in 0..=23'' [])
              (Option.bind (as_u64 v) (\<lambda>i. if i \<le> 23 then Some i else None))) vs)) (\<lambda>is.
     if sort_dedup is = [] then Err (Msg ''RIM pcr.selection is empty'' []) else Ok (sort_dedup is)))"

definition rim_keys :: "(bytes \<times> json) list \<Rightarrow> nat list res" where
  "rim_keys values =
     rbind (collect (map (\<lambda>kv. ok_or (Msg ''RIM pcr.values: key is not a PCR index'' [Txt (fst kv)])
              (parse_u8 (fst kv))) values)) (\<lambda>ks.
     Ok (sort ks))"

text \<open>One PCR's value: a set of digests, or a digest per slot; the slots must agree.\<close>

definition rim_pcr_value :: "json \<Rightarrow> bytes list option \<Rightarrow> (pcr_values \<times> bytes list option) res" where
  "rim_pcr_value v slots =
     (case v of
        JArr xs \<Rightarrow>
          if xs = [] then Err (Msg ''empty value set'' [])
          else rbind (collect (map rim_digest xs)) (\<lambda>ds. Ok (AnyOf (sort_dedup ds), slots))
      | JObj kvs \<Rightarrow>
          rbind (collect (map (\<lambda>(s, x). rbind (rim_digest x) (\<lambda>d. Ok (s, d))) kvs)) (\<lambda>m0.
          let m = sort_key fst m0; names = map fst m in
          if names = [] then Err (Msg ''no slots'' [])
          else case slots of
              None \<Rightarrow> Ok (BySlot m, Some names)
            | Some s \<Rightarrow> if s = names then Ok (BySlot m, slots)
                        else Err (Msg ''another PCR names other slots'' []))
      | _ \<Rightarrow> Err (Msg ''neither a list nor a per-slot object'' []))"

fun rim_pcrs :: "(bytes \<times> json) list \<Rightarrow> nat list \<Rightarrow> bytes list option
    \<Rightarrow> rim_fail + (pcr_values list \<times> bytes list option)" where
  "rim_pcrs values [] slots = Ok ([], slots)"
| "rim_pcrs values (i # is) slots =
     (case map_of values (dec i) of
        None \<Rightarrow> Err Panicked
      | Some v \<Rightarrow>
          rbind (map_err (\<lambda>e. Refused (Ctx ''RIM PCR'' e)) (rim_pcr_value v slots)) (\<lambda>(p, slots).
          rbind (rim_pcrs values is slots) (\<lambda>(ps, slots). Ok (p # ps, slots))))"

definition rim_column :: "bytes option \<Rightarrow> pcr_values \<Rightarrow> rim_fail + bytes list" where
  "rim_column slot p = (case (p, slot) of
     (AnyOf ds, _) \<Rightarrow> Ok ds
   | (BySlot m, Some s) \<Rightarrow> (case map_of m s of Some v \<Rightarrow> Ok [v] | None \<Rightarrow> Err Panicked)
   | (BySlot _, None) \<Rightarrow> Err Panicked)"

text \<open>The cartesian product of the columns, each combination concatenated.\<close>

definition rim_combos :: "bytes list list \<Rightarrow> bytes list" where
  "rim_combos cols = foldl (\<lambda>combos col. concat (map (\<lambda>pre. map (\<lambda>d. pre @ d) col) combos)) [[]] cols"

definition rim_slot_composites :: "hash \<Rightarrow> pcr_values list \<Rightarrow> bytes option \<Rightarrow> rim_fail + bytes list" where
  "rim_slot_composites H ps slot =
     rbind (collect (map (rim_column slot) ps)) (\<lambda>cols. Ok (map (sha256 H) (rim_combos cols)))"

definition slot_names :: "bytes list option \<Rightarrow> bytes option list" where
  "slot_names slots = (case slots of Some s \<Rightarrow> map Some s | None \<Rightarrow> [None])"

definition reference_from_rim ::
  "hash \<Rightarrow> (bytes \<Rightarrow> json option) \<Rightarrow> bytes \<Rightarrow> rim_fail + reference_set" where
  "reference_from_rim H json_from_str rim_json =
     rbind (ok_or (Refused (Msg ''RIM is not JSON'' [])) (json_from_str rim_json)) (\<lambda>rim.
     if Option.bind (json_get (lit ''format'') rim) as_str \<noteq> Some RIM_FORMAT then
       Err (Refused (Msg ''RIM format'' []))
     else
     rbind (ok_or (Refused (Msg ''RIM has no pcr section'' [])) (json_get (lit ''pcr'') rim)) (\<lambda>pcr.
     if Option.bind (json_get (lit ''bank'') pcr) as_str \<noteq> Some (lit ''sha256'') then
       Err (Refused (Msg ''RIM bank'' []))
     else
     rbind (map_err Refused (rim_selection pcr)) (\<lambda>selection.
     rbind (ok_or (Refused (Msg ''RIM pcr.values is not an object'' []))
              (Option.bind (json_get (lit ''values'') pcr) as_object)) (\<lambda>values.
     rbind (map_err Refused (rim_keys values)) (\<lambda>keys.
     if keys \<noteq> selection then
       Err (Refused (Msg ''RIM pcr.values names other PCRs than the selection'' []))
     else
     rbind (rim_pcrs values selection None) (\<lambda>(per_pcr, slots).
     rbind (collect (map (rim_slot_composites H per_pcr) (slot_names slots))) (\<lambda>cs.
     Ok (reference_new \<lparr>ps_hash_alg = RIM_ALG_SHA256, ps_pcr_mask = pcr_mask selection\<rparr>
           (sort_dedup (concat cs))))))))))"

section \<open>The composites of a RIM\<close>

lemma set_sort_dedup [simp]: "set (sort_dedup xs) = set xs"
  by (simp add: sort_dedup_def)

lemma sorted_remdups_adj_less: "sorted xs \<Longrightarrow> sorted_wrt (<) (remdups_adj xs)"
proof (induction xs rule: remdups_adj.induct)
  case (3 x y xs)
  then show ?case by (auto simp: order_le_less)
qed auto

lemma sorted_sort_dedup: "sorted_wrt (<) (sort_dedup xs)"
  by (simp add: sort_dedup_def sorted_remdups_adj_less)

lemma collect_member: "collect (map f xs) = Ok ys \<Longrightarrow> y \<in> set ys \<Longrightarrow> \<exists>x \<in> set xs. f x = Ok y"
  by (induction xs arbitrary: ys) (auto simp: rbind_Ok)

lemma map_of_insort: "map_of (insort_key fst x m) k = map_of (x # m) k"
  by (induction m) auto

lemma map_of_sort_key_fst: "map_of (sort_key fst m) k = map_of m k"
  by (induction m) (simp_all add: map_of_insort)

lemma rim_combos_set:
  "set (rim_combos cols) = {concat ds | ds. list_all2 (\<lambda>d col. d \<in> set col) ds cols}"
proof -
  have "set (foldl (\<lambda>combos col. concat (map (\<lambda>pre. map (\<lambda>d. pre @ d) col) combos)) cs cols)
      = {c @ concat ds | c ds. c \<in> set cs \<and> list_all2 (\<lambda>d col. d \<in> set col) ds cols}" for cs
  proof (induction cols arbitrary: cs)
    case (Cons col cols)
    show ?case
    proof (intro set_eqI iffI)
      fix x assume "x \<in> set (foldl (\<lambda>combos col. concat (map (\<lambda>pre. map (\<lambda>d. pre @ d) col) combos)) cs (col # cols))"
      then obtain c d ds where "x = (c @ d) @ concat ds" "c \<in> set cs" "d \<in> set col"
          "list_all2 (\<lambda>d col. d \<in> set col) ds cols"
        by (auto simp: Cons.IH)
      then show "x \<in> {c @ concat ds | c ds. c \<in> set cs \<and> list_all2 (\<lambda>d col. d \<in> set col) ds (col # cols)}"
        by (intro CollectI exI [of _ c] exI [of _ "d # ds"]) simp
    next
      fix x assume "x \<in> {c @ concat ds | c ds. c \<in> set cs \<and> list_all2 (\<lambda>d col. d \<in> set col) ds (col # cols)}"
      then obtain c d ds where "x = (c @ d) @ concat ds" "c \<in> set cs" "d \<in> set col"
          "list_all2 (\<lambda>d col. d \<in> set col) ds cols"
        by (auto simp: list_all2_Cons2)
      then show "x \<in> set (foldl (\<lambda>combos col. concat (map (\<lambda>pre. map (\<lambda>d. pre @ d) col) combos)) cs (col # cols))"
        unfolding foldl_Cons Cons.IH by fastforce
    qed
  qed auto
  then show ?thesis by (simp add: rim_combos_def)
qed

text \<open>The value \<open>d\<close> is a reference value that the JSON value \<open>v\<close> gives at a slot.\<close>

definition rim_admits :: "json \<Rightarrow> bytes option \<Rightarrow> bytes \<Rightarrow> bool" where
  "rim_admits v slot d = (case v of
     JArr xs \<Rightarrow> (\<exists>x \<in> set xs. rim_digest x = Ok d)
   | JObj kvs \<Rightarrow> (\<exists>s x. slot = Some s \<and> map_of kvs s = Some x \<and> rim_digest x = Ok d)
   | _ \<Rightarrow> False)"

definition values_slot_ok :: "bytes list option \<Rightarrow> pcr_values \<Rightarrow> bool" where
  "values_slot_ok slots p = (case p of AnyOf _ \<Rightarrow> True | BySlot m \<Rightarrow> slots = Some (map fst m))"

lemma collect_pairs:
  "collect (map (\<lambda>(s, x). rbind (f x) (\<lambda>d. Ok (s, d))) kvs) = Ok m \<Longrightarrow>
   map_of m s = Some d \<longleftrightarrow> (\<exists>x. map_of kvs s = Some x \<and> f x = Ok d)"
  by (induction kvs arbitrary: m) (auto simp: rbind_Ok)

lemma collect_pair_keys:
  "collect (map (\<lambda>(s, x). rbind (f x) (\<lambda>d. Ok (s, d))) kvs) = Ok m \<Longrightarrow> map fst m = map fst kvs"
  by (induction kvs arbitrary: m) (auto simp: rbind_Ok)

text \<open>A slot fits a PCR's values when they do not depend on it or they name it.\<close>

definition slot_fits :: "pcr_values \<Rightarrow> bytes option \<Rightarrow> bool" where
  "slot_fits p slot = (case p of AnyOf _ \<Rightarrow> True | BySlot m \<Rightarrow> \<exists>s \<in> set (map fst m). slot = Some s)"

lemma slot_fits_names: "values_slot_ok slots p \<Longrightarrow> slot \<in> set (slot_names slots) \<Longrightarrow> slot_fits p slot"
  by (auto simp: values_slot_ok_def slot_fits_def slot_names_def split: pcr_values.splits)

lemma rim_pcr_value_sound:
  assumes "rim_pcr_value v slots = Ok (p, slots')"
  shows "(slots \<noteq> None \<longrightarrow> slots' = slots) \<and> (slots \<noteq> Some [] \<longrightarrow> slots' \<noteq> Some [])
    \<and> values_slot_ok slots' p
    \<and> (\<forall>kvs. v = JObj kvs \<longrightarrow> (\<exists>ns. slots' = Some ns \<and> set ns = fst ` set kvs))
    \<and> (\<forall>slot. slot_fits p slot \<longrightarrow>
         (\<exists>col. rim_column slot p = Ok col \<and> set col = {d. rim_admits v slot d}))"
proof (cases v)
  case (JArr xs)
  with assms obtain ds where ds: "collect (map rim_digest xs) = Ok ds"
    and p: "p = AnyOf (sort_dedup ds)" "slots' = slots"
    by (auto simp: rim_pcr_value_def rbind_Ok if_Err_Ok)
  have "set ds = {d. rim_admits v slot d}" for slot
    using arg_cong [OF ds [unfolded collect_Ok], of set]
    by (auto simp: JArr rim_admits_def) force+
  then show ?thesis
    by (simp add: p values_slot_ok_def rim_column_def JArr)
next
  case (JObj kvs)
  with assms obtain m0 where m0: "collect (map (\<lambda>(s, x). rbind (rim_digest x) (\<lambda>d. Ok (s, d))) kvs) = Ok m0"
    and p: "p = BySlot (sort_key fst m0)" "slots' = Some (map fst (sort_key fst m0))"
      "slots \<noteq> None \<Longrightarrow> slots' = slots" "slots' \<noteq> Some []"
    by (auto simp: rim_pcr_value_def rbind_Ok if_Err_Ok Let_def split: option.splits if_splits)
  have "\<exists>col. rim_column slot p = Ok col \<and> set col = {d. rim_admits v slot d}"
    if fits: "slot_fits p slot" for slot
  proof -
    obtain s where s: "slot = Some s" "s \<in> fst ` set m0"
      using fits by (auto simp: slot_fits_def p(1))
    then obtain d where d: "map_of m0 s = Some d"
      by (metis map_of_eq_None_iff not_None_eq)
    then have "rim_column slot p = Ok [d]"
      by (simp add: rim_column_def p(1) s(1) map_of_sort_key_fst)
    moreover have "{e. rim_admits v slot e} = {e. map_of m0 s = Some e}"
      using collect_pairs [OF m0, of s] by (auto simp: rim_admits_def JObj s(1))
    ultimately show ?thesis by (simp add: d)
  qed
  moreover have "fst ` set m0 = fst ` set kvs"
    using collect_pair_keys [OF m0] by (metis image_set)
  ultimately show ?thesis using p by (simp add: values_slot_ok_def JObj)
qed (use assms in \<open>simp_all add: rim_pcr_value_def\<close>)

lemma rim_pcrs_sound:
  assumes "rim_pcrs values sel slots = Ok (ps, slots')"
  shows "(slots \<noteq> None \<longrightarrow> slots' = slots) \<and> (slots \<noteq> Some [] \<longrightarrow> slots' \<noteq> Some [])
    \<and> list_all (values_slot_ok slots') ps
    \<and> list_all (\<lambda>i. \<forall>kvs. map_of values (dec i) = Some (JObj kvs) \<longrightarrow>
         (\<exists>ns. slots' = Some ns \<and> set ns = fst ` set kvs)) sel
    \<and> list_all2 (\<lambda>i p. \<exists>v. map_of values (dec i) = Some v
         \<and> (\<forall>slot. slot_fits p slot \<longrightarrow>
              (\<exists>col. rim_column slot p = Ok col \<and> set col = {d. rim_admits v slot d}))) sel ps"
  using assms
proof (induction sel arbitrary: slots ps)
  case (Cons i sel)
  from Cons.prems obtain v p sl ps' where v: "map_of values (dec i) = Some v"
    and p: "rim_pcr_value v slots = Ok (p, sl)" and rest: "rim_pcrs values sel sl = Ok (ps', slots')"
    and ps: "ps = p # ps'"
    by (auto simp: rbind_Ok map_err_Ok split: option.splits)
  note one = rim_pcr_value_sound [OF p]
  note more = Cons.IH [OF rest]
  have "values_slot_ok slots' p"
    using one more by (cases p) (auto simp: values_slot_ok_def)
  with one more v show ?case by (auto simp: ps)
qed simp

text \<open>Only a slot-keyed PCR gives slots, and no column is empty.\<close>

lemma rim_pcr_value_unkeyed:
  "rim_pcr_value v slots = Ok (p, slots') \<Longrightarrow> \<forall>kvs. v \<noteq> JObj kvs \<Longrightarrow> slots' = slots"
  by (cases v) (auto simp: rim_pcr_value_def rbind_Ok split: if_splits)

lemma rim_pcrs_unkeyed:
  "rim_pcrs values sel slots = Ok (ps, slots') \<Longrightarrow>
   \<forall>i \<in> set sel. \<forall>kvs. map_of values (dec i) \<noteq> Some (JObj kvs) \<Longrightarrow> slots' = slots"
proof (induction sel arbitrary: slots ps)
  case (Cons i sel)
  then obtain v p sl ps' where "map_of values (dec i) = Some v" "rim_pcr_value v slots = Ok (p, sl)"
      "rim_pcrs values sel sl = Ok (ps', slots')"
    by (auto simp: rbind_Ok map_err_Ok split: option.splits)
  with Cons rim_pcr_value_unkeyed show ?case by fastforce
qed simp

lemma rim_column_nonempty:
  assumes "rim_pcr_value v slots = Ok (p, slots')" "rim_column slot p = Ok col"
  shows "col \<noteq> []"
proof (cases v)
  case (JArr xs)
  with assms obtain ds where "xs \<noteq> []" "collect (map rim_digest xs) = Ok ds" "col = sort_dedup ds"
    by (auto simp: rim_pcr_value_def rbind_Ok rim_column_def split: if_splits)
  then have "length ds = length xs" "set col = set ds" using set_sort_dedup [of ds]
    by (auto simp: collect_Ok dest: map_eq_imp_length_eq)
  with \<open>xs \<noteq> []\<close> show "col \<noteq> []" by auto
next
  case (JObj kvs)
  with assms(1) obtain m where "p = BySlot m"
    by (auto simp: rim_pcr_value_def rbind_Ok Let_def split: option.splits if_splits)
  with assms(2) show "col \<noteq> []" by (auto simp: rim_column_def split: option.splits)
qed (use assms in \<open>simp_all add: rim_pcr_value_def\<close>)

lemma rim_columns_nonempty:
  assumes "rim_pcrs values sel slots = Ok (ps, slots')" "p \<in> set ps" "rim_column slot p = Ok col"
  shows "col \<noteq> []"
  using assms(1,2)
proof (induction sel arbitrary: slots ps)
  case (Cons i sel)
  then obtain v q sl qs where "rim_pcr_value v slots = Ok (q, sl)" "rim_pcrs values sel sl = Ok (qs, slots')"
      "ps = q # qs"
    by (auto simp: rbind_Ok map_err_Ok split: option.splits)
  with Cons rim_column_nonempty [OF _ assms(3)] show ?case by auto
qed simp

text \<open>
  The composites of one slot: every way to choose, for each selected PCR, a reference
  value the RIM admits at that slot.
\<close>

definition composite_of ::
  "hash \<Rightarrow> (bytes \<times> json) list \<Rightarrow> nat list \<Rightarrow> bytes option \<Rightarrow> bytes \<Rightarrow> bool" where
  "composite_of H values sel slot c \<longleftrightarrow>
     (\<exists>ds. list_all2 (\<lambda>d i. \<exists>v. map_of values (dec i) = Some v \<and> rim_admits v slot d) ds sel
         \<and> c = sha256 H (concat ds))"

lemma rim_slot_composites_sound:
  assumes "list_all2 (\<lambda>i p. \<exists>v. map_of values (dec i) = Some v
         \<and> (\<exists>col. rim_column slot p = Ok col \<and> set col = {d. rim_admits v slot d})) sel ps"
    and "rim_slot_composites H ps slot = Ok cs"
  shows "c \<in> set cs \<longleftrightarrow> composite_of H values sel slot c"
proof -
  from assms(2) obtain cols where cols: "map (rim_column slot) ps = map Ok cols"
    and cs: "cs = map (sha256 H) (rim_combos cols)"
    by (auto simp: rim_slot_composites_def rbind_Ok collect_Ok)
  have "list_all2 (\<lambda>i col. \<exists>v. map_of values (dec i) = Some v \<and> set col = {d. rim_admits v slot d}) sel cols"
    using assms(1) cols
  proof (induction sel arbitrary: ps cols)
    case (Cons i sel)
    then obtain p ps' where ps: "ps = p # ps'" by (auto simp: list_all2_Cons1)
    with Cons.prems(2) obtain col cols' where "cols = col # cols'" by (cases cols) auto
    with Cons ps show ?case by auto
  qed simp
  then have "list_all2 (\<lambda>d col. d \<in> set col) ds cols \<longleftrightarrow>
      list_all2 (\<lambda>d i. \<exists>v. map_of values (dec i) = Some v \<and> rim_admits v slot d) ds sel" for ds
    by (induction sel cols arbitrary: ds rule: list_all2_induct) (auto simp: list_all2_Cons2)
  then show ?thesis
    by (auto simp: cs rim_combos_set composite_of_def)
qed

definition rim_values :: "json \<Rightarrow> (bytes \<times> json) list option" where
  "rim_values rim = Option.bind (json_get (lit ''pcr'') rim) (\<lambda>pcr.
     Option.bind (json_get (lit ''values'') pcr) as_object)"

lemma reference_from_rim_sound:
  assumes "reference_from_rim H json_from_str s = Ok rs"
  shows "\<exists>rim sel values slots. json_from_str s = Some rim \<and> rim_values rim = Some values
     \<and> sel \<noteq> [] \<and> sorted_wrt (<) sel \<and> list_all (\<lambda>i. i \<le> 23) sel
     \<and> rim_keys values = Ok sel
     \<and> rs_expected_selection rs = \<lparr>ps_hash_alg = RIM_ALG_SHA256, ps_pcr_mask = pcr_mask sel\<rparr>
     \<and> rs_required_evidence rs = [] \<and> slots \<noteq> []
     \<and> ((\<forall>i \<in> set sel. \<forall>kvs. map_of values (dec i) \<noteq> Some (JObj kvs)) \<longrightarrow> slots = [None])
     \<and> sorted_wrt (<) (rs_allowed rs) \<and> (\<forall>slot \<in> set slots. \<exists>c. composite_of H values sel slot c)
     \<and> list_all (\<lambda>i. \<forall>kvs. map_of values (dec i) = Some (JObj kvs) \<longrightarrow>
          set slots = Some ` fst ` set kvs) sel
     \<and> (\<forall>c. c \<in> set (rs_allowed rs) \<longleftrightarrow> (\<exists>slot \<in> set slots. composite_of H values sel slot c))"
proof -
  from assms obtain rim pcr sel vals ps slots cs where
    rim: "json_from_str s = Some rim" "json_get (lit ''pcr'') rim = Some pcr"
      "Option.bind (json_get (lit ''values'') pcr) as_object = Some vals"
    and sel: "rim_selection pcr = Ok sel" and keys: "rim_keys vals = Ok sel"
    and ps: "rim_pcrs vals sel None = Ok (ps, slots)"
    and cs: "collect (map (rim_slot_composites H ps) (slot_names slots)) = Ok cs"
    and rs: "rs = reference_new \<lparr>ps_hash_alg = RIM_ALG_SHA256, ps_pcr_mask = pcr_mask sel\<rparr>
       (sort_dedup (concat cs))"
    unfolding reference_from_rim_def
    by (clarsimp simp only: rbind_Ok if_Err_Ok map_err_Ok split_beta split_paired_Ex fst_conv snd_conv
        sum.inject ok_or_Ok) blast
  have vals: "rim_values rim = Some vals" by (simp add: rim_values_def rim)
  have s: "sel \<noteq> []" "sorted_wrt (<) sel"
    using sel by (auto simp: rim_selection_def rbind_Ok if_Err_Ok sorted_sort_dedup)
  have bound: "list_all (\<lambda>i. i \<le> 23) sel"
    using sel
    by (auto simp: rim_selection_def rbind_Ok if_Err_Ok list_all_iff ok_or_Ok Option.bind_eq_Some_conv
        dest!: collect_member split: if_splits)
  note ok = rim_pcrs_sound [OF ps]
  have nonempty: "slot_names slots \<noteq> []"
    using ok by (auto simp: slot_names_def split: option.splits)
  have unkeyed: "slot_names slots = [None]"
    if "\<forall>i \<in> set sel. \<forall>kvs. map_of vals (dec i) \<noteq> Some (JObj kvs)"
    using rim_pcrs_unkeyed [OF ps that] by (simp add: slot_names_def)
  have fits: "list_all2 (\<lambda>i p. \<exists>v. map_of vals (dec i) = Some v
      \<and> (\<exists>col. rim_column slot p = Ok col \<and> set col = {d. rim_admits v slot d})) sel ps"
    if slot: "slot \<in> set (slot_names slots)" for slot
  proof -
    have "list_all (\<lambda>p. slot_fits p slot) ps"
      using ok slot slot_fits_names by (auto simp: list_all_iff)
    with ok show ?thesis
      by (auto simp: list_all2_conv_all_nth list_all_length)
  qed
  have some: "\<exists>c. composite_of H vals sel slot c" if slot: "slot \<in> set (slot_names slots)" for slot
  proof -
    have "\<exists>d v. map_of vals (dec i) = Some v \<and> rim_admits v slot d" if "i \<in> set sel" for i
    proof -
      obtain p v col where "p \<in> set ps" "map_of vals (dec i) = Some v" "rim_column slot p = Ok col"
          "set col = {d. rim_admits v slot d}"
        using fits [OF slot] \<open>i \<in> set sel\<close> by (fastforce simp: list_all2_conv_all_nth in_set_conv_nth)
      moreover from this have "col \<noteq> []" using rim_columns_nonempty [OF ps] by blast
      ultimately show ?thesis by (metis empty_Collect_eq set_empty)
    qed
    then obtain f where f: "\<forall>i \<in> set sel. \<exists>v. map_of vals (dec i) = Some v \<and> rim_admits v slot (f i)"
      by metis
    show ?thesis
      unfolding composite_of_def
      by (intro exI [of _ "map f sel"] exI conjI refl)
         (use f in \<open>auto simp: list_all2_conv_all_nth\<close>)
  qed
  have "map (rim_slot_composites H ps) (slot_names slots) = map Ok cs"
    using cs by (simp add: collect_Ok)
  then have each: "list_all2 (\<lambda>slot c. rim_slot_composites H ps slot = Ok c) (slot_names slots) cs"
    by (simp add: list_all2_conv_all_nth list_eq_iff_nth_eq)
  have "c \<in> set (concat cs) \<longleftrightarrow> (\<exists>slot \<in> set (slot_names slots). composite_of H vals sel slot c)" for c
    using each fits
  proof (induction rule: list_all2_induct)
    case (Cons slot names x xs)
    then show ?case
      using rim_slot_composites_sound [OF Cons.prems [of slot] Cons.hyps(1)] by simp
  qed simp
  moreover have "list_all (\<lambda>i. \<forall>kvs. map_of vals (dec i) = Some (JObj kvs) \<longrightarrow>
      set (slot_names slots) = Some ` fst ` set kvs) sel"
  proof (simp only: list_all_iff, intro ballI allI impI)
    fix i kvs assume "i \<in> set sel" "map_of vals (dec i) = Some (JObj kvs)"
    then obtain ns where "slots = Some ns" "set ns = fst ` set kvs"
      using ok unfolding list_all_iff by blast
    then show "set (slot_names slots) = Some ` fst ` set kvs"
      by (simp add: slot_names_def)
  qed
  ultimately show ?thesis
    using s bound nonempty rim(1) vals keys unkeyed some sorted_sort_dedup [of "concat cs"]
    by (intro exI [of _ rim] exI [of _ sel] exI [of _ vals] exI [of _ "slot_names slots"])
      (simp add: rs reference_new_def)
qed

section \<open>When the reader panics\<close>

text \<open>The loop panics at the first index whose decimal spelling is no key.\<close>

lemma rim_pcrs_panic:
  "rim_pcrs values sel slots = Err Panicked \<longleftrightarrow>
   (\<exists>n < length sel. is_ok (rim_pcrs values (take n sel) slots) \<and> map_of values (dec (sel ! n)) = None)"
proof (induction sel arbitrary: slots)
  case (Cons i sel)
  have split: "(\<exists>n < Suc k. P n) \<longleftrightarrow> P 0 \<or> (\<exists>n < k. P (Suc n))" for k and P :: "nat \<Rightarrow> bool"
    using less_Suc_eq_0_disj by auto
  show ?case
  proof (cases "map_of values (dec i)")
    case None
    then show ?thesis by (simp add: split is_ok_iff)
  next
    case (Some v)
    show ?thesis
    proof (cases "rim_pcr_value v slots")
      case (Inl e)
      with Some show ?thesis by (simp add: split is_ok_iff)
    next
      case (Inr q)
      obtain p' sl where "q = (p', sl)" by fastforce
      moreover have "is_ok (rbind m (\<lambda>(ps, sl). Ok (p # ps, sl))) \<longleftrightarrow> is_ok m"
        for m :: "rim_fail + pcr_values list \<times> bytes list option" and p
        by (cases m) (auto simp: is_ok_iff)
      moreover have "rbind m (\<lambda>(ps, sl). Ok (p # ps, sl)) = Err Panicked \<longleftrightarrow> m = Err Panicked"
        for m :: "rim_fail + pcr_values list \<times> bytes list option" and p
        by (cases m) auto
      ultimately show ?thesis using Some Inr Cons.IH [of sl] by (simp add: split)
    qed
  qed
qed simp

lemma rim_keys_set: "rim_keys values = Ok ks \<Longrightarrow> i \<in> set ks \<Longrightarrow> \<exists>k v. (k, v) \<in> set values \<and> parse_u8 k = Some i"
  by (fastforce simp: rim_keys_def rbind_Ok ok_or_Ok dest!: collect_member)

lemma collect_Err: "collect ms = Inl e \<Longrightarrow> Inl e \<in> set ms"
  by (induction ms) (auto simp: rbind_Err)

lemma rim_columns_found:
  assumes "rim_pcrs values sel None = Ok (ps, slots)"
  shows "collect (map (rim_slot_composites H ps) (slot_names slots)) \<noteq> Err Panicked"
proof
  assume "collect (map (rim_slot_composites H ps) (slot_names slots)) = Err Panicked"
  then obtain slot where slot: "slot \<in> set (slot_names slots)" "rim_slot_composites H ps slot = Err Panicked"
    by (auto dest!: collect_Err)
  then obtain p where p: "p \<in> set ps" "rim_column slot p = Err Panicked"
    by (auto simp: rim_slot_composites_def rbind_Err dest!: collect_Err)
  note ok = rim_pcrs_sound [OF assms]
  from ok p(1) have "values_slot_ok slots p" by (auto simp: list_all_iff)
  then have "slot_fits p slot" using slot_fits_names slot(1) by blast
  moreover have "\<forall>slot. slot_fits p slot \<longrightarrow> (\<exists>col. rim_column slot p = Ok col)"
    using ok p(1) by (fastforce simp: list_all2_conv_all_nth in_set_conv_nth)
  ultimately show False using p(2) by auto
qed

text \<open>What the reader checks before it reads the values one by one.\<close>

definition rim_checked :: "json \<Rightarrow> (bytes \<times> json) list \<Rightarrow> nat list \<Rightarrow> bool" where
  "rim_checked rim values sel \<longleftrightarrow>
     Option.bind (json_get (lit ''format'') rim) as_str = Some RIM_FORMAT
     \<and> (\<exists>pcr. json_get (lit ''pcr'') rim = Some pcr
          \<and> Option.bind (json_get (lit ''bank'') pcr) as_str = Some (lit ''sha256'')
          \<and> rim_selection pcr = Ok sel
          \<and> Option.bind (json_get (lit ''values'') pcr) as_object = Some values)
     \<and> rim_keys values = Ok sel"

lemma reference_from_rim_panic:
  "reference_from_rim H json_from_str s = Err Panicked \<longleftrightarrow>
   (\<exists>rim values sel. json_from_str s = Some rim \<and> rim_checked rim values sel
      \<and> rim_pcrs values sel None = Err Panicked)" (is "?L \<longleftrightarrow> ?R")
proof
  have no: "map_err Refused m = Err Panicked \<longleftrightarrow> False" for m :: "nat list res"
    by (cases m) simp_all
  assume ?L
  then obtain rim pcr sel vals where
    rim: "json_from_str s = Some rim" "rim_checked rim vals sel"
    and fail: "rim_pcrs vals sel None = Err Panicked \<or>
      (\<exists>ps slots. rim_pcrs vals sel None = Ok (ps, slots)
         \<and> collect (map (rim_slot_composites H ps) (slot_names slots)) = Err Panicked)"
    unfolding reference_from_rim_def
    by (auto simp: rbind_Err map_err_Ok ok_or_Ok no ok_or_def rim_checked_def split: option.splits if_splits)
  with rim_columns_found show ?R by blast
next
  assume ?R
  then show ?L by (auto simp: reference_from_rim_def rim_checked_def)
qed

end
