(* ===== verification/AppraiseProps.thy ===== *)
theory AppraiseProps
  imports VerifyProps Rim
begin

text \<open>
  The properties of the appraisal of attestation envelopes: what gate 1 establishes, that no
  key can be used in the weaker form, which public areas are attestation keys, what the
  composed check accepts and which reason each refusal has, and what a reference integrity
  manifest comes to.
\<close>

section \<open>Gate 1\<close>

text \<open>
  C17. Gate 1 authenticates exactly the envelopes that carry what it promises, and returns
  exactly the fields of the signed message: the bundle is the one whose digest the message
  holds; under a legacy key the message itself is signed and there is no quote; under an
  attestation key a quote is signed whose qualifying data is the digest of the message,
  over the one bank, selection and composite the message names.
\<close>

theorem gate1_exact:
  "authenticate_envelope C b attest sig ev entry_for = Ok a \<longleftrightarrow>
   (\<exists>msg. parse_message b = Ok msg
      \<and> evidence_digest (c_hash C) ev = m_evidence_hash msg
      \<and> (case attest of
           None \<Rightarrow> (\<exists>vk. entry_for (m_device_id msg) = Some (Legacy vk) \<and> signed_by C vk b sig
                     \<and> a = auth_result msg ev None)
         | Some t \<Rightarrow> (\<exists>ak q. entry_for (m_device_id msg) = Some (Ak ak) \<and> quote_parse t = Ok q
                     \<and> signed_by C (ak_vk ak) t sig
                     \<and> quote_commits (c_hash C) (sha256 (c_hash C) b) msg q
                     \<and> a = auth_result msg ev
                         (Some \<lparr>qm_clock_info = q_clock_info q, qm_firmware_version = q_firmware_version q\<rparr>))))"
  by (rule authenticate_iff)

text \<open>
  No downgrade: a device whose trust entry is an attestation key can only be authenticated
  by a quote under that key, and a device with a legacy key only by a signature on the
  message itself; the result says which it was.
\<close>

theorem gate1_no_downgrade:
  assumes "authenticate_envelope C b attest sig ev entry_for = Ok a"
  shows "case entry_for (a_device_id a) of
      None \<Rightarrow> False
    | Some (Ak ak) \<Rightarrow> (\<exists>t. attest = Some t \<and> signed_by C (ak_vk ak) t sig)
        \<and> a_binding a = TpmQuoteBound \<and> a_quote_meta a \<noteq> None
    | Some (Legacy vk) \<Rightarrow> attest = None \<and> signed_by C vk b sig
        \<and> a_binding a = SelfSigned \<and> a_quote_meta a = None"
  using assms unfolding authenticate_iff
  by (cases attest) (auto simp: auth_result_def)

text \<open>
  C28. A public area becomes an attestation key exactly when it is the encoding of an ECC key
  that is fixed to its chip and parent, made there, restricted, signing and not decrypting,
  with no symmetric and no derivation scheme, ECDSA with SHA-256 on P-256 and a point the
  curve accepts; its name is the digest of exactly those bytes.
\<close>

theorem ak_exact:
  "ak_from_tpm2b_public C b = Ok k \<longleftrightarrow>
   (\<exists>p. tpmt_layout p \<and> length (e_tpmt p) < 2 ^ 16 \<and> b = tpm2b_bytes (e_tpmt p) \<and> ak_rule p
      \<and> c_vk_from_point C (pad_left 32 (e_x p)) (pad_left 32 (e_y p)) = Some (ak_vk k)
      \<and> ak_name k = be16 TPM_ALG_SHA256 @ sha256 (c_hash C) (e_tpmt p))"
  unfolding ak_from_tpm2b_iff ecc_parse_tpm2b_iff by blast

section \<open>The composed check\<close>

text \<open>
  C19. \<open>check\<close> accepts exactly when the message is canonical and signed by the key, its digest is
  the bundle's, the bundle is well formed, the declared selection is the reference's, the
  composite is one of the known good ones, and every required kind of evidence has a
  section in the bundle.
\<close>

theorem check_accepts:
  "check C m sig ev key refs = verdict_accept \<longleftrightarrow>
   (\<exists>msg ss. parse_message m = Ok msg \<and> signed_by C key m sig
      \<and> evidence_digest (c_hash C) ev = m_evidence_hash msg \<and> parse_bundle ev = Ok ss
      \<and> m_pcr_selection msg = selection_to_canonical (rs_expected_selection refs)
      \<and> length (ps_pcr_mask (rs_expected_selection refs)) = 3
      \<and> m_pcr_hash msg \<in> set (rs_allowed refs)
      \<and> list_all (presents ss) (rs_required_evidence refs))"
proof -
  have sel: "selection_from_canonical (m_pcr_selection msg) = s \<longleftrightarrow>
      m_pcr_selection msg = selection_to_canonical s \<and> length (ps_pcr_mask s) = 3"
    if "parse_message m = Ok msg" for msg s
  proof -
    have "length (m_pcr_selection msg) = 5"
      using parse_message_sound(1) [OF that] by (simp add: wf_message_def)
    then show ?thesis
      using selection_to_from [of "m_pcr_selection msg"] selection_from_to [of s]
      by (auto simp: selection_from_canonical_def)
  qed
  have "check C m sig ev key refs = verdict_accept \<longleftrightarrow>
      (\<exists>a. authenticate C m sig ev (\<lambda>_. Some key) = Ok a \<and> appraise a refs = verdict_accept)"
    by (auto simp: check_def split: sum.splits)
  also have "\<dots> \<longleftrightarrow> (\<exists>msg. parse_message m = Ok msg \<and> signed_by C key m sig
      \<and> evidence_digest (c_hash C) ev = m_evidence_hash msg
      \<and> appraise (auth_result msg ev None) refs = verdict_accept)"
    by (auto simp: authenticate_def authenticate_iff)
  also have "\<dots> \<longleftrightarrow> (\<exists>msg ss. parse_message m = Ok msg \<and> signed_by C key m sig
      \<and> evidence_digest (c_hash C) ev = m_evidence_hash msg \<and> parse_bundle ev = Ok ss
      \<and> selection_from_canonical (m_pcr_selection msg) = rs_expected_selection refs
      \<and> m_pcr_hash msg \<in> set (rs_allowed refs)
      \<and> list_all (presents ss) (rs_required_evidence refs))"
    by (auto simp: appraise_accept_iff auth_result_def)
  finally show ?thesis using sel by blast
qed

text \<open>
  Every refusal of gate 3 has one reason, in the documented order: an unparseable bundle
  first, then a wrong selection or unknown composite, and only for a known state the first
  required kind, in the order of the profile, that the bundle lacks. \<open>Accepted\<close> is never a
  reason of a refusal and no other reason comes from gate 3.
\<close>

theorem appraise_reasons:
  "(case parse_bundle (a_evidence a) of
      Inl _ \<Rightarrow> appraise a refs = verdict_reject EvidenceUnparseable
    | Inr ss \<Rightarrow>
        (if as_selection (attested_from a) = rs_expected_selection refs \<and> a_pcr_hash a \<in> set (rs_allowed refs) then
           (if list_all (presents ss) (rs_required_evidence refs) then appraise a refs = verdict_accept
            else \<exists>pre k post. rs_required_evidence refs = pre @ k # post \<and> list_all (presents ss) pre
              \<and> \<not> presents ss k \<and> appraise a refs = verdict_reject (EvidenceMissing k))
         else appraise a refs = verdict_reject UnrecognizedState))"
proof (cases "parse_bundle (a_evidence a)")
  case (Inl e)
  then show ?thesis by (simp add: appraise_def presented_kinds_def)
next
  case (Inr ss)
  have p: "presented_kinds (a_evidence a) = Ok (presented_loop ss [])"
    using Inr by (simp add: presented_kinds_def)
  have ap: "appraise a refs = gate3 (attested_from a) (presented_loop ss []) refs"
    by (simp add: appraise_def p)
  show ?thesis
  proof (cases "as_selection (attested_from a) = rs_expected_selection refs \<and> a_pcr_hash a \<in> set (rs_allowed refs)")
    case False
    then have "gate3 (attested_from a) (presented_loop ss []) refs = verdict_reject UnrecognizedState"
      unfolding gate3_unrecognized_iff by (auto simp: attested_from_def)
    with False Inr ap show ?thesis by auto
  next
    case known: True
    show ?thesis
    proof (cases "list_all (presents ss) (rs_required_evidence refs)")
      case True
      then have "set (rs_required_evidence refs) \<subseteq> set (presented_loop ss [])"
        by (auto simp: list_all_iff in_presented)
      then have "appraise a refs = verdict_accept"
        unfolding ap gate3_accept_iff using known by (simp add: attested_from_def)
      with True known Inr show ?thesis by simp
    next
      case False
      then obtain pre k post where split: "rs_required_evidence refs = pre @ k # post" "\<not> presents ss k"
          "list_all (presents ss) pre"
        using split_list_first_prop [of "rs_required_evidence refs" "\<lambda>k. \<not> presents ss k"]
        by (auto simp: list_all_iff)
      then have "appraise a refs = verdict_reject (EvidenceMissing k)"
        unfolding ap gate3_missing_iff using known
        by (auto simp: attested_from_def list_all_iff in_presented subset_iff)
      with False known Inr split show ?thesis by auto
    qed
  qed
qed

end
