(* ===== verification/RimProps.thy ===== *)
theory RimProps
  imports AppraiseProps Numerals
begin

text \<open>
  The properties of the reader of reference integrity manifests: the reference set is exactly
  the composites a device booted from one slot can present, and one class of manifests makes
  the reader panic instead of refusing them.
\<close>

section \<open>Manifests for the witnesses\<close>

definition demo_rim :: "(bytes \<times> json) list \<Rightarrow> json" where
  "demo_rim vals = JObj [(lit ''format'', JStr RIM_FORMAT),
     (lit ''pcr'', JObj [(lit ''bank'', JStr (lit ''sha256'')),
        (lit ''selection'', JArr [JNum (Some 0)]), (lit ''values'', JObj vals)])]"

lemma lit_keys:
  "lit ''format'' \<noteq> lit ''pcr''" "lit ''bank'' \<noteq> lit ''selection''"
  "lit ''bank'' \<noteq> lit ''values''" "lit ''selection'' \<noteq> lit ''values''"
  by (simp_all add: lit_def)

lemma demo_rim_get:
  "json_get (lit ''format'') (demo_rim v) = Some (JStr RIM_FORMAT)"
  "json_get (lit ''pcr'') (demo_rim v) = Some (JObj [(lit ''bank'', JStr (lit ''sha256'')),
     (lit ''selection'', JArr [JNum (Some 0)]), (lit ''values'', JObj v)])"
  using lit_keys by (simp_all add: json_get_def demo_rim_def)

lemma demo_rim_fields:
  "json_get (lit ''bank'') (JObj [(lit ''bank'', b), (lit ''selection'', s), (lit ''values'', v)]) = Some b"
  "json_get (lit ''selection'') (JObj [(lit ''bank'', b), (lit ''selection'', s), (lit ''values'', v)]) = Some s"
  "json_get (lit ''values'') (JObj [(lit ''bank'', b), (lit ''selection'', s), (lit ''values'', v)]) = Some v"
  using lit_keys by (simp_all add: json_get_def)

lemma demo_rim_selection:
  "rim_selection (JObj [(lit ''bank'', JStr (lit ''sha256'')),
      (lit ''selection'', JArr [JNum (Some 0)]), (lit ''values'', JObj vals)]) = Ok [0]"
  by (simp add: rim_selection_def demo_rim_fields as_array_def as_u64_def sort_dedup_def)

lemma demo_rim_run:
  "reference_from_rim H (\<lambda>_. Some (demo_rim vals)) s =
   rbind (map_err Refused (rim_keys vals)) (\<lambda>keys.
   if keys \<noteq> [0] then Err (Refused (Msg ''RIM pcr.values names other PCRs than the selection'' []))
   else
   rbind (rim_pcrs vals [0] None) (\<lambda>(per_pcr, slots).
   rbind (collect (map (rim_slot_composites H per_pcr) (slot_names slots))) (\<lambda>cs.
   Ok (reference_new \<lparr>ps_hash_alg = RIM_ALG_SHA256, ps_pcr_mask = pcr_mask [0]\<rparr> (sort_dedup (concat cs))))))"
  by (simp add: reference_from_rim_def demo_rim_get demo_rim_fields demo_rim_selection as_str_def as_object_def)

definition zero_digest :: json where
  "zero_digest = JStr (hex_lower (replicate 32 0))"

lemma zero_digest_ok: "rim_digest zero_digest = Ok (replicate 32 0)"
  using hex_lower_hexdigits [of "replicate 32 0"] collect_oks [of "Msg ''from_str_radix'' []" "replicate 32 (0 :: byte)"]
  by (simp add: rim_digest_def zero_digest_def as_str_def hex_pairs_lower)

section \<open>Properties\<close>

text \<open>
  C26. The reference set of a manifest is exact: its selection is the set of indices the manifest
  names, bit for bit; and a composite is known good if and only if for one boot slot it is
  the digest of one admitted value of every selected PCR, in ascending order. Values of
  different slots are never combined. The boot slots are the names the slot-keyed PCRs give, all
  of them the same ones; a manifest with no slot-keyed PCR has one nameless slot. There is
  always a slot and a good composite, and the set is stored in ascending order without repetition.
\<close>

definition boot_slots :: "(bytes \<times> json) list \<Rightarrow> nat list \<Rightarrow> bytes option set" where
  "boot_slots values sel =
     (if \<forall>i \<in> set sel. \<forall>kvs. map_of values (dec i) \<noteq> Some (JObj kvs) then {None}
      else {Some s | s i kvs x. i \<in> set sel \<and> map_of values (dec i) = Some (JObj kvs) \<and> (s, x) \<in> set kvs})"

theorem rim_reference_exact:
  assumes "reference_from_rim H json_from_str s = Ok rs"
  shows "\<exists>rim sel values. json_from_str s = Some rim \<and> rim_values rim = Some values
     \<and> rim_keys values = Ok sel \<and> sel \<noteq> [] \<and> sorted_wrt (<) sel \<and> list_all (\<lambda>i. i \<le> 23) sel
     \<and> ps_hash_alg (rs_expected_selection rs) = 0x000B
     \<and> (\<forall>k < 3. \<forall>j < 8. bit (ps_pcr_mask (rs_expected_selection rs) ! k) j \<longleftrightarrow> 8 * k + j \<in> set sel)
     \<and> boot_slots values sel \<noteq> {}
     \<and> list_all (\<lambda>i. \<forall>kvs. map_of values (dec i) = Some (JObj kvs) \<longrightarrow>
          boot_slots values sel = Some ` fst ` set kvs) sel
     \<and> (\<forall>slot \<in> boot_slots values sel. \<exists>c. composite_of H values sel slot c)
     \<and> set (rs_allowed rs) = {c. \<exists>slot \<in> boot_slots values sel. composite_of H values sel slot c}
     \<and> sorted_wrt (<) (rs_allowed rs)"
proof -
  from reference_from_rim_sound [OF assms] obtain rim sel vals slots where
    *: "json_from_str s = Some rim" "rim_values rim = Some vals"
    and sel: "sel \<noteq> []" "sorted_wrt (<) sel" "list_all (\<lambda>i. i \<le> 23) sel" "rim_keys vals = Ok sel"
    and rs: "rs_expected_selection rs = \<lparr>ps_hash_alg = RIM_ALG_SHA256, ps_pcr_mask = pcr_mask sel\<rparr>"
    and ne: "slots \<noteq> []"
    and un: "(\<forall>i \<in> set sel. \<forall>kvs. map_of vals (dec i) \<noteq> Some (JObj kvs)) \<longrightarrow> slots = [None]"
    and st: "sorted_wrt (<) (rs_allowed rs)"
    and ex: "\<forall>slot \<in> set slots. \<exists>c. composite_of H vals sel slot c"
    and slots: "list_all (\<lambda>i. \<forall>kvs. map_of vals (dec i) = Some (JObj kvs) \<longrightarrow>
          set slots = Some ` fst ` set kvs) sel"
    and al: "\<forall>c. c \<in> set (rs_allowed rs) \<longleftrightarrow> (\<exists>slot \<in> set slots. composite_of H vals sel slot c)"
    by (elim exE conjE) (rule that; assumption)
  have b: "set slots = boot_slots vals sel"
  proof (cases "\<forall>i \<in> set sel. \<forall>kvs. map_of vals (dec i) \<noteq> Some (JObj kvs)")
    case True
    then show ?thesis using un by (simp add: boot_slots_def)
  next
    case False
    then obtain i0 kvs0 where k0: "i0 \<in> set sel" "map_of vals (dec i0) = Some (JObj kvs0)" by blast
    have names: "set slots = Some ` fst ` set kvs" if "i \<in> set sel" "map_of vals (dec i) = Some (JObj kvs)" for i kvs
      using slots that unfolding list_all_iff by blast
    have "boot_slots vals sel =
        {Some s | s i kvs x. i \<in> set sel \<and> map_of vals (dec i) = Some (JObj kvs) \<and> (s, x) \<in> set kvs}"
      unfolding boot_slots_def if_not_P [OF False] ..
    also have "\<dots> = set slots"
    proof (intro equalityI subsetI)
      fix a assume "a \<in> {Some s | s i kvs x. i \<in> set sel \<and> map_of vals (dec i) = Some (JObj kvs) \<and> (s, x) \<in> set kvs}"
      then obtain s i kvs x where "a = Some s" "i \<in> set sel" "map_of vals (dec i) = Some (JObj kvs)" "(s, x) \<in> set kvs"
        by blast
      then show "a \<in> set slots" using names [of i kvs] by (auto simp: image_iff intro: bexI [of _ "(s, x)"])
    next
      fix a assume "a \<in> set slots"
      then obtain s x where "a = Some s" "(s, x) \<in> set kvs0" using names [OF k0] by auto
      then show "a \<in> {Some s | s i kvs x. i \<in> set sel \<and> map_of vals (dec i) = Some (JObj kvs) \<and> (s, x) \<in> set kvs}"
        using k0 by blast
    qed
    finally show ?thesis by simp
  qed
  have bits: "\<forall>k < 3. \<forall>j < 8. bit (ps_pcr_mask (rs_expected_selection rs) ! k) j \<longleftrightarrow> 8 * k + j \<in> set sel"
    using sel(3) rs pcr_mask_bits by simp
  have alg: "ps_hash_alg (rs_expected_selection rs) = 0x000B"
    using rs by (simp add: RIM_ALG_SHA256_def)
  have ne': "boot_slots vals sel \<noteq> {}" using ne b by auto
  have al': "set (rs_allowed rs) = {c. \<exists>slot \<in> boot_slots vals sel. composite_of H vals sel slot c}"
    using al [unfolded b] by blast
  note slots' = slots [unfolded b] and ex' = ex [unfolded b]
  show ?thesis
    by (intro exI [of _ rim] exI [of _ sel] exI [of _ vals], intro conjI; fact)
qed

lemma rim_reference_exact_witness:
  "\<exists>rs. reference_from_rim demo_hash (\<lambda>_. Some (demo_rim [(dec 0, JArr [zero_digest])])) [] = Ok rs
     \<and> ps_hash_alg (rs_expected_selection rs) = 0x000B"
proof -
  have "rim_keys [(dec 0, JArr [zero_digest])] = Ok [0]"
    using parse_radix_dec [of 0 255] by (simp add: rim_keys_def parse_u8_def)
  moreover have "rim_pcrs [(dec 0, JArr [zero_digest])] [0] None = Ok ([AnyOf [replicate 32 0]], None)"
    by (simp add: rim_pcr_value_def zero_digest_ok sort_dedup_def)
  ultimately have "\<exists>rs. reference_from_rim demo_hash (\<lambda>_. Some (demo_rim [(dec 0, JArr [zero_digest])])) [] = Ok rs"
    by (simp add: demo_rim_run slot_names_def rim_slot_composites_def rim_column_def)
  then obtain rs where "reference_from_rim demo_hash (\<lambda>_. Some (demo_rim [(dec 0, JArr [zero_digest])])) [] = Ok rs" by blast
  with rim_reference_exact [OF this] show ?thesis by blast
qed

lemma collected_keys:
  "map (\<lambda>kv. ok_or (e kv) (f (fst kv))) xs = map Inr ks \<longleftrightarrow> map (f \<circ> fst) xs = map Some ks"
  by (induction xs arbitrary: ks) (auto simp: Cons_eq_map_conv ok_or_Ok)

lemma rim_keys_spelled:
  assumes "rim_keys values = Ok sel" "sorted_wrt (<) sel" "i \<in> set sel"
  shows "map_of values (dec i) = None \<longleftrightarrow> (\<exists>k v. (k, v) \<in> set values \<and> spells k i \<and> k \<noteq> dec i)"
proof
  assume none: "map_of values (dec i) = None"
  obtain k v where k: "(k, v) \<in> set values" "parse_u8 k = Some i"
    using rim_keys_set [OF assms(1,3)] by blast
  with none have "k \<noteq> dec i" by (auto simp: map_of_eq_None_iff image_iff)
  with k show "\<exists>k v. (k, v) \<in> set values \<and> spells k i \<and> k \<noteq> dec i" by (auto simp: parse_u8_spells)
next
  assume "\<exists>k v. (k, v) \<in> set values \<and> spells k i \<and> k \<noteq> dec i"
  then obtain k v where k: "(k, v) \<in> set values" "spells k i" "k \<noteq> dec i" by blast
  obtain ks where "collect (map (\<lambda>kv. ok_or (Msg ''RIM pcr.values: key is not a PCR index'' [Txt (fst kv)])
      (parse_u8 (fst kv))) values) = Ok ks" "sel = sort ks"
    using assms(1) by (auto simp: rim_keys_def rbind_Ok)
  then have ks: "map (parse_u8 \<circ> fst) values = map Some ks" "sel = sort ks"
    using collected_keys [of "\<lambda>kv :: bytes \<times> json. Msg ''RIM pcr.values: key is not a PCR index'' [Txt (fst kv)]" parse_u8 _ ks]
    by (simp_all only: collect_Ok)
  have "distinct ks" using assms(2) ks(2) by (metis distinct_sort strict_sorted_iff)
  then have inj: "distinct (map (parse_u8 \<circ> fst) values)" by (simp add: ks(1) distinct_map)
  have same: "kv = kv'" if "kv \<in> set values" "kv' \<in> set values" "parse_u8 (fst kv) = parse_u8 (fst kv')" for kv kv'
    using inj that unfolding distinct_map inj_on_def comp_def by blast
  have "(parse_u8 \<circ> fst) (k, v) \<in> Some ` set ks" using k(1) ks(1) by (metis image_eqI image_set)
  then obtain x where "parse_u8 k = Some x" by auto
  then have "parse_u8 k = Some i" using k(2) spells_val [of k x i] by (auto simp: parse_u8_spells)
  show "map_of values (dec i) = None"
  proof (rule ccontr)
    assume "map_of values (dec i) \<noteq> None"
    then obtain v' where v': "(dec i, v') \<in> set values" by (auto dest: map_of_SomeD)
    moreover have "parse_u8 (dec i) = Some i"
      using \<open>parse_u8 k = Some i\<close> by (auto simp: parse_u8_spells spells_dec)
    ultimately show False using same [OF k(1) v'] \<open>parse_u8 k = Some i\<close> k(3) by simp
  qed
qed

text \<open>
  C27. The reader is meant to refuse whatever it does not fully understand, but it panics, and
  exactly on these manifests: every check before the values passes, and the key of a selected PCR
  spells its index with a plus sign or leading zeros (\<open>"00"\<close>, \<open>"+0"\<close>), while the values of the PCRs
  before it are read without an error.
\<close>

theorem rim_panics:
  "reference_from_rim H json_from_str s = Err Panicked \<longleftrightarrow>
   (\<exists>rim values sel n k v. json_from_str s = Some rim \<and> rim_checked rim values sel \<and> n < length sel
      \<and> is_ok (rim_pcrs values (take n sel) None)
      \<and> (k, v) \<in> set values \<and> spells k (sel ! n) \<and> k \<noteq> dec (sel ! n))"
proof -
  have "map_of vals (dec (sel ! n)) = None \<longleftrightarrow> (\<exists>k v. (k, v) \<in> set vals \<and> spells k (sel ! n) \<and> k \<noteq> dec (sel ! n))"
    if "rim_checked rim vals sel" "n < length sel" for rim vals sel n
  proof (rule rim_keys_spelled)
    show "rim_keys vals = Ok sel" using that(1) by (simp add: rim_checked_def)
    show "sorted_wrt (<) sel"
      using that(1) by (auto simp: rim_checked_def rim_selection_def rbind_Ok if_Err_Ok sorted_sort_dedup)
    show "sel ! n \<in> set sel" using that(2) by simp
  qed
  then show ?thesis unfolding reference_from_rim_panic rim_pcrs_panic by blast
qed

lemma rim_panics_witness:
  "reference_from_rim demo_hash (\<lambda>_. Some (demo_rim [(lit ''00'', JArr [zero_digest])])) [] = Err Panicked
   \<and> reference_from_rim demo_hash (\<lambda>_. Some (demo_rim [(lit ''+0'', JArr [zero_digest])])) [] = Err Panicked"
proof -
  have panics: "reference_from_rim demo_hash (\<lambda>_. Some (demo_rim [(k, JArr [zero_digest])])) [] = Err Panicked"
    if "spells k 0" "k \<noteq> dec 0" for k
  proof -
    have "rim_checked (demo_rim [(k, JArr [zero_digest])]) [(k, JArr [zero_digest])] [0]"
      using that(1) parse_u8_spells [of k 0]
      by (simp add: rim_checked_def demo_rim_get demo_rim_fields demo_rim_selection as_str_def as_object_def rim_keys_def)
    with that show ?thesis
      unfolding rim_panics
      by (intro exI [of _ "demo_rim [(k, JArr [zero_digest])]"] exI [of _ "[(k, JArr [zero_digest])]"]
          exI [of _ "[0]"] exI [of _ 0] exI [of _ k] exI [of _ "JArr [zero_digest]"]) (simp add: is_ok_iff)
  qed
  have d: "dec 0 = [48]" by (simp add: dec.simps)
  have "spells (lit ''00'') 0" unfolding spells_def by (intro exI [of _ 1]) (simp add: d lit_def)
  moreover have "spells (lit ''+0'') 0" unfolding spells_def by (intro exI [of _ 0]) (simp add: d lit_def)
  moreover have "lit ''00'' \<noteq> dec 0" "lit ''+0'' \<noteq> dec 0" by (simp_all add: d lit_def)
  ultimately show ?thesis using panics by blast
qed

end
