(* ===== verification/ToolProps.thy ===== *)
theory ToolProps
  imports FormatProps RimProps
begin

text \<open>
  The properties of the device side of the TPM: the exact attributes the two counters must
  have and their agreement with the name the verifier computes, the identity of the key at
  its handle, the selection of PCRs and its agreement with the verifier's, and handles.
\<close>

text \<open>
  The attribute checks accept one word each, written or not yet written: nothing may be
  added or missing. For the stop counter, accepted and written is exactly the word that the
  verifier hashes into the index name it pins, so a device whose check passes has the index
  the receipts are checked against.
\<close>

theorem counter_attributes_exact:
  "(check_counter_attributes a = Ok () \<longleftrightarrow> a = COUNTER_NV_ATTRIBUTES \<or> a = COUNTER_NV_ATTRIBUTES OR TPMA_NV_WRITTEN)
   \<and> (check_stop_attributes a = Ok () \<longleftrightarrow> a = STOP_NV_ATTRIBUTES \<or> a = STOP_NV_ATTRIBUTES OR TPMA_NV_WRITTEN)
   \<and> (check_stop_attributes a = Ok () \<and> stop_attributes_written a \<longleftrightarrow> a = STOP_NV_ATTRIBUTES_WRITTEN)"
proof -
  have w: "STOP_NV_ATTRIBUTES OR TPMA_NV_WRITTEN = STOP_NV_ATTRIBUTES_WRITTEN"
    by (simp add: nv_attr_defs STOP_NV_ATTRIBUTES_def STOP_NV_ATTRIBUTES_WRITTEN_def)
  have "\<not> stop_attributes_written STOP_NV_ATTRIBUTES" "stop_attributes_written STOP_NV_ATTRIBUTES_WRITTEN"
    by (simp_all add: stop_attributes_written_def nv_attr_defs STOP_NV_ATTRIBUTES_def STOP_NV_ATTRIBUTES_WRITTEN_def)
  then show ?thesis
    unfolding check_counter_attributes_iff check_stop_attributes_iff w by auto
qed

text \<open>
  The key at the handle is the recorded one: when the comparison passes, the two public
  areas are the same bytes, or their contents are a collision of the hash.
\<close>

theorem same_ak_identity:
  assumes "same_ak H recorded at_handle = Ok ()"
  shows "recorded = at_handle \<or> collision H (drop 2 recorded) (drop 2 at_handle)"
proof -
  obtain p q where *: "ecc_parse_tpm2b recorded = Ok p" "ecc_parse_tpm2b at_handle = Ok q"
    "sha256 H (e_tpmt p) = sha256 H (e_tpmt q)"
    using assms unfolding same_ak_iff by blast
  then have b: "recorded = tpm2b_bytes (e_tpmt p)" "at_handle = tpm2b_bytes (e_tpmt q)"
    by (simp_all add: ecc_parse_tpm2b_iff)
  then have "drop 2 recorded = e_tpmt p" "drop 2 at_handle = e_tpmt q"
    by (simp_all add: tpm2b_bytes_def)
  then show ?thesis using sha256_eq_or_collision [OF *(3)] b by auto
qed

text \<open>
  Device and verifier mean the same PCRs: for every non-empty ascending list of indices up
  to 23, the specification the device hands to \<open>tpm2_pcrread\<close> is parsed to the selection
  whose bits are exactly these indices, and that is the very selection a manifest with the
  same list demands.
\<close>

theorem pcr_selection_agrees:
  assumes "sel \<noteq> []" "sorted_wrt (<) sel" "list_all (\<lambda>i. i \<le> 23) sel"
  shows "\<exists>bm. parse_pcr_spec (pcr_spec sel) = Ok (0x000B, bm) \<and> length bm = 3
    \<and> (\<forall>k < 3. \<forall>j < 8. bit (bm ! k) j \<longleftrightarrow> 8 * k + j \<in> set sel)
    \<and> (\<forall>pcr. rim_selection pcr = Ok sel \<longrightarrow>
         encode_pcr_selection 0x000B bm =
           selection_to_canonical \<lparr>ps_hash_alg = RIM_ALG_SHA256, ps_pcr_mask = pcr_mask sel\<rparr>)"
proof (intro exI conjI)
  show "parse_pcr_spec (pcr_spec sel) = Ok (0x000B, pcr_mask sel)"
    by (rule parse_pcr_spec_canonical [OF assms])
  show "\<forall>k < 3. \<forall>j < 8. bit (pcr_mask sel ! k) j \<longleftrightarrow> 8 * k + j \<in> set sel"
    using pcr_mask_bits [OF assms(3)] by blast
  show "\<forall>pcr. rim_selection pcr = Ok sel \<longrightarrow> encode_pcr_selection 0x000B (pcr_mask sel) =
      selection_to_canonical \<lparr>ps_hash_alg = RIM_ALG_SHA256, ps_pcr_mask = pcr_mask sel\<rparr>"
    by (simp add: encode_pcr_selection_def selection_to_canonical_def Let_def RIM_ALG_SHA256_def two_bytes
        flip: append_Cons)
qed simp

text \<open>
  A handle from the environment is read as a number and written in one spelling: what is
  accepted is within the range, the result is accepted again and gives itself, so the text
  handed to the tools cannot name another object than the number that was checked.
\<close>

theorem handle_canonical:
  assumes "parse_handle v lo hi = Ok h"
  shows "\<exists>n. lo \<le> n \<and> n \<le> hi \<and> n < 2 ^ 32 \<and> h = lit ''0x'' @ hex_nat n \<and> parse_radix 16 (2 ^ 32 - 1) (hex_nat n) = Some n
    \<and> parse_handle h lo hi = Ok h"
proof -
  from assms obtain n where n: "lo \<le> n" "n \<le> hi" "h = lit ''0x'' @ hex_nat n" "n \<le> 2 ^ 32 - 1"
    by (auto simp: parse_handle_iff dest: parse_radix_bound)
  then show ?thesis
    using parse_handle_canonical [OF assms] parse_radix_hex_nat [of n "2 ^ 32 - 1"]
    by (intro exI [of _ n]) auto
qed

end
