(* ===== verification/AgentDemo.thy ===== *)
theory AgentDemo
  imports AgentCounter ToolProps
begin

text \<open>
  A machine for the agent: its world is the value of the NV counter, its tools answer as
  tpm2-tools do on a provisioned device, its file operations succeed. A whole attestation
  cycle runs on it.
\<close>

definition demo_paths :: paths where
  "demo_paths = \<lparr>keys_dir = lit ''/k''\<rparr>"

definition demo_work :: bytes where "demo_work = lit ''/w''"
definition demo_out :: bytes where "demo_out = lit ''/o''"

definition demo_handles :: bytes where
  "demo_handles = lit ''- 0x81010100'' @ [10]"

definition demo_attributes :: bytes where
  "demo_attributes = lit ''  attributes:'' @ [10] @ lit ''    value: 0x20040014'' @ [10]"

definition demo_tool :: "bytes list \<Rightarrow> (u64, err, bool \<times> bytes \<times> bytes) step" where
  "demo_tool args c =
     (if is_increment args then
        (if unat c + 1 < 2 ^ 64 then (Ok (True, [], []), c + 1) else (Ok (False, [], []), c))
      else if hd args = lit ''tpm2_getcap'' then (Ok (True, demo_handles, []), c)
      else if hd args = lit ''tpm2_nvreadpublic'' then (Ok (True, demo_attributes, []), c)
      else (Ok (True, [], []), c))"

definition demo_content :: "bytes \<Rightarrow> (u64, io_error, bytes) step" where
  "demo_content p c =
     (if p = path_join demo_work (lit ''counter.bin'') then (Ok (be64 c), c)
      else if p = device_id_path demo_paths then (Ok (demo_device @ [10]), c)
      else (Ok (tpm2b_bytes (demo_area 1)), c))"

definition demo_os :: "u64 os" where
  "demo_os = \<lparr>os_run = demo_tool, os_read = demo_content, os_stat = (\<lambda>_. sret ()),
     os_env = (\<lambda>k. if k = lit ''NOTIFY_SOCKET'' then Some (lit ''/n'') else None), os_render = (\<lambda>_. [])\<rparr>"

definition demo_files :: "(u64, unit) files" where
  "demo_files =
     \<lparr>f_exists = (\<lambda>_ _. True), f_mkdirs = (\<lambda>_. sret ()), f_list = (\<lambda>_. sret []), f_remove = (\<lambda>_. sret ()),
      f_rename = (\<lambda>_ _. sret ()), f_open = (\<lambda>_. sret ()), f_create = (\<lambda>_. sret ()),
      f_create_new = (\<lambda>_ _. sret ()), f_write = (\<lambda>_ _. sret ()), f_read = (\<lambda>_ _. sret []),
      f_fsync = (\<lambda>_. sret ()), f_stat = (\<lambda>_. sret ()), f_chmod = (\<lambda>_ _. sret ())\<rparr>"

lemma demo_os_simps [simp]:
  "os_run demo_os = demo_tool" "os_read demo_os = demo_content" "os_stat demo_os p = sret ()"
  "os_env demo_os k = (if k = lit ''NOTIFY_SOCKET'' then Some (lit ''/n'') else None)"
  by (simp_all add: demo_os_def)

lemma demo_files_simps [simp]:
  "f_exists demo_files p w" "f_mkdirs demo_files p = sret ()" "f_list demo_files p = sret []"
  "f_remove demo_files p = sret ()" "f_rename demo_files p q = sret ()" "f_open demo_files p = sret ()"
  "f_create demo_files p = sret ()" "f_create_new demo_files p m = sret ()" "f_write demo_files h d = sret ()"
  "f_read demo_files h n = sret []" "f_fsync demo_files h = sret ()" "f_stat demo_files p = sret ()"
  "f_chmod demo_files p m = sret ()"
  by (simp_all add: demo_files_def)

section \<open>The laws\<close>

lemma demo_files_quiet: "quiet_files demo_files N"
  by (simp add: quiet_files_def keeps_basic)

lemma demo_increment:
  "demo_tool [lit ''tpm2_nvincrement'', nv, lit ''-C'', nv] c =
     (if unat c + 1 < 2 ^ 64 then (Ok (True, [], []), c + 1) else (Ok (False, [], []), c))"
  by (simp add: demo_tool_def is_increment_def)

lemma unat_plus_one: "unat c + 1 < 2 ^ 64 \<Longrightarrow> unat (c + 1) = unat c + 1" for c :: u64
  by (simp add: unat_word_ariths)

lemma demo_quiet_tool: "\<not> is_increment args \<Longrightarrow> keeps N (demo_tool args)"
  by (simp add: keeps_def demo_tool_def)

lemma demo_nv: "nv_tools demo_os demo_work unat"
  unfolding nv_tools_def demo_os_simps
proof (intro conjI allI impI)
  fix args w r w'
  assume "demo_tool args w = (r, w')"
  then show "unat w \<le> unat w'" by (auto simp: demo_tool_def unat_plus_one split: if_splits)
next
  fix nv out errs w w'
  assume "demo_tool [lit ''tpm2_nvincrement'', nv, lit ''-C'', nv] w = (Inr (True, out, errs), w')"
  then show "unat w < unat w'" unfolding demo_increment by (auto simp: unat_plus_one split: if_splits)
next
  fix nv out errs w w1 raw w2
  assume "demo_tool [lit ''tpm2_nvread'', nv, lit ''-C'', nv, lit ''-o'',
            utf8_lossy (path_join demo_work (lit ''counter.bin''))] w = (Inr (True, out, errs), w1)
          \<and> demo_content (path_join demo_work (lit ''counter.bin'')) w1 = (Inr raw, w2) \<and> length raw = 8"
  then show "unat (un64 raw) = unat w1" by (auto simp: demo_content_def)
qed (simp_all add: demo_quiet_tool, simp_all add: demo_content_def keeps_def)

section \<open>A cycle\<close>

lemma demo_handle: "ak_handle demo_os = Ok (lit ''0x81010100'')"
proof -
  have "parse_radix 16 (2 ^ 32 - 1) (lit ''81010100'') = Some 0x81010100"
    by (simp add: parse_radix_def lit_def radix_val_def digit_val_def is_hexdigit_def is_digit_def is_upper_def)
  moreover have "hex_nat 0x81010100 = lit ''81010100''"
    by (simp add: hex_nat.simps hex_digit_def lit_def)
  moreover have "strip_0x DEFAULT_AK_HANDLE = Some (lit ''81010100'')"
    by (simp add: strip_0x_def DEFAULT_AK_HANDLE_def lit_def strip_prefix_def starts_with_def)
  ultimately show ?thesis
    by (simp add: ak_handle_def handle_from_env_def Let_def parse_handle_def) (simp add: lit_def)
qed

lemma demo_listing: "listing_has (utf8_lossy demo_handles) (lit ''0x81010100'')"
  unfolding demo_handles_def by code_simp

lemma demo_attribute_lines:
  "map trim (str_lines (utf8_lossy demo_attributes)) = [lit ''attributes:'', lit ''value: 0x20040014'']"
  unfolding demo_attributes_def by code_simp

lemma demo_hex: "parse_radix 16 (2 ^ 32 - 1) (lit ''20040014'') = Some 0x20040014"
  by (simp add: parse_radix_def lit_def radix_val_def digit_val_def is_hexdigit_def is_digit_def is_upper_def)

lemma demo_value: "strip_prefix (lit ''value:'') (lit ''value: 0x20040014'') = Some (lit '' 0x20040014'')"
  "strip_0x (trim (lit '' 0x20040014'')) = Some (lit ''20040014'')"
  by code_simp+

lemma demo_attributes_ok:
  "rbind (parse_nv_attributes (utf8_lossy demo_attributes)) check_counter_attributes = Ok ()"
proof -
  have "parse_nv_attributes (utf8_lossy demo_attributes) = Ok 0x20040014"
    unfolding parse_nv_attributes_def demo_attribute_lines
    by (simp add: demo_value demo_hex [simplified])
  then show ?thesis by (simp add: check_counter_attributes_def) (simp add: nv_attr_defs)
qed

lemma demo_id: "utf8_valid (demo_device @ [10])" "trim (demo_device @ [10]) = demo_device"
  unfolding demo_device_def by code_simp+

lemma demo_nv_handle: "nv_counter demo_os = Ok (lit ''0x1500016'')"
proof -
  have "parse_radix 16 (2 ^ 32 - 1) (lit ''1500016'') = Some 0x1500016"
    by (simp add: parse_radix_def lit_def radix_val_def digit_val_def is_hexdigit_def is_digit_def is_upper_def)
  moreover have "hex_nat 0x1500016 = lit ''1500016''"
    by (simp add: hex_nat.simps hex_digit_def lit_def)
  moreover have "strip_0x DEFAULT_NV_COUNTER = Some (lit ''1500016'')"
    by (simp add: strip_0x_def DEFAULT_NV_COUNTER_def lit_def strip_prefix_def starts_with_def)
  ultimately show ?thesis
    by (simp add: nv_counter_def handle_from_env_def Let_def parse_handle_def) (simp add: lit_def)
qed

lemma demo_run_tool:
  "run_tool demo_os (lit ''tpm2_getcap'' # xs) c = (Ok demo_handles, c)"
  "run_tool demo_os (lit ''tpm2_nvreadpublic'' # xs) c = (Ok demo_attributes, c)"
  "run_tool demo_os (lit ''tpm2_readpublic'' # xs) c = (Ok [], c)"
  "run_tool demo_os (lit ''tpm2_nvread'' # xs) c = (Ok [], c)"
  "run_tool demo_os (lit ''tpm2_pcrread'' # xs) c = (Ok [], c)"
  "run_tool demo_os (lit ''tpm2_quote'' # xs) c = (Ok [], c)"
  "unat c + 1 < 2 ^ 64 \<Longrightarrow> run_tool demo_os [lit ''tpm2_nvincrement'', nv, lit ''-C'', nv] c = (Ok [], c + 1)"
  by (simp_all add: run_tool_def sbind_def smap_err_def demo_increment)
     (simp_all add: demo_tool_def is_increment_def lit_def)

lemma demo_same_ak: "same_ak demo_hash (tpm2b_bytes (demo_area 1)) (tpm2b_bytes (demo_area 1)) = Ok ()"
  unfolding same_ak_iff using demo_ecc_parse by (auto simp: demo_ecc_def)

lemma demo_path_neq:
  "pubkey_path demo_paths \<noteq> path_join demo_work (lit ''counter.bin'')"
  "pubkey_path demo_paths \<noteq> device_id_path demo_paths"
  "path_join demo_work (lit ''ak.handle.pub'') \<noteq> path_join demo_work (lit ''counter.bin'')"
  "path_join demo_work (lit ''ak.handle.pub'') \<noteq> device_id_path demo_paths"
  "device_id_path demo_paths \<noteq> path_join demo_work (lit ''counter.bin'')"
  by (simp_all add: pubkey_path_def device_id_path_def demo_paths_def path_join_def demo_work_def lit_def)

lemma demo_read_file:
  "read_file demo_os (pubkey_path demo_paths) c = (Ok (tpm2b_bytes (demo_area 1)), c)"
  "read_file demo_os (path_join demo_work (lit ''ak.handle.pub'')) c = (Ok (tpm2b_bytes (demo_area 1)), c)"
  "read_file demo_os (path_join demo_work (lit ''counter.bin'')) c = (Ok (be64 c), c)"
  "read_file demo_os (device_id_path demo_paths) c = (Ok (demo_device @ [10]), c)"
  "fst (read_file demo_os (path_join demo_work (lit ''pcrs.bin'')) c) = Ok (tpm2b_bytes (demo_area 1))"
  "snd (read_file demo_os p c) = c"
  using demo_path_neq
  by (simp_all add: read_file_def smap_err_def demo_content_def)
     (auto simp: path_join_def demo_work_def lit_def device_id_path_def demo_paths_def)

lemma demo_verify_ak: "verify_ak demo_hash demo_os (pubkey_path demo_paths) demo_work c = (Ok (), c)"
  by (simp add: verify_ak_def handle_exists_def read_ak_public_def sbind_def Let_def demo_handle demo_listing
      demo_run_tool demo_read_file demo_same_ak)

lemma demo_verify_counter: "verify_counter demo_os c = (Ok (), c)"
  by (simp add: verify_counter_def sbind_def demo_nv_handle demo_run_tool demo_attributes_ok)

lemma demo_take: "unat c + 1 < 2 ^ 64 \<Longrightarrow> nv_increment_and_read demo_os demo_work c = (Ok (c + 1), c + 1)"
  by (simp add: nv_increment_and_read_def Let_def sbind_def demo_nv_handle demo_run_tool demo_read_file
      counter_of_bytes_def)

lemma demo_identity: "attest_identity demo_os demo_files demo_paths c = (Ok demo_device, c)"
  using demo_device_valid validate_id_Ok [of demo_device "()"]
  by (simp add: attest_identity_def inspect_app read_id_def read_to_string_def sbind_def Let_def demo_read_file demo_id)

lemma demo_pcrs_read: "\<exists>ps. pcr_read demo_os spec demo_work c = (Ok ps, c)"
proof -
  have "read_file demo_os (path_join demo_work (lit ''pcrs.bin'')) c = (Ok (tpm2b_bytes (demo_area 1)), c)"
    using demo_read_file(5,6) by (intro prod_eqI) simp_all
  then show ?thesis by (simp add: pcr_read_def Let_def sbind_def demo_run_tool)
qed

lemma demo_publish:
  "length msg = MSG_LEN \<Longrightarrow>
   publish_envelope demo_files demo_out st msg tag (tpm_quote demo_hash demo_os msg spec) c = (Ok (), c)"
  by (simp add: publish_envelope_def stage_files_def write_synced_def sync_file_def sync_dir_def tpm_quote_def
      quote_qualified_def qualifying_data_def sbind_def stry_def smap_err_def demo_handle demo_run_tool)

lemma demo_remove: "remove_partials demo_files demo_out c = (Ok 0, c)"
  by (simp add: remove_partials_def sbind_def smap_err_def)

lemma demo_alloc:
  "alloc_next demo_os demo_work (7, alloc_new) = (Ok 0x8000000, (8, \<lparr>ca_epoch = Some 8, ca_next_seq = 1\<rparr>))"
proof -
  have "compose_counter 8 0 = Ok 0x8000000"
    by (simp add: compose_counter_iff)
  then show ?thesis
    by (simp add: alloc_next_def alloc_new_def sbind_def on_world_def demo_verify_counter demo_take new_epoch_def
        take_seq_def)
qed

definition demo_spec :: bytes where
  "demo_spec = pcr_spec [0, 1, 8]"

lemma demo_spec_parse: "parse_pcr_spec demo_spec = Ok (0x000B, demo_bitmap)"
  unfolding demo_spec_def demo_bitmap_def by (rule parse_pcr_spec_canonical) simp_all

lemma demo_cycle:
  "cmd_attest demo_hash demo_os demo_files demo_paths demo_work demo_out demo_spec (7, alloc_new)
     = (Ok 0x8000000, (8, \<lparr>ca_epoch = Some 8, ca_next_seq = 1\<rparr>))"
proof -
  obtain ps where ps: "pcr_read demo_os demo_spec demo_work 8 = (Ok ps, 8)"
    using demo_pcrs_read by blast
  have len: "length (attest_message demo_hash demo_device c a b ps) = MSG_LEN" for c a b
    by (simp add: attest_message_def length_build_canonical)
  show ?thesis
    by (simp add: cmd_attest_def sbind_def on_world_def ensure_dir_def smap_err_def demo_remove demo_identity
        demo_spec_parse demo_verify_ak demo_alloc ps Let_def len [simplified] demo_publish)
qed

end
