(* ===== verification/AgentProvision.thy ===== *)
theory AgentProvision
  imports AgentDemo
begin

text \<open>
  Provisioning (\<open>prover/main.rs\<close>, \<open>cmd_provision\<close>): what it asks of the disk and the tools, the
  order in which the key and the identity come to be, and a machine it runs on from the first
  boot to a complete identity.
\<close>

section \<open>The two files\<close>

text \<open>
  What provisioning relies on. Making directories makes neither file. Only \<open>create_new\<close> of its
  path makes the device id, and the id then stays; \<open>tpm2_readpublic\<close> leaves its output file when it
  succeeds; nothing removes the public key.
\<close>

abbreviation has_id :: "('w, 'h) files \<Rightarrow> paths \<Rightarrow> 'w \<Rightarrow> bool" where
  "has_id fs p \<equiv> f_exists fs (device_id_path p)"

abbreviation key_count :: "('w, 'h) files \<Rightarrow> paths \<Rightarrow> 'w \<Rightarrow> nat" where
  "key_count fs p \<equiv> (\<lambda>w. of_bool (f_exists fs (pubkey_path p) w))"

definition identity_disk :: "'w os \<Rightarrow> ('w, 'h) files \<Rightarrow> paths \<Rightarrow> bool" where
  "identity_disk os fs p \<longleftrightarrow>
     (\<forall>x. keeps (has_id fs p) (f_mkdirs fs x) \<and> keeps (key_count fs p) (f_mkdirs fs x))
     \<and> (\<forall>x. keeps (has_id fs p) (os_run os x) \<and> grows (key_count fs p) (os_run os x))
     \<and> (\<forall>x. keeps (has_id fs p) (os_read os x))
     \<and> (\<forall>x. keeps (has_id fs p) (os_stat os x) \<and> grows (key_count fs p) (os_stat os x))
     \<and> (\<forall>x. keeps (has_id fs p) (f_open fs x) \<and> grows (key_count fs p) (f_open fs x))
     \<and> (\<forall>x. keeps (has_id fs p) (f_stat fs x) \<and> grows (key_count fs p) (f_stat fs x))
     \<and> (\<forall>x m. keeps (has_id fs p) (f_chmod fs x m) \<and> grows (key_count fs p) (f_chmod fs x m))
     \<and> (\<forall>h x. keeps (has_id fs p) (f_write fs h x) \<and> grows (key_count fs p) (f_write fs h x))
     \<and> (\<forall>h. keeps (has_id fs p) (f_fsync fs h) \<and> grows (key_count fs p) (f_fsync fs h))
     \<and> (\<forall>m. grows (key_count fs p) (f_create_new fs (device_id_path p) m))
     \<and> (\<forall>m h w w'. f_create_new fs (device_id_path p) m w = (Inr h, w') \<longrightarrow> has_id fs p w')
     \<and> (\<forall>h out errs w w'.
          os_run os [lit ''tpm2_readpublic'', lit ''-c'', h, lit ''-o'', utf8_lossy (pubkey_path p)] w
            = (Inr (True, out, errs), w') \<longrightarrow> f_exists fs (pubkey_path p) w')"

section \<open>The three parts\<close>

definition provision_chip :: "'w os \<Rightarrow> bytes \<Rightarrow> ('w, unit) io" where
  "provision_chip os work =
     sbind (create_ak os work) (\<lambda>_.
     sbind (sres (nv_counter os)) (\<lambda>nv.
     sbind (nv_defined os nv) (\<lambda>there.
     if there then sret () else nv_define os)))"

definition provision_files :: "('w, 'h) files \<Rightarrow> paths \<Rightarrow> bytes \<Rightarrow> ('w, unit) io" where
  "provision_files fs p d =
     sbind (finalize_pubkey_perms fs p) (\<lambda>_.
     sbind (sync_dir fs (keys_dir p)) (\<lambda>_.
     write_id fs p d))"

lemma provision_key_split:
  "provision_key os fs p work d =
     sbind (provision_chip os work) (\<lambda>_. sbind (read_ak_public os (pubkey_path p)) (\<lambda>_. provision_files fs p d))"
  by (simp add: provision_key_def provision_chip_def provision_files_def sbind_assoc)

lemma grows_files:
  assumes "identity_disk os fs p"
  shows "grows (key_count fs p) (provision_files fs p d)"
  using assms unfolding identity_disk_def provision_files_def finalize_pubkey_perms_def sync_dir_def write_id_def
  by (auto intro!: grows_sbind grows_smap_err keeps_grows [OF keeps_basic(1)] keeps_grows [OF keeps_basic(3)])

lemma keeps_run_disk: "identity_disk os fs p \<Longrightarrow> keeps (has_id fs p) (run_tool os args)"
  unfolding run_tool_def identity_disk_def by (auto intro!: keeps_intros)

lemma keeps_owner_disk: "identity_disk os fs p \<Longrightarrow> keeps (has_id fs p) (run_owner os args)"
  unfolding run_owner_def owner_auth_def
  by (auto intro!: keeps_intros keeps_run_disk simp: identity_disk_def)

lemma keeps_chip:
  assumes "identity_disk os fs p"
  shows "keeps (has_id fs p) (provision_chip os work)" "keeps (has_id fs p) (read_ak_public os x)"
  unfolding provision_chip_def create_ak_def create_ek_def nv_defined_def nv_define_def read_ak_public_def Let_def
  by (intro keeps_intros keeps_run_disk keeps_owner_disk assms)+

lemma provision_files_id:
  assumes "identity_disk os fs p" "provision_files fs p d w = (Ok (), w')"
  shows "has_id fs p w'"
proof -
  from assms(2) obtain h w1 w2 w3 where c: "f_create_new fs (device_id_path p) 384 w1 = (Inr h, w2)"
    and r: "sbind (smap_err (Ctx ''write'') (f_write fs h (d @ [10]))) (\<lambda>_.
      sbind (smap_err (Ctx ''fsync'') (f_fsync fs h)) (\<lambda>_. sync_dir fs (keys_dir p))) w2 = (Ok (), w')"
    unfolding provision_files_def write_id_def sbind_Ok [of "finalize_pubkey_perms fs p"]
      sbind_Ok [of "sync_dir fs (keys_dir p)"] sbind_Ok [of "sres (validate_id d)"]
      sbind_Ok [of "smap_err (Ctx ''create'') (f_create_new fs (device_id_path p) 384)"] smap_err_Ok
    by blast
  have "has_id fs p w2" using assms(1) c unfolding identity_disk_def by blast
  moreover have k: "keeps (has_id fs p) (sbind (smap_err (Ctx ''write'') (f_write fs h (d @ [10]))) (\<lambda>_.
      sbind (smap_err (Ctx ''fsync'') (f_fsync fs h)) (\<lambda>_. sync_dir fs (keys_dir p))))"
    unfolding sync_dir_def by (intro keeps_sbind keeps_smap_err) (use assms(1) in \<open>auto simp: identity_disk_def\<close>)
  moreover have "has_id fs p w' = has_id fs p w2" by (rule keepsD [OF k r])
  ultimately show ?thesis by simp
qed

text \<open>The id is not made before the key is there, and on success both are.\<close>

lemma provision_key_order:
  assumes "identity_disk os fs p" "\<not> has_id fs p w" "provision_key os fs p work d w = (r, w')"
  shows "has_id fs p w' \<longrightarrow> f_exists fs (pubkey_path p) w'"
    and "is_ok r \<longrightarrow> has_id fs p w' \<and> f_exists fs (pubkey_path p) w'"
proof -
  have "(has_id fs p w' \<longrightarrow> f_exists fs (pubkey_path p) w')
      \<and> (is_ok r \<longrightarrow> has_id fs p w' \<and> f_exists fs (pubkey_path p) w')"
    using assms(3) unfolding provision_key_split
  proof (cases rule: sbind_run)
    case (fail e)
    then show ?thesis using assms(2) keepsD [OF keeps_chip(1) [OF assms(1)]] by (auto simp: is_ok_iff)
  next
    case (step x w1)
    then have w1: "\<not> has_id fs p w1" using assms(2) keepsD [OF keeps_chip(1) [OF assms(1)]] by metis
    from step(2) show ?thesis
    proof (cases rule: sbind_run)
      case (fail e)
      then show ?thesis using w1 keepsD [OF keeps_chip(2) [OF assms(1)]] by (auto simp: is_ok_iff)
    next
      case (step y w2)
      from step(1) have "f_exists fs (pubkey_path p) w2"
        using assms(1) unfolding read_ak_public_def identity_disk_def
        by (auto simp: sbind_Ok run_tool_Ok)
      then have "f_exists fs (pubkey_path p) w'"
        using growsD [OF grows_files [OF assms(1)] step(2)] by (cases "f_exists fs (pubkey_path p) w'") simp_all
      moreover have "is_ok r \<longrightarrow> has_id fs p w'"
        using provision_files_id [OF assms(1)] step(2) by (auto simp: is_ok_iff)
      ultimately show ?thesis by blast
    qed
  qed
  then show "has_id fs p w' \<longrightarrow> f_exists fs (pubkey_path p) w'"
    "is_ok r \<longrightarrow> has_id fs p w' \<and> f_exists fs (pubkey_path p) w'" by blast+
qed

text \<open>Before the first step on the chip: directories, the two files, the listing of the handles.\<close>

definition provision_check :: "'w os \<Rightarrow> ('w, 'h) files \<Rightarrow> paths \<Rightarrow> bytes \<Rightarrow> bytes \<Rightarrow> ('w, unit) io" where
  "provision_check os fs p work d =
     sbind (sres (validate_id d)) (\<lambda>_.
     sbind (ensure_dir fs (keys_dir p)) (\<lambda>_.
     sbind (ensure_dir fs work) (\<lambda>_.
     sbind (inspect fs p) (\<lambda>st.
     case st of
       Complete \<Rightarrow> sbind (read_id os p) (\<lambda>existing. sfail (Msg ''already provisioned'' [Txt existing]))
     | Partial i k \<Rightarrow> sfail (partial_err i k)
     | Absent \<Rightarrow>
         sbind (sres (ak_handle os)) (\<lambda>akh.
         sbind (handle_exists os akh) (\<lambda>there.
         if there then sfail (Msg ''the AK handle already holds an object'' [Txt akh]) else sret ()))))))"

lemma sbind_if: "sbind (if c then m else n) f = (if c then sbind m f else sbind n f)"
  by simp

lemma sbind_sfail: "sbind (sfail e) f = sfail e"
  by (rule ext) (simp add: sbind_def)

lemma cmd_provision_split:
  "cmd_provision os fs p work d = sbind (provision_check os fs p work d) (\<lambda>_. provision_key os fs p work d)"
  unfolding cmd_provision_def provision_check_def sbind_assoc
  by (intro arg_cong2 [of _ _ _ _ sbind] refl ext)
     (simp add: sbind_assoc sbind_if sbind_sfail split: provisioning.split cong del: if_weak_cong)

lemma keeps_check:
  assumes "\<And>x. keeps N (f_mkdirs fs x)" "\<And>x. keeps N (os_read os x)"
    "keeps N (os_run os [lit ''tpm2_getcap'', lit ''handles-persistent''])"
  shows "keeps N (provision_check os fs p work d)"
  unfolding provision_check_def ensure_dir_def inspect_def read_id_def read_to_string_def read_file_def
    handle_exists_def run_tool_def Let_def
  by (intro keeps_intros assms)+

lemma provision_check_Ok:
  assumes "provision_check os fs p work d w = (Ok u, w3)"
  obtains w1 w2 h out where "valid_device_id d"
    "ensure_dir fs (keys_dir p) w = (Ok (), w1)" "ensure_dir fs work w1 = (Ok (), w2)"
    "\<not> has_id fs p w2" "\<not> f_exists fs (pubkey_path p) w2" "ak_handle os = Ok h"
    "run_tool os [lit ''tpm2_getcap'', lit ''handles-persistent''] w2 = (Ok out, w3)"
    "\<not> listing_has (utf8_lossy out) h"
  using assms
  by (auto simp: provision_check_def sbind_Ok inspect_app handle_exists_def validate_id_Ok split: if_splits)

lemma keeps_mkdir: "(\<And>x. keeps N (f_mkdirs fs x)) \<Longrightarrow> keeps N (ensure_dir fs x)"
  unfolding ensure_dir_def by (rule keeps_smap_err)

lemma identity_disk_dirs:
  assumes "identity_disk os fs p"
  shows "keeps (has_id fs p) (ensure_dir fs x)" "keeps (key_count fs p) (ensure_dir fs x)"
  using assms by (simp_all add: identity_disk_def keeps_mkdir)

lemma keeps_check_id: "identity_disk os fs p \<Longrightarrow> keeps (has_id fs p) (provision_check os fs p work d)"
  by (rule keeps_check) (auto simp: identity_disk_def)

section \<open>A device before its first boot\<close>

text \<open>
  The world: whether the id file, the public key file and the object at the handle are there.
\<close>

type_synonym bare = "bool \<times> bool \<times> bool"

definition bare_tool :: "bytes list \<Rightarrow> (bare, err, bool \<times> bytes \<times> bytes) step" where
  "bare_tool args w =
     (case w of (i, k, a) \<Rightarrow>
        if args = [lit ''tpm2_getcap'', lit ''handles-persistent''] then
          (Ok (True, (if a then demo_handles else []), []), w)
        else if hd args = lit ''tpm2_evictcontrol'' then (Ok (True, [], []), (i, k, True))
        else if hd args = lit ''tpm2_readpublic'' then (Ok (True, [], []), (i, True, a))
        else (Ok (True, [], []), w))"

definition bare_os :: "bare os" where
  "bare_os = \<lparr>os_run = bare_tool, os_read = (\<lambda>_. sfail NotFound), os_stat = (\<lambda>_. sret ()),
     os_env = (\<lambda>k. None), os_render = (\<lambda>_. [])\<rparr>"

definition bare_files :: "(bare, unit) files" where
  "bare_files =
     \<lparr>f_exists = (\<lambda>q w. if q = device_id_path demo_paths then fst w
        else if q = pubkey_path demo_paths then fst (snd w) else True),
      f_mkdirs = (\<lambda>_. sret ()), f_list = (\<lambda>_. sret []), f_remove = (\<lambda>_. sret ()),
      f_rename = (\<lambda>_ _. sret ()), f_open = (\<lambda>_. sret ()), f_create = (\<lambda>_. sret ()),
      f_create_new = (\<lambda>_ _ w. if fst w then (Err (Msg ''File exists'' []), w) else (Ok (), (True, snd w))),
      f_write = (\<lambda>_ _. sret ()), f_read = (\<lambda>_ _. sret []), f_fsync = (\<lambda>_. sret ()), f_stat = (\<lambda>_. sret ()),
      f_chmod = (\<lambda>_ _. sret ())\<rparr>"

lemma bare_paths_differ: "pubkey_path demo_paths \<noteq> device_id_path demo_paths"
  by (rule demo_path_neq(2))

lemma bare_disk: "identity_disk bare_os bare_files demo_paths"
  unfolding identity_disk_def
  using bare_paths_differ
  by (auto simp: bare_os_def bare_files_def bare_tool_def keeps_def grows_def lit_def split: prod.splits)

lemma bare_quiet:
  "keeps (\<lambda>w. snd (snd w)) (f_mkdirs bare_files x)" "keeps (\<lambda>w. snd (snd w)) (os_read bare_os x)"
  "keeps (\<lambda>w. snd (snd w)) (os_run bare_os [lit ''tpm2_getcap'', lit ''handles-persistent''])"
  by (simp_all add: bare_files_def bare_os_def bare_tool_def keeps_def split: prod.splits)

lemma bare_run:
  "run_tool bare_os [lit ''tpm2_getcap'', lit ''handles-persistent''] w = (Ok (if snd (snd w) then demo_handles else []), w)"
  "run_tool bare_os [lit ''tpm2_getcap'', lit ''handles-nv-index''] w = (Ok [], w)"
  "run_tool bare_os (lit ''tpm2_createek'' # xs) w = (Ok [], w)"
  "run_tool bare_os (lit ''tpm2_createak'' # xs) w = (Ok [], w)"
  "run_tool bare_os (lit ''tpm2_flushcontext'' # xs) w = (Ok [], w)"
  "run_tool bare_os (lit ''tpm2_nvdefine'' # xs) w = (Ok [], w)"
  "run_tool bare_os (lit ''tpm2_nvincrement'' # xs) w = (Ok [], w)"
  "run_tool bare_os (lit ''tpm2_evictcontrol'' # xs) w = (Ok [], (fst w, fst (snd w), True))"
  "run_tool bare_os (lit ''tpm2_readpublic'' # xs) w = (Ok [], (fst w, True, snd (snd w)))"
  by (simp_all add: run_tool_def sbind_def smap_err_def bare_os_def bare_tool_def lit_def split: prod.splits)

lemma bare_handles: "ak_handle bare_os = Ok (lit ''0x81010100'')" "nv_counter bare_os = Ok (lit ''0x1500016'')"
  using demo_handle demo_nv_handle
  by (simp_all add: ak_handle_def nv_counter_def handle_from_env_def bare_os_def lit_def)

lemma bare_provision:
  "cmd_provision bare_os bare_files demo_paths demo_work demo_device (False, False, False) = (Ok (), (True, True, True))"
proof -
  have v: "validate_id demo_device = Ok ()" using demo_device_valid validate_id_Ok by blast
  have none: "\<not> listing_has (utf8_lossy []) h" for h
    by (simp add: listing_has_def str_lines_def utf8_lossy.simps)
  have owner: "run_owner bare_os xs w = (Ok out, w')" if "run_tool bare_os xs w = (Ok out, w')" for xs w out w'
    using that by (simp add: run_owner_def owner_auth_def bare_os_def sbind_def smap_err_def)
  show ?thesis
    by (simp add: cmd_provision_def v ensure_dir_def smap_err_def sbind_def inspect_app bare_paths_differ
        bare_files_def handle_exists_def bare_handles bare_run none provision_key_def create_ak_def create_ek_def
        stry_def Let_def owner nv_defined_def nv_define_def read_ak_public_def finalize_pubkey_perms_def
        sync_dir_def write_id_def)
qed

end
