(* ===== verification/AgentProps.thy ===== *)
theory AgentProps
  imports AgentCounter AgentCrash AgentProvision
begin

text \<open>
  Properties of the prover agent: its counters across cycles and restarts, when a counter
  value is spent, publication across a power cut, provisioning, pruning, the notifications
  of the service, and that the envelopes it builds are the ones gate 1 accepts.
\<close>

section \<open>Counters\<close>

text \<open>
  A history of one device: cycles of agents that are started again at will, and anything else
  that does not lower the NV counter. \<open>cs\<close> are the counters of the envelopes, latest first.
\<close>

inductive agent_history ::
    "hash \<Rightarrow> 'w os \<Rightarrow> ('w, 'h) files \<Rightarrow> bytes \<Rightarrow> ('w \<Rightarrow> nat) \<Rightarrow> 'w \<times> counter_alloc \<Rightarrow> u64 list \<Rightarrow> bool"
  for H os fs work N where
  hist_start: "agent_history H os fs work N (w, alloc_new) []"
| hist_cycle: "agent_history H os fs work N s cs \<Longrightarrow> cmd_attest H os fs p work out spec s = (Inr c, s') \<Longrightarrow>
    agent_history H os fs work N s' (c # cs)"
| hist_failed: "agent_history H os fs work N s cs \<Longrightarrow> cmd_attest H os fs p work out spec s = (Inl e, s') \<Longrightarrow>
    agent_history H os fs work N s' cs"
| hist_restart: "agent_history H os fs work N s cs \<Longrightarrow> agent_history H os fs work N (fst s, alloc_new) cs"
| hist_world: "agent_history H os fs work N (w, a) cs \<Longrightarrow> N w \<le> N w' \<Longrightarrow> agent_history H os fs work N (w', a) cs"

lemma alloc_inv_drop: "alloc_inv N s (new @ cs) \<Longrightarrow> alloc_inv N s cs"
  by (auto simp: alloc_inv_def sorted_wrt_append)

lemma history_inv:
  assumes "nv_tools os work N" "quiet_files fs N" "agent_history H os fs work N s cs"
  shows "alloc_inv N s cs"
  using assms(3)
proof (induction rule: agent_history.induct)
  case (hist_start w)
  show ?case by (simp add: alloc_inv_def alloc_new_def)
next
  case (hist_cycle s cs p out spec c s')
  then show ?case using cmd_attest_inv [OF assms(1,2)] by fastforce
next
  case (hist_failed s cs p out spec e s')
  then show ?case using cmd_attest_inv [OF assms(1,2), of s cs H p out spec "Inl e" s'] alloc_inv_drop by fastforce
next
  case (hist_restart s cs)
  then show ?case by (simp add: alloc_inv_new)
next
  case (hist_world w a cs w')
  then show ?case by (simp add: alloc_inv_grows)
qed

text \<open>
  C23. Over cycles, failures, crashes and restarts the counters of a device's envelopes
  strictly increase, and each is below the first counter of the next epoch.
\<close>

theorem counters_increase:
  assumes "nv_tools os work N" "quiet_files fs N" "agent_history H os fs work N s cs"
  shows "sorted_wrt (>) cs \<and> list_all (\<lambda>c. unat c < (N (fst s) + 1) * 2 ^ 24) cs"
  using history_inv [OF assms] by (simp add: alloc_inv_def list_all_iff)

lemma demo_history: "agent_history demo_hash demo_os demo_files demo_work unat (7, alloc_new) []"
  by (rule hist_start)

lemma counters_increase_witness:
  "\<exists>s. agent_history demo_hash demo_os demo_files demo_work unat s [0x8000000]
     \<and> sorted_wrt (>) [0x8000000 :: u64] \<and> list_all (\<lambda>c. unat c < (unat (fst s) + 1) * 2 ^ 24) [0x8000000 :: u64]"
proof -
  note h = hist_cycle [OF demo_history demo_cycle]
  show ?thesis by (rule exI, rule conjI, rule h, rule counters_increase [OF demo_nv demo_files_quiet h])
qed

lemma on_world_run: "on_world m s = (r, s') \<longleftrightarrow> m (fst s) = (r, fst s') \<and> snd s' = snd s"
  by (cases s') (auto simp: on_world_def split: prod.splits)

text \<open>
  C32. A cycle that moves the NV counter has found the identity complete, the selection well
  formed, the object at the handle to be the recorded attestation key and the counter to have
  the fixed attributes, in this order, and had no epoch left to count in.
\<close>

theorem attest_spends:
  assumes "nv_tools os work N" "quiet_files fs N"
    "cmd_attest H os fs p work out spec (w, a) = (r, (w', a'))" "N w' \<noteq> N w"
  shows "is_ok (parse_pcr_spec spec) \<and> (ca_epoch a = None \<or> SEQ_LIMIT \<le> ca_next_seq a)
    \<and> (\<exists>d w1 w2 w3 w4. attest_identity os fs p w1 = (Ok d, w2)
         \<and> verify_ak H os (pubkey_path p) work w2 = (Ok (), w3) \<and> N w3 = N w
         \<and> verify_counter os w3 = (Ok (), w4))"
proof -
  let ?M = "\<lambda>s. (N (fst s), snd s)"
  from assms(3) [unfolded cmd_attest_split] show ?thesis
  proof (cases rule: sbind_run)
    case (fail e)
    then have "?M (w', a') = ?M (w, a)" using keepsD [OF keeps_cycle(1) [OF assms(1,2)]] by blast
    then show ?thesis using assms(4) by simp
  next
    case (step sel s1)
    have M1: "?M s1 = ?M (w, a)" using keepsD [OF keeps_cycle(1) [OF assms(1,2)] step(1)] .
    obtain d w1 w2 where id: "attest_identity os fs p w1 = (Ok d, w2)" "is_ok (parse_pcr_spec spec)"
        "verify_ak H os (pubkey_path p) work w2 = (Ok (), fst s1)"
      using step(1) unfolding cycle_ready_def
      by (auto simp: is_ok_iff sbind_Ok sres_Ok on_world_run)
    from step(2) obtain q s2 where q: "alloc_next os work s1 = (q, s2)" "?M (w', a') = ?M s2"
    proof (cases rule: sbind_run)
      case (step c s2)
      then show ?thesis using that keepsD [OF keeps_cycle(2) [OF assms(1,2)] step(2)] by metis
    qed blast
    have "N (fst s2) \<noteq> N (fst s1)" using q(2) M1 assms(4) by simp
    then have "ca_epoch (snd s1) = None \<or> SEQ_LIMIT \<le> ca_next_seq (snd s1)"
      using q(1) take_seq_inv(1) by (auto simp: alloc_next_def take_seq_def Let_def split: sum.splits if_splits)
    moreover obtain v w4 where v: "verify_counter os (fst s1) = (v, w4)" by fastforce
    moreover have "v = Ok ()"
    proof (cases v)
      case (Inl e)
      then have "fst s2 = w4"
        using calculation q(1) by (auto simp: alloc_next_def on_world_def sbind_def)
      moreover have "N w4 = N (fst s1)" by (rule keepsD [OF keeps_tools(4) v]) (rule assms)
      ultimately show ?thesis using \<open>N (fst s2) \<noteq> N (fst s1)\<close> by simp
    qed simp
    ultimately have "N (fst s1) = N w" "a = snd s1" "verify_counter os (fst s1) = (Ok (), w4)"
        "ca_epoch a = None \<or> SEQ_LIMIT \<le> ca_next_seq a"
      using M1 by auto
    with id show ?thesis by blast
  qed
qed

lemma attest_spends_witness: "is_ok (parse_pcr_spec demo_spec) \<and> (\<exists>d w1 w2. attest_identity demo_os demo_files demo_paths w1 = (Ok d, w2))"
proof -
  have "unat (8 :: u64) \<noteq> unat (7 :: u64)" by simp
  from attest_spends [OF demo_nv demo_files_quiet demo_cycle this] show ?thesis by blast
qed

section \<open>Publication\<close>

definition fresh_stem :: "bytes \<Rightarrow> bytes \<Rightarrow> disk \<Rightarrow> bool" where
  "fresh_stem out st k \<longleftrightarrow> unpublished out st k
     \<and> (\<forall>e \<in> set envelope_exts. map_of (k_live k) (part_file out st e) = None)"

text \<open>
  C24. Publication survives a power cut and any failing operation, at every point: whatever part
  of the directory's changes reached the medium, a file under a name of the envelope is on
  the medium whole, and when the tag is there, or publication reported success, all four
  files are.
\<close>

theorem publish_crash_safe:
  assumes "fresh_stem out st k" "d \<in> set (crash_dirs k')"
    "publish_envelope (disk_files out) out st msg tag (disk_quote att sig) k = (r, k')"
  shows "(\<forall>i. map_of d (envelope_file out st (lit ''msg'')) = Some i \<longrightarrow> durable k' i msg)
    \<and> (\<forall>i. map_of d (envelope_file out st (lit ''attest'')) = Some i \<longrightarrow> durable k' i att)
    \<and> (\<forall>i. map_of d (envelope_file out st (lit ''sig'')) = Some i \<longrightarrow> durable k' i sig)
    \<and> (\<forall>i. map_of d (envelope_file out st (lit ''tag'')) = Some i \<longrightarrow> durable k' i tag)
    \<and> (is_ok r \<or> map_of d (envelope_file out st (lit ''tag'')) \<noteq> None \<longrightarrow>
        list_all (\<lambda>e. map_of d (envelope_file out st e) \<noteq> None) envelope_exts)"
proof -
  let ?c = "\<lambda>e. if e = lit ''msg'' then msg else if e = lit ''attest'' then att
    else if e = lit ''sig'' then sig else tag"
  have c: "?c (lit ''msg'') = msg" "?c (lit ''attest'') = att" "?c (lit ''sig'') = sig" "?c (lit ''tag'') = tag"
    by simp_all
  have s: "staged out st ?c (\<lambda>_. Gone) k"
    using assms(1) by (simp add: fresh_stem_def staged_def part_ok_def)
  have t: "triple (staged out st ?c (\<lambda>_. Gone)) (publish_envelope (disk_files out) out st msg tag (disk_quote att sig))
      (\<lambda>_. published out st ?c) (crash_ok out st ?c)"
    using publish_triple [of out st ?c] unfolding c .
  have post: "case r of Inl _ \<Rightarrow> crash_ok out st ?c k' | Inr _ \<Rightarrow> published out st ?c k'"
    using t s assms(3) unfolding triple_def by blast
  then have ok: "crash_ok out st ?c k'"
    using published_crash_ok by (auto split: sum.splits)
  have whole: "map_of d (envelope_file out st e) = Some i \<Longrightarrow> durable k' i (?c e)" if "e \<in> set envelope_exts" for e i
    by (rule crash_ok_dirs(1) [OF ok assms(2) that])
  have all: "map_of d (envelope_file out st e) \<noteq> None"
    if "is_ok r \<or> map_of d (envelope_file out st (lit ''tag'')) \<noteq> None" "e \<in> set envelope_exts" for e
  proof (cases "is_ok r")
    case True
    then have "published out st ?c k'" using post by (auto simp: is_ok_iff)
    then show ?thesis using published_dirs [OF _ assms(2) that(2), of out st ?c] by auto
  next
    case False
    then show ?thesis using crash_ok_dirs(2) [OF ok assms(2) that(2)] that(1) by blast
  qed
  show ?thesis
    unfolding list_all_iff
    using whole [of "lit ''msg''"] whole [of "lit ''attest''"] whole [of "lit ''sig''"] whole [of "lit ''tag''"] all
    unfolding c by simp
qed

text \<open>An empty disk where the operations from the \<open>n\<close>-th on fail.\<close>

definition cut_disk :: "nat \<Rightarrow> disk" where
  "cut_disk n = \<lparr>k_live = [], k_safe = [], k_pending = [], k_data = (\<lambda>_. []), k_synced = (\<lambda>_. False),
     k_next = 0, k_ops = 0, k_fate = (\<lambda>i. i < n)\<rparr>"

lemma cut_disk_fresh: "fresh_stem out st (cut_disk n)"
  by (simp add: fresh_stem_def unpublished_def nowhere_def cut_disk_def)

lemmas disk_run =
  attempt_def Let_def disk_create_def disk_write_def disk_fsync_def disk_open_def disk_rename_def disk_remove_def
  dir_step_def write_synced_def sync_file_def sync_dir_def disk_quote_def smap_err_def sbind_def stry_def
  update_conv' delete_conv'

lemma publish_all: "fst (publish_envelope (disk_files out) out st msg tag (disk_quote att sig) (cut_disk 30)) = Ok ()"
  by (simp add: publish_envelope_def stage_files_def disk_run cut_disk_def)

lemma publish_crash_safe_witness:
  "\<exists>d \<in> set (crash_dirs (snd (publish_envelope (disk_files [47]) [47] [49] [1] [2] (disk_quote [3] [4]) (cut_disk 30)))).
     list_all (\<lambda>e. map_of d (envelope_file [47] [49] e) \<noteq> None) envelope_exts"
proof -
  let ?run = "publish_envelope (disk_files [47]) [47] [49] [1] [2] (disk_quote [3] [4]) (cut_disk 30)"
  have d: "k_safe (snd ?run) \<in> set (crash_dirs (snd ?run))"
    by (auto simp: crash_dirs_def image_iff intro!: bexI [of _ "[]"])
  have run: "?run = (Ok (), snd ?run)" using publish_all [of "[47]" "[49]" "[1]" "[2]" "[3]" "[4]"]
    by (metis prod.collapse)
  show ?thesis using publish_crash_safe [OF cut_disk_fresh d run] d by auto
qed

text \<open>
  C39. A power cut between the renames leaves part of an envelope: the message stands under its
  final name, the attestation does not, and the cleaning of the next cycle takes the message
  for no interrupted file.
\<close>

theorem publish_cut_partial:
  "\<exists>n. \<exists>d \<in> set (crash_dirs (snd (publish_envelope (disk_files out) out st msg tag (disk_quote att sig) (cut_disk n)))).
     map_of d (envelope_file out st (lit ''msg'')) \<noteq> None
     \<and> map_of d (envelope_file out st (lit ''attest'')) = None
     \<and> \<not> is_part_name (st @ 46 # lit ''msg'')"
proof -
  let ?k = "snd (publish_envelope (disk_files out) out st msg tag (disk_quote att sig) (cut_disk 15))"
  have "\<not> is_part_name (st @ 46 # lit ''msg'')"
    by (simp add: is_part_name_def PART_def lit_def strip_suffix_def ends_with_def)
  moreover have "fold apply_op (k_pending ?k) (k_safe ?k) \<in> set (crash_dirs ?k)"
    by (auto simp: crash_dirs_def image_iff intro!: bexI [of _ "k_pending ?k"])
  moreover have "map_of (fold apply_op (k_pending ?k) (k_safe ?k)) (envelope_file out st (lit ''msg'')) \<noteq> None"
    "map_of (fold apply_op (k_pending ?k) (k_safe ?k)) (envelope_file out st (lit ''attest'')) = None"
    by (simp_all add: publish_envelope_def stage_files_def disk_run cut_disk_def)
  ultimately show ?thesis by blast
qed

section \<open>Provisioning\<close>

text \<open>
  C34. Provisioning spares what is there, and a device never has an id without its key. Only with a
  valid id, with neither the id file nor the public key file on the disk and with no object listed
  at the handle does it succeed or change anything that making directories, reading files and
  listing the handles leave alone (\<open>N\<close> is any such observation of the machine). When it succeeds
  both files are there; wherever it stops, the id file is there only if the key file is.
\<close>

theorem provision_guard:
  assumes "identity_disk os fs p" "\<And>x. keeps N (f_mkdirs fs x)" "\<And>x. keeps N (os_read os x)"
    "keeps N (os_run os [lit ''tpm2_getcap'', lit ''handles-persistent''])"
    "cmd_provision os fs p work d w = (r, w')"
  shows "(is_ok r \<or> N w' \<noteq> N w \<longrightarrow>
      valid_device_id d \<and> \<not> f_exists fs (device_id_path p) w \<and> \<not> f_exists fs (pubkey_path p) w
      \<and> (\<exists>w2 w3 h out. N w2 = N w \<and> ak_handle os = Ok h
           \<and> run_tool os [lit ''tpm2_getcap'', lit ''handles-persistent''] w2 = (Ok out, w3)
           \<and> \<not> listing_has (utf8_lossy out) h))
    \<and> (is_ok r \<longrightarrow> f_exists fs (device_id_path p) w' \<and> f_exists fs (pubkey_path p) w')
    \<and> (f_exists fs (device_id_path p) w' \<longrightarrow> f_exists fs (device_id_path p) w \<or> f_exists fs (pubkey_path p) w')"
  using assms(5) unfolding cmd_provision_split
proof (cases rule: sbind_run)
  case (fail e)
  have "N w' = N w" using keepsD [OF keeps_check [OF assms(2-4)] fail(1)] .
  moreover have "has_id fs p w' = has_id fs p w" by (rule keepsD [OF keeps_check_id [OF assms(1)] fail(1)])
  ultimately show ?thesis using fail(2) by (simp add: is_ok_iff)
next
  case (step u w3)
  from step(1) obtain w1 w2 h out where c: "valid_device_id d"
      "ensure_dir fs (keys_dir p) w = (Ok (), w1)" "ensure_dir fs work w1 = (Ok (), w2)"
      "\<not> has_id fs p w2" "\<not> f_exists fs (pubkey_path p) w2" "ak_handle os = Ok h"
      "run_tool os [lit ''tpm2_getcap'', lit ''handles-persistent''] w2 = (Ok out, w3)"
      "\<not> listing_has (utf8_lossy out) h"
    by (rule provision_check_Ok)
  have same: "M w2 = M w" if "\<And>x. keeps M (f_mkdirs fs x)" for M :: "'a \<Rightarrow> 'm"
    using keepsD [OF keeps_mkdir [OF that] c(2)] keepsD [OF keeps_mkdir [OF that] c(3)] by simp
  have files: "has_id fs p w2 = has_id fs p w" "f_exists fs (pubkey_path p) w2 = f_exists fs (pubkey_path p) w"
    using keepsD [OF identity_disk_dirs(1) [OF assms(1)] c(2)] keepsD [OF identity_disk_dirs(1) [OF assms(1)] c(3)]
      keepsD [OF identity_disk_dirs(2) [OF assms(1)] c(2)] keepsD [OF identity_disk_dirs(2) [OF assms(1)] c(3)]
    by (simp_all add: of_bool_eq_iff)
  have w3: "\<not> has_id fs p w3" using c(4) keepsD [OF keeps_run_disk [OF assms(1)] c(7)] by simp
  note o = provision_key_order [OF assms(1) w3 step(2)]
  have "N w2 = N w" by (rule same) (rule assms(2))
  with c files o show ?thesis by blast
qed

lemma provision_guard_witness:
  "cmd_provision bare_os bare_files demo_paths demo_work demo_device (False, False, False) = (Ok (), (True, True, True))
   \<and> valid_device_id demo_device
   \<and> snd (snd (snd (cmd_provision bare_os bare_files demo_paths demo_work demo_device (False, True, True))))
   \<and> \<not> is_ok (fst (cmd_provision bare_os bare_files demo_paths demo_work demo_device (False, True, True)))"
proof (intro conjI)
  note g = provision_guard [OF bare_disk, where N = "\<lambda>w. snd (snd w)", OF bare_quiet]
  show "cmd_provision bare_os bare_files demo_paths demo_work demo_device (False, False, False) = (Ok (), (True, True, True))"
    by (rule bare_provision)
  then show "valid_device_id demo_device" using g [OF bare_provision] by (simp add: is_ok_iff)
  obtain r w' where r: "cmd_provision bare_os bare_files demo_paths demo_work demo_device (False, True, True) = (r, w')"
    by (metis surj_pair)
  have "f_exists bare_files (pubkey_path demo_paths) (False, True, True)"
    using bare_paths_differ by (simp add: bare_files_def)
  then have "\<not> is_ok r \<and> snd (snd w') = True" using g [OF r] by auto
  then show "snd (snd (snd (cmd_provision bare_os bare_files demo_paths demo_work demo_device (False, True, True))))"
    "\<not> is_ok (fst (cmd_provision bare_os bare_files demo_paths demo_work demo_device (False, True, True)))"
    using r by simp_all
qed

section \<open>Pruning\<close>

lemma stem_of_name_inj: "stem_of_name n = Some (v, s) \<Longrightarrow> parse_u64 s = Some v"
  by (auto simp: stem_of_name_def split: option.splits if_splits prod.splits)

definition stem_keys :: "bytes list \<Rightarrow> (nat \<times> bytes) list" where
  "stem_keys names = sort (remdups (List.map_filter stem_of_name names))"

lemma set_stem_keys: "set (stem_keys names) = {x. \<exists>n \<in> set names. stem_of_name n = Some x}"
  by (force simp: stem_keys_def List.map_filter_def)

lemma distinct_remdups_adj_sorted: "sorted xs \<Longrightarrow> distinct (remdups_adj xs)" for xs :: "'a :: linorder list"
  by (induction xs rule: remdups_adj.induct) (auto dest: order_antisym)

lemma sorted_sort_remdups: "remdups_adj (sort xs) = sort (remdups xs)" for xs :: "'a :: linorder list"
  by (rule sorted_distinct_set_unique) (simp_all add: distinct_remdups_adj_sorted)

text \<open>
  Pruning removes exactly the oldest envelopes: among the envelope stems of the directory,
  ordered by number, those before the newest \<open>keep\<close>, and none when there are no more.
\<close>

theorem prune_exact:
  "\<exists>old new. old @ new = stem_keys names \<and> stems_to_prune names keep = map snd old
     \<and> length new = min keep (length (stem_keys names))
     \<and> sorted (old @ new) \<and> distinct (map snd (old @ new))
     \<and> set (old @ new) = {x. \<exists>n \<in> set names. stem_of_name n = Some x}"
proof -
  let ?ks = "stem_keys names" and ?ex = "length (stem_keys names) - keep"
  have "distinct (map snd ?ks)"
  proof -
    have "inj_on snd (set ?ks)"
    proof (rule inj_onI)
      fix x y assume "x \<in> set ?ks" "y \<in> set ?ks" "snd x = snd y"
      then show "x = y"
        unfolding set_stem_keys using stem_of_name_inj by (cases x; cases y) fastforce
    qed
    then show ?thesis by (simp add: distinct_map) (simp add: stem_keys_def)
  qed
  then show ?thesis
    by (intro exI [of _ "take ?ex ?ks"] exI [of _ "drop ?ex ?ks"])
       (simp add: stems_to_prune_def Let_def sorted_sort_remdups stem_keys_def [symmetric] set_stem_keys,
        simp add: stem_keys_def)
qed

section \<open>The service loop\<close>

abbreviation after_cycles :: "('s \<Rightarrow> 'r \<times> 's) \<Rightarrow> nat \<Rightarrow> 's \<Rightarrow> 's" where
  "after_cycles cyc m \<equiv> (\<lambda>s. snd (cyc s)) ^^ m"

lemma run_loop_exact:
  "run_loop os cyc n s = (r, ns, t) \<Longrightarrow>
   \<exists>m \<le> n. (\<forall>i < m. is_ok (fst (cyc (after_cycles cyc i s))))
     \<and> (case r of
          None \<Rightarrow> m = n \<and> t = after_cycles cyc n s \<and> ns = concat (replicate n (sd_notify os (lit ''WATCHDOG=1'')))
        | Some e \<Rightarrow> m < n \<and> cyc (after_cycles cyc m s) = (Inl e, t)
            \<and> ns = concat (replicate m (sd_notify os (lit ''WATCHDOG=1'')))
                 @ sd_notify os (lit ''STATUS=attest failed: '' @ os_render os e))"
proof (induction os cyc n s arbitrary: r ns t rule: run_loop.induct)
  case (1 os cyc s)
  then show ?case by simp
next
  case (2 os cyc n s)
  obtain q s' where c: "cyc s = (q, s')" by (cases "cyc s") auto
  show ?case
  proof (cases q)
    case (Inl e)
    then show ?thesis using "2.prems" c by (intro exI [of _ 0]) auto
  next
    case (Inr x)
    obtain r1 ns1 t1 where l: "run_loop os cyc n s' = (r1, ns1, t1)" by (cases "run_loop os cyc n s'") auto
    have r: "r = r1" "ns = sd_notify os (lit ''WATCHDOG=1'') @ ns1" "t = t1"
      using "2.prems" c Inr l by simp_all
    have shift: "after_cycles cyc (Suc i) s = after_cycles cyc i s'" for i
      using c by (simp add: funpow_Suc_right del: funpow.simps)
    from "2.IH" [OF c [symmetric, unfolded Inr] refl l] obtain m where m: "m \<le> n"
        "\<forall>i < m. is_ok (fst (cyc (after_cycles cyc i s')))"
        "case r1 of
          None \<Rightarrow> m = n \<and> t1 = after_cycles cyc n s' \<and> ns1 = concat (replicate n (sd_notify os (lit ''WATCHDOG=1'')))
        | Some e \<Rightarrow> m < n \<and> cyc (after_cycles cyc m s') = (Inl e, t1)
            \<and> ns1 = concat (replicate m (sd_notify os (lit ''WATCHDOG=1'')))
                 @ sd_notify os (lit ''STATUS=attest failed: '' @ os_render os e)"
      by blast
    have "is_ok (fst (cyc (after_cycles cyc i s)))" if "i < Suc m" for i
      using that m(2) c Inr by (cases i) (simp_all only: shift, simp_all)
    then show ?thesis
      using m(1,3) shift by (intro exI [of _ "Suc m"]) (auto simp: r simp del: funpow.simps split: option.splits)
  qed
qed

text \<open>
  C38. The service under systemd reports ready once, feeds the watchdog exactly once after each
  complete cycle, and on the first failure sends only the status and ends with that error;
  it has no other way to end.
\<close>

theorem run_notifies:
  assumes "f_exists fs (device_id_path p) w" "f_exists fs (pubkey_path p) w" "ensure_dir fs out w = (Ok (), w1)"
    "os_env os (lit ''NOTIFY_SOCKET'') = Some sock" "\<not> starts_with (lit ''@'') sock"
    "cmd_run H os fs p work out spec keep n w = (r, ns, w')"
  shows "\<exists>w2. \<exists>m \<le> n. (let cyc = run_cycle H os fs p work out spec keep in
      (\<forall>i < m. is_ok (fst (cyc (after_cycles cyc i (w2, alloc_new)))))
      \<and> (case r of
           None \<Rightarrow> m = n \<and> ns = (sock, lit ''READY=1'') # replicate n (sock, lit ''WATCHDOG=1'')
         | Some e \<Rightarrow> m < n \<and> fst (cyc (after_cycles cyc m (w2, alloc_new))) = Inl e
             \<and> ns = (sock, lit ''READY=1'') # replicate m (sock, lit ''WATCHDOG=1'')
                  @ [(sock, lit ''STATUS=attest failed: '' @ os_render os e)]))"
proof -
  let ?cyc = "run_cycle H os fs p work out spec keep"
  obtain b w2 where b: "save_boot_log H fs out (env_or os (lit ''TACTIQ_BOOT_LOG'') DEFAULT_BOOT_LOG) w1 = (b, w2)"
    by fastforce
  obtain r1 ns1 t where l: "run_loop os ?cyc n (w2, alloc_new) = (r1, ns1, t)"
    by (cases "run_loop os ?cyc n (w2, alloc_new)") auto
  have sd: "sd_notify os m = [(sock, m)]" for m using assms(4,5) by (simp add: sd_notify_def)
  have res: "r = r1" "ns = (sock, lit ''READY=1'') # ns1"
    using assms(1-3,6) b l by (simp_all add: cmd_run_def inspect_app sbind_def sd)
  have cr: "concat (replicate k [x]) = replicate k x" for k and x :: "bytes \<times> bytes"
    by (induction k) simp_all
  show ?thesis
    using run_loop_exact [OF l] unfolding Let_def res sd cr
    by (intro exI [of _ w2]) (auto split: option.splits)
qed

lemma demo_service:
  "cmd_run demo_hash demo_os demo_files demo_paths demo_work demo_out demo_spec 5 1 7
     = (None, [(lit ''/n'', lit ''READY=1''), (lit ''/n'', lit ''WATCHDOG=1'')], 8)"
proof -
  have "\<not> starts_with (lit ''@'') (lit ''/n'')" by (simp add: starts_with_def lit_def)
  then have sd: "sd_notify demo_os m = [(lit ''/n'', m)]" for m by (simp add: sd_notify_def)
  have boot: "save_boot_log demo_hash demo_files demo_out src 7 = (Ok None, 7)" for src
    by (simp add: save_boot_log_def sbind_def smap_err_def stry_def)
  have prune: "prune_audit demo_files demo_out 5 8 = (Ok 0, 8)"
    by (simp add: prune_audit_def sbind_def smap_err_def utf8_names_def List.map_filter_def stems_to_prune_def)
  have "run_cycle demo_hash demo_os demo_files demo_paths demo_work demo_out demo_spec 5 (7, alloc_new)
      = (Ok 0, (8, \<lparr>ca_epoch = Some 8, ca_next_seq = 1\<rparr>))"
    by (simp add: run_cycle_def sbind_def demo_cycle on_world_def prune)
  then show ?thesis
    by (simp add: cmd_run_def inspect_app sbind_def ensure_dir_def smap_err_def boot sd)
qed

lemma run_notifies_witness:
  "\<exists>w2. is_ok (fst (run_cycle demo_hash demo_os demo_files demo_paths demo_work demo_out demo_spec 5 (w2, alloc_new)))"
proof -
  have e: "ensure_dir demo_files demo_out 7 = (Ok (), 7)" by (simp add: ensure_dir_def smap_err_def)
  have "\<not> starts_with (lit ''@'') (lit ''/n'')" by (simp add: starts_with_def lit_def)
  from run_notifies [OF _ _ e _ this demo_service] obtain w2 where
    "\<forall>i < 1. is_ok (fst (run_cycle demo_hash demo_os demo_files demo_paths demo_work demo_out demo_spec 5
       (after_cycles (run_cycle demo_hash demo_os demo_files demo_paths demo_work demo_out demo_spec 5) i (w2, alloc_new))))"
    by (auto simp: Let_def)
  then show ?thesis by (intro exI [of _ w2]) simp
qed

section \<open>The envelope reaches the verifier\<close>

text \<open>
  C25. Whatever a cycle publishes is an envelope gate 1 accepts. The device id is the one read from
  the disk of a complete identity, the PCR values are the ones \<open>tpm2_pcrread\<close> gave for the
  specified selection after the counter was taken, and the message published next carries both,
  the counter and the selection: with any signed quote over the message's digest, that
  selection and those values, gate 1 authenticates it and returns exactly these fields.
\<close>

theorem attest_authenticates:
  assumes "cmd_attest (c_hash C) os fs p work out spec s = (Ok c, s')"
  shows "\<exists>d alg bm ps msg wi wi' wc w1. parse_pcr_spec spec = Ok (alg, bm) \<and> valid_device_id d
    \<and> f_exists fs (device_id_path p) wi \<and> f_exists fs (pubkey_path p) wi \<and> read_id os p wi = (Ok d, wi')
    \<and> (\<exists>s2 s3. alloc_next os work s2 = (Ok c, s3) \<and> wc = fst s3)
    \<and> pcr_read os spec work wc = (Ok ps, w1)
    \<and> publish_envelope fs out (dec_pad 12 (unat c)) msg (attest_tag d c) (tpm_quote (c_hash C) os msg spec) w1
        = (Ok (), fst s')
    \<and> (\<forall>att sig q ak entry. quote_parse att = Ok q \<and> signed_by C (ak_vk ak) att sig
         \<and> q_extra_data q = sha256 (c_hash C) msg \<and> q_pcr_banks q = banks_of [(alg, bm)]
         \<and> q_pcr_digest q = sha256 (c_hash C) ps \<and> entry (pad_right 16 d) = Some (Ak ak) \<longrightarrow>
         (\<exists>a. authenticate_envelope C msg (Some att) sig [] entry = Ok a \<and> a_device_id a = pad_right 16 d
            \<and> a_counter a = c \<and> a_pcr_selection a = encode_pcr_selection alg bm
            \<and> a_pcr_hash a = sha256 (c_hash C) ps \<and> a_binding a = TpmQuoteBound))"
proof -
  from assms obtain sel s1 c' s2 where
    ready: "cycle_ready (c_hash C) os fs p work out spec s = (Inr sel, s1)" and
    alloc': "alloc_next os work s1 = (Inr c', s2)" and
    rest': "cycle_rest (c_hash C) os fs work out spec sel c' s2 = (Ok c, s')"
    unfolding cmd_attest_split sbind_Ok by blast
  have "c' = c" using rest' by (auto simp: cycle_rest_def sbind_Ok Let_def split: prod.splits if_splits)
  with alloc' rest' have alloc: "alloc_next os work s1 = (Ok c, s2)"
    and rest: "cycle_rest (c_hash C) os fs work out spec sel c s2 = (Ok c, s')" by simp_all
  obtain d alg bm where sel: "sel = (d, alg, bm)" by (cases sel) auto
  have spec: "parse_pcr_spec spec = Ok (alg, bm)" and id: "\<exists>w1 w2. attest_identity os fs p w1 = (Ok d, w2)"
    using ready by (auto simp: cycle_ready_def sel sbind_Ok on_world_run)
  then have bm: "length bm = 3" by (auto simp: parse_pcr_spec_iff)
  from id obtain wi wi' where there: "f_exists fs (device_id_path p) wi" "f_exists fs (pubkey_path p) wi"
    and rd: "read_id os p wi = (Ok d, wi')"
    by (auto simp: attest_identity_def inspect_app sbind_Ok split: if_splits)
  have d: "valid_device_id d"
    using rd by (auto simp: read_id_def sbind_Ok Let_def validate_id_Ok)
  obtain ps w1 where pcr: "pcr_read os spec work (fst s2) = (Ok ps, w1)" and pub:
    "publish_envelope fs out (dec_pad 12 (unat c)) (attest_message (c_hash C) d c alg bm ps) (attest_tag d c)
       (tpm_quote (c_hash C) os (attest_message (c_hash C) d c alg bm ps) spec) w1 = (Ok (), fst s')"
    using rest by (auto simp: cycle_rest_def sel sbind_Ok on_world_run Let_def split: if_splits)
  let ?m = "\<lparr>m_device_id = pad_right DEVICE_ID_LEN d, m_counter = c, m_pcr_selection = encode_pcr_selection alg bm,
        m_pcr_hash = sha256 (c_hash C) ps, m_evidence_hash = evidence_digest (c_hash C) []\<rparr>"
  have m: "parse_message (attest_message (c_hash C) d c alg bm ps) = Ok ?m"
    unfolding attest_message_def by (rule parse_build_canonical) simp
  have bank: "selection_bank (encode_pcr_selection alg bm) = (alg, bm)"
    by (rule selection_bank_encode [OF bm])
  have alloc_ex: "\<exists>s1 s3. alloc_next os work s1 = (Ok c, s3) \<and> fst s2 = fst s3" using alloc by blast
  let ?msg = "attest_message (c_hash C) d c alg bm ps"
  have auth: "\<forall>att sig q ak entry. quote_parse att = Ok q \<and> signed_by C (ak_vk ak) att sig
         \<and> q_extra_data q = sha256 (c_hash C) ?msg \<and> q_pcr_banks q = banks_of [(alg, bm)]
         \<and> q_pcr_digest q = sha256 (c_hash C) ps \<and> entry (pad_right 16 d) = Some (Ak ak) \<longrightarrow>
         (\<exists>a. authenticate_envelope C ?msg (Some att) sig [] entry = Ok a \<and> a_device_id a = pad_right 16 d
            \<and> a_counter a = c \<and> a_pcr_selection a = encode_pcr_selection alg bm
            \<and> a_pcr_hash a = sha256 (c_hash C) ps \<and> a_binding a = TpmQuoteBound)"
    by (auto simp: authenticate_iff m quote_commits_def bank auth_result_def)
  show ?thesis
    by (intro exI [of _ d] exI [of _ alg] exI [of _ bm] exI [of _ ps] exI [of _ ?msg] exI [of _ wi] exI [of _ wi']
        exI [of _ "fst s2"] exI [of _ w1], intro conjI; fact)
qed

lemma attest_authenticates_witness:
  "\<exists>d alg bm ps w w'. parse_pcr_spec demo_spec = Ok (alg, bm) \<and> valid_device_id d
     \<and> pcr_read demo_os demo_spec demo_work w = (Ok ps, w')"
proof -
  have "cmd_attest (c_hash demo_crypto) demo_os demo_files demo_paths demo_work demo_out demo_spec (7, alloc_new)
     = (Ok 0x8000000, (8, \<lparr>ca_epoch = Some 8, ca_next_seq = 1\<rparr>))"
    using demo_cycle by simp
  from attest_authenticates [OF this] show ?thesis by blast
qed

end
