(* ===== verification/StopVerifyTool.thy ===== *)
theory StopVerifyTool
  imports StopService StopSession Rim AgentState
begin

text \<open>
  The verifier's offline tool (\<open>tools/stop-verify/src/main.rs\<close>): the challenge it draws, the
  options of \<open>check\<close> and \<open>interval\<close>, the reference composite of a build from its JSON
  document, and the verdict it prints. A command gives the lines it writes to standard
  output and its exit status. The JSON parser, the curve and the files are parameters.
\<close>

section \<open>Constants\<close>

definition PCRS :: "nat list" where "PCRS = [0, 1, 8]"
definition BITMAP :: bytes where "BITMAP = [0x03, 0x01, 0x00]"
definition SV_SHA256 :: u16 where "SV_SHA256 = 0x000B"
definition SV_USAGE :: err where "SV_USAGE = Msg ''usage'' []"

section \<open>Texts\<close>

definition sv_unhex :: "bytes \<Rightarrow> bytes res" where
  "sv_unhex s = hex_decode_with (Msg ''not an even number of hex digits'' []) (Msg ''invalid digit'' []) (trim s)"

definition sv_device_id :: "bytes \<Rightarrow> bytes res" where
  "sv_device_id s =
     (if s = [] \<or> length s > DEVICE_ID_LEN \<or> \<not> list_all is_graphic s
      then Err (Msg ''--device: 1..=16 printable ASCII characters'' [Txt s])
      else Ok (pad_right DEVICE_ID_LEN s))"

text \<open>\<open>/dev/urandom\<close> is a parameter: \<open>read_exact\<close> of a number of bytes.\<close>

definition sv_nonce :: "(nat \<Rightarrow> ('w, bytes) io) \<Rightarrow> ('w, bytes list \<times> nat) io" where
  "sv_nonce urandom =
     sbind (smap_err (Ctx ''/dev/urandom'') (urandom 32)) (\<lambda>b. sret ([hex_lower b], 0))"

section \<open>Options\<close>

record sv_seen =
  vs_ak :: "bytes option"
  vs_device :: "bytes option"
  vs_pcr_ref :: "bytes option"
  vs_slot :: "bytes option"
  vs_nonce :: "bytes option"
  vs_no_nonce :: bool

definition sv_nothing :: sv_seen where
  "sv_nothing = \<lparr>vs_ak = None, vs_device = None, vs_pcr_ref = None, vs_slot = None,
     vs_nonce = None, vs_no_nonce = False\<rparr>"

text \<open>One option with its value; \<open>None\<close> is an option this match does not know.\<close>

definition sv_option :: "bytes \<Rightarrow> bytes \<Rightarrow> sv_seen \<Rightarrow> sv_seen res option" where
  "sv_option k v p =
     (if k = lit ''--ak'' then Some (Ok (p\<lparr>vs_ak := Some v\<rparr>))
      else if k = lit ''--device'' then Some (Ok (p\<lparr>vs_device := Some v\<rparr>))
      else if k = lit ''--pcr-ref'' then Some (Ok (p\<lparr>vs_pcr_ref := Some v\<rparr>))
      else if k = lit ''--slot'' then Some (Ok (p\<lparr>vs_slot := Some v\<rparr>))
      else if k = lit ''--nonce'' then
        Some (rbind (sv_unhex v) (\<lambda>n. Ok (p\<lparr>vs_nonce := Some n\<rparr>)))
      else None)"

fun sv_scan :: "bytes list \<Rightarrow> sv_seen \<Rightarrow> sv_seen res" where
  "sv_scan [] p = Ok p"
| "sv_scan [k] p =
     (if k = lit ''--no-nonce'' then Ok (p\<lparr>vs_no_nonce := True\<rparr>)
      else if sv_option k [] p = None then Err (Msg ''unknown option'' [Txt k])
      else Err (Msg ''needs a value'' [Txt k]))"
| "sv_scan (k # v # a) p =
     (if k = lit ''--no-nonce'' then sv_scan (v # a) (p\<lparr>vs_no_nonce := True\<rparr>)
      else case sv_option k v p of
          None \<Rightarrow> Err (Msg ''unknown option'' [Txt k])
        | Some r \<Rightarrow> rbind r (sv_scan a))"

record sv_opts =
  vo_receipt :: bytes
  vo_ak :: bytes
  vo_device :: bytes
  vo_pcr_ref :: bytes
  vo_slot :: "bytes option"
  vo_nonce :: "bytes option"

definition sv_nonce_len :: "string \<Rightarrow> bytes \<Rightarrow> unit res" where
  "sv_nonce_len name n =
     (if length n < NONCE_MIN \<or> length n > NONCE_MAX then Err (Msg name [Num (length n)]) else Ok ())"

definition sv_challenge :: "sv_seen \<Rightarrow> bytes option res" where
  "sv_challenge p = (case (vs_nonce p, vs_no_nonce p) of
     (Some n, False) \<Rightarrow> rbind (sv_nonce_len ''--nonce'' n) (\<lambda>_. Ok (Some n))
   | (None, True) \<Rightarrow> Ok None
   | _ \<Rightarrow> Err (Msg ''give exactly one of --nonce HEX and --no-nonce'' []))"

definition sv_options :: "bytes list \<Rightarrow> sv_opts res" where
  "sv_options a =
     rbind (case a of
         [] \<Rightarrow> Err SV_USAGE
       | r # _ \<Rightarrow> if starts_with (lit ''--'') r then Err SV_USAGE else Ok r) (\<lambda>receipt.
     rbind (sv_scan (tl a) sv_nothing) (\<lambda>p.
     rbind (sv_challenge p) (\<lambda>nonce.
     rbind (ok_or (Msg ''--ak is required'' []) (vs_ak p)) (\<lambda>ak.
     rbind (ok_or (Msg ''--device is required'' []) (vs_device p)) (\<lambda>device.
     rbind (ok_or (Msg ''--pcr-ref is required'' []) (vs_pcr_ref p)) (\<lambda>pcr_ref.
     Ok \<lparr>vo_receipt = receipt, vo_ak = ak, vo_device = device, vo_pcr_ref = pcr_ref,
         vo_slot = vs_slot p, vo_nonce = nonce\<rparr>))))))"

section \<open>The reference composite\<close>

text \<open>Indexing a \<open>serde_json::Value\<close>: an absent key, or a value that is no object, is \<open>Null\<close>.\<close>

definition json_index :: "json \<Rightarrow> bytes \<Rightarrow> json" where
  "json_index v k = (case json_get k v of None \<Rightarrow> JNull | Some x \<Rightarrow> x)"

text \<open>The text of one PCR, and whether it was given per slot.\<close>

definition ref_hexval :: "nat \<Rightarrow> json \<Rightarrow> bytes option \<Rightarrow> (bytes \<times> bool) res" where
  "ref_hexval i v slot = (case (v, slot) of
     (JStr s, _) \<Rightarrow> Ok (s, False)
   | (JObj m, Some s) \<Rightarrow>
       rbind (ok_or (Msg ''pcr reference: PCR has no value for slot'' [Num i, Txt s])
         (Option.bind (json_get s v) as_str)) (\<lambda>x. Ok (x, True))
   | (JObj _, None) \<Rightarrow> Err (Msg ''pcr reference: PCR differs per slot; give --slot'' [Num i])
   | _ \<Rightarrow> Err (Msg ''pcr reference: no PCR'' [Num i]))"

fun ref_values :: "json \<Rightarrow> bytes option \<Rightarrow> nat list \<Rightarrow> (bytes list \<times> bool) res" where
  "ref_values pcr slot [] = Ok ([], False)"
| "ref_values pcr slot (i # is) =
     rbind (ref_hexval i (json_index pcr (dec i)) slot) (\<lambda>(hexval, own).
     rbind (ctx ''pcr reference: PCR'' (sv_unhex hexval)) (\<lambda>b.
     if length b \<noteq> 32 then Err (Msg ''pcr reference: PCR, want 32 bytes'' [Num i, Num (length b)])
     else rbind (ref_values pcr slot is) (\<lambda>(bs, per_slot). Ok (b # bs, own \<or> per_slot))))"

definition ref_note :: "bool \<Rightarrow> bytes option \<Rightarrow> bytes" where
  "ref_note per_slot slot = (case (per_slot, slot) of
     (True, Some s) \<Rightarrow> lit '', slot '' @ s
   | (False, Some s) \<Rightarrow> lit '' (same for every slot; --slot '' @ s @ lit '' not needed)''
   | _ \<Rightarrow> [])"

definition reference_composite ::
  "hash \<Rightarrow> (bytes \<Rightarrow> json option) \<Rightarrow> bytes \<Rightarrow> bytes option \<Rightarrow> (bytes \<times> bytes) res" where
  "reference_composite H json_from_str s slot =
     rbind (ok_or (Msg ''pcr reference'' []) (json_from_str s)) (\<lambda>doc.
     let format = (case as_str (json_index doc (lit ''format'')) of None \<Rightarrow> [] | Some f \<Rightarrow> f) in
     if format \<noteq> lit ''tactiq-pcr-reference/1'' \<and> format \<noteq> lit ''tactiq-pcr-reference/2'' then
       Err (Msg ''pcr reference: format'' [Txt format])
     else if as_str (json_index doc (lit ''bank'')) \<noteq> Some (lit ''sha256'') then
       Err (Msg ''pcr reference: bank is not sha256'' [])
     else
     rbind (ref_values (json_index doc (lit ''pcr'')) slot PCRS) (\<lambda>(bs, per_slot).
     Ok (sha256 H (concat bs), ref_note per_slot slot)))"

section \<open>\<open>check\<close>\<close>

text \<open>The lines of the report, with \<open>println!\<close>'s literal texts.\<close>

definition freshness_line :: "bytes option \<Rightarrow> bytes" where
  "freshness_line nonce = (case nonce of
     Some n \<Rightarrow> lit ''fresh       yes: answers nonce '' @ hex_lower n
   | None \<Rightarrow> lit ''fresh       no: no nonce, proves what was said, not when'')"

definition kind_line :: "stop_kind \<Rightarrow> bytes" where
  "kind_line k = (case k of
     Status \<Rightarrow> lit ''kind        status answer''
   | Refusal d \<Rightarrow> lit ''kind        refusal of one call, request '' @ hex_lower d)"

definition verdict_of :: "stop_basis \<Rightarrow> bytes list \<times> bytes \<times> nat" where
  "verdict_of b = (case b of
     CounterBasis \<Rightarrow>
       ([lit ''basis       the counter is odd, as the TPM read it; in the build named above every call is refused at an odd counter''],
        lit ''STOPPED'', 0)
   | NoReleaseBasis \<Rightarrow>
       ([lit ''basis       even counter, the stop service found no valid operator release for it''],
        lit ''STOPPED'', 0)
   | RunningBasis \<Rightarrow>
       ([lit ''basis       even counter, the stop service found the operator's release for it'',
         lit ''            (the release itself is not in the receipt and was not checked here)''],
        lit ''RUNNING'', 2))"

definition verdict_line :: "bytes \<Rightarrow> bool \<Rightarrow> bytes" where
  "verdict_line verdict fresh =
     lit ''VERDICT     '' @ verdict @ (if fresh then [] else lit '', not fresh'')"

definition check_report :: "sv_opts \<Rightarrow> nat \<Rightarrow> bytes \<Rightarrow> bytes \<Rightarrow> stop_finding \<Rightarrow> bytes list \<times> nat" where
  "check_report p n name note f =
     (case verdict_of (basis f) of (why, verdict, code) \<Rightarrow>
       ([lit ''receipt     '' @ vo_receipt p @ lit '' ('' @ dec n @ lit '' bytes)'',
         lit ''device      '' @ vo_device p,
         lit ''ak          name '' @ hex_lower name,
         lit ''build       PCR 0, 1, 8 equal to '' @ vo_pcr_ref p @ note,
         freshness_line (vo_nonce p),
         kind_line (sf_kind f),
         lit ''counter     '' @ dec (unat (sf_stop_epoch f)) @ lit '' (''
           @ (if odd_epoch (sf_stop_epoch f) then lit ''odd'' else lit ''even'')
           @ lit ''), read and signed by the TPM'',
         lit ''policy      sha256 '' @ hex_lower (sf_policy_digest f)]
        @ why @ [verdict_line verdict (sf_fresh f)], code))"

definition sv_trust :: "'k ak_key \<Rightarrow> bytes \<Rightarrow> bytes \<Rightarrow> bytes option \<Rightarrow> 'k stop_trust" where
  "sv_trust ak device_id composite nonce =
     \<lparr>st_ak = ak, st_device_id = device_id, st_pcr_selection = encode_pcr_selection SV_SHA256 BITMAP,
      st_pcr_composite = composite, st_nonce = nonce\<rparr>"

definition sv_check ::
  "('k, 's) crypto \<Rightarrow> (bytes \<Rightarrow> json option) \<Rightarrow> 'w os \<Rightarrow> bytes list \<Rightarrow> ('w, bytes list \<times> nat) io" where
  "sv_check C json_from_str os a =
     sbind (sres (sv_options a)) (\<lambda>p.
     sbind (read_file os (vo_receipt p)) (\<lambda>receipt.
     sbind (read_file os (vo_ak p)) (\<lambda>ak_bytes.
     sbind (sres (ctx ''ak'' (ak_from_tpm2b_public C ak_bytes))) (\<lambda>ak.
     sbind (read_to_string os (vo_pcr_ref p)) (\<lambda>ref_text.
     sbind (sres (reference_composite (c_hash C) json_from_str ref_text (vo_slot p))) (\<lambda>(composite, note).
     sbind (sres (sv_device_id (vo_device p))) (\<lambda>device_id.
     sbind (sres (verify_stop_receipt C receipt (sv_trust ak device_id composite (vo_nonce p)))) (\<lambda>f.
     sret (check_report p (length receipt) (ak_name ak) note f)))))))))"

section \<open>\<open>interval\<close>\<close>

record sv_ends =
  ve_seen :: sv_seen
  ve_first :: "bytes option"
  ve_second :: "bytes option"

definition end_option :: "bytes \<Rightarrow> bytes \<Rightarrow> sv_ends \<Rightarrow> sv_ends res" where
  "end_option k v e =
     (if k = lit ''--nonce-first'' then rbind (sv_unhex v) (\<lambda>n. Ok (e\<lparr>ve_first := Some n\<rparr>))
      else if k = lit ''--nonce-second'' then rbind (sv_unhex v) (\<lambda>n. Ok (e\<lparr>ve_second := Some n\<rparr>))
      else if k = lit ''--nonce'' then Err (Msg ''unknown option'' [Txt k])
      else case sv_option k v (ve_seen e) of
          None \<Rightarrow> Err (Msg ''unknown option'' [Txt k])
        | Some r \<Rightarrow> rbind r (\<lambda>p. Ok (e\<lparr>ve_seen := p\<rparr>)))"

fun end_scan :: "bytes list \<Rightarrow> sv_ends \<Rightarrow> sv_ends res" where
  "end_scan [] e = Ok e"
| "end_scan [k] e = Err (Msg ''needs a value'' [Txt k])"
| "end_scan (k # v # a) e = rbind (end_option k v e) (end_scan a)"

record sv_interval_opts =
  vi_first :: bytes
  vi_second :: bytes
  vi_first_nonce :: bytes
  vi_second_nonce :: bytes
  vi_ak :: bytes
  vi_device :: bytes
  vi_pcr_ref :: bytes
  vi_slot :: "bytes option"

definition interval_options :: "bytes list \<Rightarrow> sv_interval_opts res" where
  "interval_options a =
     rbind (case a of
         f # s # _ \<Rightarrow> if \<not> starts_with (lit ''--'') f \<and> \<not> starts_with (lit ''--'') s
                       then Ok (f, s) else Err SV_USAGE
       | _ \<Rightarrow> Err SV_USAGE) (\<lambda>(first, second).
     rbind (end_scan (drop 2 a) \<lparr>ve_seen = sv_nothing, ve_first = None, ve_second = None\<rparr>) (\<lambda>e.
     rbind (ok_or (Msg ''--nonce-first is required'' []) (ve_first e)) (\<lambda>n1.
     rbind (ok_or (Msg ''--nonce-second is required'' []) (ve_second e)) (\<lambda>n2.
     rbind (sv_nonce_len ''--nonce-first'' n1) (\<lambda>_.
     rbind (sv_nonce_len ''--nonce-second'' n2) (\<lambda>_.
     rbind (ok_or (Msg ''--ak is required'' []) (vs_ak (ve_seen e))) (\<lambda>ak.
     rbind (ok_or (Msg ''--pcr-ref is required'' []) (vs_pcr_ref (ve_seen e))) (\<lambda>pcr_ref.
     rbind (ok_or (Msg ''--device is required'' []) (vs_device (ve_seen e))) (\<lambda>device.
     Ok \<lparr>vi_first = first, vi_second = second, vi_first_nonce = n1, vi_second_nonce = n2,
         vi_ak = ak, vi_device = device, vi_pcr_ref = pcr_ref, vi_slot = vs_slot (ve_seen e)\<rparr>)))))))))"

definition interval_report :: "sv_interval_opts \<Rightarrow> bytes \<Rightarrow> bytes \<Rightarrow> stop_interval \<Rightarrow> bytes list" where
  "interval_report p name note v =
     [lit ''first       '' @ vi_first p @ lit '': answers nonce '' @ hex_lower (vi_first_nonce p),
      lit ''second      '' @ vi_second p @ lit '': answers nonce '' @ hex_lower (vi_second_nonce p),
      lit ''device      '' @ vi_device p,
      lit ''ak          name '' @ hex_lower name,
      lit ''build       PCR 0, 1, 8 equal to '' @ vi_pcr_ref p @ note @ lit '', at both ends'',
      lit ''counter     '' @ dec (unat (si_stop_epoch v)) @ lit '' (odd) at both ends, read and signed by the TPM'',
      lit ''tpm boot    resetCount '' @ dec (unat (tc_reset_count (si_from v)))
        @ lit '', restartCount '' @ dec (unat (tc_restart_count (si_from v)))
        @ lit '' at both ends: no reboot and no resume in between'',
      lit ''tpm clock   '' @ dec (unat (tc_clock (si_from v))) @ lit '' to '' @ dec (unat (tc_clock (si_to v)))
        @ lit '' ms, '' @ dec (unat (held_ms v)) @ lit '' ms apart (TPM time, not wall time)'',
      lit ''basis       the counter never moved and the TPM did not reboot; in the build named above every call is refused at an odd counter'',
      lit ''not shown   that no command reached a process: that is an observation of the process, not of this device'',
      lit ''VERDICT     HELD'']"

definition sv_interval ::
  "('k, 's) crypto \<Rightarrow> (bytes \<Rightarrow> json option) \<Rightarrow> 'w os \<Rightarrow> bytes list \<Rightarrow> ('w, bytes list \<times> nat) io" where
  "sv_interval C json_from_str os a =
     sbind (sres (interval_options a)) (\<lambda>p.
     sbind (read_file os (vi_first p)) (\<lambda>r1.
     sbind (read_file os (vi_second p)) (\<lambda>r2.
     sbind (read_file os (vi_ak p)) (\<lambda>ak_bytes.
     sbind (sres (ctx ''ak'' (ak_from_tpm2b_public C ak_bytes))) (\<lambda>ak.
     sbind (read_to_string os (vi_pcr_ref p)) (\<lambda>ref_text.
     sbind (sres (reference_composite (c_hash C) json_from_str ref_text (vi_slot p))) (\<lambda>(composite, note).
     sbind (sres (sv_device_id (vi_device p))) (\<lambda>device_id.
     sbind (sres (verify_stop_interval C r1 (vi_first_nonce p) r2 (vi_second_nonce p)
                    (sv_trust ak device_id composite None))) (\<lambda>v.
     sret (interval_report p (ak_name ak) note v, 0))))))))))"

section \<open>The tool\<close>

definition sv_command ::
  "('k, 's) crypto \<Rightarrow> (bytes \<Rightarrow> json option) \<Rightarrow> (nat \<Rightarrow> ('w, bytes) io) \<Rightarrow> 'w os \<Rightarrow> bytes list
     \<Rightarrow> ('w, bytes list \<times> nat) io" where
  "sv_command C json_from_str urandom os args =
     (case args of
        [] \<Rightarrow> sfail SV_USAGE
      | c # a \<Rightarrow>
          if c = lit ''nonce'' \<and> a = [] then sv_nonce urandom
          else if c = lit ''check'' then sv_check C json_from_str os a
          else if c = lit ''interval'' then sv_interval C json_from_str os a
          else sfail SV_USAGE)"

text \<open>Standard output and the exit status; the error text goes to standard error.\<close>

definition sv_main ::
  "('k, 's) crypto \<Rightarrow> (bytes \<Rightarrow> json option) \<Rightarrow> (nat \<Rightarrow> ('w, bytes) io) \<Rightarrow> 'w os \<Rightarrow> bytes list
     \<Rightarrow> 'w \<Rightarrow> (bytes list \<times> nat) \<times> 'w" where
  "sv_main C json_from_str urandom os args w =
     (case sv_command C json_from_str urandom os args w of
        (Inr out, w') \<Rightarrow> (out, w')
      | (Inl e, w') \<Rightarrow> (([lit ''VERDICT     REFUSED''], 1), w'))"

end
