(* ===== verification/HexText.thy ===== *)
theory HexText
  imports NumText
begin

text \<open>
  What the decoder of hexadecimal text accepts: pairs of digits, in either case, and nothing
  else; the value is the one whose lower-case text it is.
\<close>

section \<open>Hexadecimal text\<close>

lemma hex_digit_of: "is_hexdigit a \<Longrightarrow> hex_digit (digit_val a) = to_lower a"
proof -
  assume h: "is_hexdigit a"
  have inv: "of_nat (unat a) = a" by simp
  consider "is_digit a" | "65 \<le> unat a" "unat a \<le> 70" | "97 \<le> unat a" "unat a \<le> 102"
    using h by (auto simp: is_hexdigit_def)
  then show ?thesis
  proof cases
    case 1
    then have "48 + (unat a - 48) = unat a" by (simp add: is_digit_def)
    then have "of_nat (48 + (unat a - 48)) = a" using inv by metis
    moreover have "unat a - 48 < 10" using 1 by (auto simp: is_digit_def)
    ultimately show ?thesis
      using 1 by (simp add: hex_digit_def digit_val_def to_lower_def is_upper_def is_digit_def)
  next
    case 2
    then have "87 + (unat a - 55) = unat a + 32" by simp
    then have "of_nat (87 + (unat a - 55)) = a + 32" using inv by (metis of_nat_add of_nat_numeral)
    moreover have "\<not> unat a - 55 < 10" using 2 by simp
    ultimately show ?thesis using 2 by (simp add: hex_digit_def digit_val_def to_lower_def is_upper_def is_digit_def)
  next
    case 3
    then have "87 + (unat a - 87) = unat a" by simp
    then have "of_nat (87 + (unat a - 87)) = a" using inv by metis
    moreover have "\<not> unat a - 87 < 10" using 3 by simp
    ultimately show ?thesis using 3 by (simp add: hex_digit_def digit_val_def to_lower_def is_upper_def is_digit_def)
  qed
qed

lemma digit_val_lt_16: "is_hexdigit a \<Longrightarrow> digit_val a < 16"
  unfolding digit_val_def is_hexdigit_def is_digit_def by (simp split: if_split) linarith

lemma hex_lower_empty: "[] = hex_lower v \<longleftrightarrow> v = []"
  using length_hex_lower [of v] by (cases v) (auto simp: hex_lower_def)

lemma odd_not_hex_lower: "[x] \<noteq> hex_lower v"
  using length_hex_lower [of v] by (metis One_nat_def dvd_triv_left length_Cons list.size(3) odd_one)

lemma hex_lower_Cons: "hex_lower (b # bs) = hex_lower [b] @ hex_lower bs"
  by (simp add: hex_lower_def)

lemma hex_lower_inj: "hex_lower x = hex_lower y \<longleftrightarrow> x = y"
proof
  assume "hex_lower x = hex_lower y"
  then have "map Some x = map Some y" unfolding hex_pairs_lower [symmetric] by (rule arg_cong)
  then show "x = y" by (simp add: inj_map_eq_map)
qed simp

lemma hex_decode_with_Ok:
  "hex_decode_with e e2 s = Ok v \<longleftrightarrow> list_all is_hexdigit s \<and> map to_lower s = hex_lower v"
proof (induction s arbitrary: v rule: hex_pairs.induct)
  case (1 a b s)
  have val: "digit_val a < 16" "digit_val b < 16" if "is_hexdigit a" "is_hexdigit b"
    by (rule digit_val_lt_16, rule that)+
  define n :: byte where "n = of_nat (digit_val a * 16 + digit_val b)"
  have low: "hex_lower [n] = [to_lower a, to_lower b]" if h: "is_hexdigit a" "is_hexdigit b"
  proof -
    have "digit_val a * 16 + digit_val b < 256" using val [OF h] by simp
    then have "unat n = digit_val a * 16 + digit_val b"
      by (simp add: n_def unat_of_nat del: of_nat_add of_nat_mult)
    then show ?thesis using val [OF h] h by (simp add: hex_lower_def hex_digit_of)
  qed
  show ?case
  proof (cases "is_hexdigit a \<and> is_hexdigit b")
    case True
    then have "hex_decode_with e e2 (a # b # s) = Ok v \<longleftrightarrow>
       (\<exists>w. v = n # w \<and> hex_decode_with e e2 s = Ok w)"
      by (auto simp: hex_decode_with_def parse_hex_pair rbind_Ok n_def)
    also have "\<dots> \<longleftrightarrow> list_all is_hexdigit s \<and> (\<exists>w. v = n # w \<and> map to_lower s = hex_lower w)"
      using 1 by blast
    also have "\<dots> \<longleftrightarrow> list_all is_hexdigit (a # b # s) \<and> map to_lower (a # b # s) = hex_lower v"
    proof (cases v)
      case (Cons c w)
      have v: "hex_lower v = hex_lower [c] @ hex_lower w"
        unfolding Cons by (rule hex_lower_Cons)
      have "map to_lower (a # b # s) = hex_lower [n] @ map to_lower s"
        using low True by simp
      then have "map to_lower (a # b # s) = hex_lower v \<longleftrightarrow> n = c \<and> map to_lower s = hex_lower w"
        unfolding v by (simp add: hex_lower_inj append_eq_append_conv del: list.map append_Cons)
      with True Cons show ?thesis by auto
    qed (simp add: hex_lower_def)
    finally show ?thesis .
  qed (auto simp: hex_decode_with_def)
qed (auto simp: hex_decode_with_def hex_lower_def [of "[]"] odd_not_hex_lower hex_lower_empty)

lemma hex_lower_graphic: "list_all is_graphic (hex_lower bs)"
  using hex_lower_hexdigits [of bs] by (auto simp: list_all_iff is_hexdigit_def is_digit_def is_graphic_def)

end
