(* ===== verification/StopVerifyProps.thy ===== *)
theory StopVerifyProps
  imports StopVerifyTool StopProps AppraiseProps HexText
begin

text \<open>
  The properties of the verifier's tool: the reference composite is the one of the document
  and the slot, an exit status other than 1 is a verified receipt, and the round trip from
  the challenge through the device's \<open>status\<close> to the verdict.
\<close>

section \<open>The reference composite\<close>

text \<open>The text a document gives for one PCR, and the value it spells in hexadecimal.\<close>

definition pcr_text :: "json \<Rightarrow> bytes option \<Rightarrow> nat \<Rightarrow> bytes \<Rightarrow> bool" where
  "pcr_text doc slot i s \<longleftrightarrow>
     (let v = json_index (json_index doc (lit ''pcr'')) (dec i) in
      v = JStr s \<or> (\<exists>m sl. v = JObj m \<and> slot = Some sl \<and> map_of m sl = Some (JStr s)))"

definition pcr_states :: "json \<Rightarrow> bytes option \<Rightarrow> nat \<Rightarrow> bytes \<Rightarrow> bool" where
  "pcr_states doc slot i v \<longleftrightarrow> length v = 32 \<and>
     (\<exists>s. pcr_text doc slot i s \<and> list_all is_hexdigit (trim s) \<and> map to_lower (trim s) = hex_lower v)"

definition is_pcr_reference :: "json \<Rightarrow> bool" where
  "is_pcr_reference doc \<longleftrightarrow>
     json_index doc (lit ''format'') \<in> {JStr (lit ''tactiq-pcr-reference/1''), JStr (lit ''tactiq-pcr-reference/2'')}
     \<and> json_index doc (lit ''bank'') = JStr (lit ''sha256'')"

lemma as_str_Some: "as_str v = Some s \<longleftrightarrow> v = JStr s"
  by (cases v) (simp_all add: as_str_def)

lemma ref_hexval_iff:
  "(\<exists>own. ref_hexval i (json_index (json_index doc (lit ''pcr'')) (dec i)) slot = Ok (s, own))
   \<longleftrightarrow> pcr_text doc slot i s"
  by (auto simp: ref_hexval_def pcr_text_def Let_def rbind_Ok ok_or_Ok bind_eq_Some_conv as_str_Some
        json_get_def split: json.splits option.splits)

lemma ref_values_iff:
  "(\<exists>own. ref_values (json_index doc (lit ''pcr'')) slot is = Ok (bs, own))
   \<longleftrightarrow> list_all2 (pcr_states doc slot) is bs"
proof (induction "is" arbitrary: bs)
  case (Cons i "is")
  have "(\<exists>own. ref_values (json_index doc (lit ''pcr'')) slot (i # is) = Ok (bs, own)) \<longleftrightarrow>
      (\<exists>s v vs. (\<exists>own. ref_hexval i (json_index (json_index doc (lit ''pcr'')) (dec i)) slot = Ok (s, own))
         \<and> sv_unhex s = Ok v \<and> length v = 32
         \<and> (\<exists>own. ref_values (json_index doc (lit ''pcr'')) slot is = Ok (vs, own)) \<and> bs = v # vs)"
    by (auto simp: rbind_Ok if_Err_Ok ctx_Ok split_beta)
  also have "\<dots> \<longleftrightarrow> list_all2 (pcr_states doc slot) (i # is) bs"
    unfolding ref_hexval_iff Cons.IH sv_unhex_def hex_decode_with_Ok pcr_states_def list_all2_Cons1
    by blast
  finally show ?case .
qed auto

lemma format_text: "x \<noteq> [] \<Longrightarrow> (case as_str j of None \<Rightarrow> [] | Some f \<Rightarrow> f) = x \<longleftrightarrow> j = JStr x"
  by (cases j) (auto simp: as_str_def)

lemma reference_composite_Ok:
  "reference_composite H json_from_str s slot = Ok (c, note) \<longleftrightarrow>
   (\<exists>doc bs own. json_from_str s = Some doc \<and> is_pcr_reference doc
      \<and> ref_values (json_index doc (lit ''pcr'')) slot PCRS = Ok (bs, own)
      \<and> c = sha256 H (concat bs) \<and> note = ref_note own slot)"
proof -
  have ne: "lit ''tactiq-pcr-reference/1'' \<noteq> []" "lit ''tactiq-pcr-reference/2'' \<noteq> []"
    by (simp_all add: lit_def)
  show ?thesis
    unfolding reference_composite_def is_pcr_reference_def Let_def rbind_Ok ok_or_Ok if_Err_Ok
      as_str_Some split_beta format_text [OF ne(1)] format_text [OF ne(2)]
    by (simp only: split_paired_Ex fst_conv snd_conv sum.inject prod.inject insert_iff empty_iff) blast
qed

lemma list_all2_three:
  "list_all2 P [a, b, c] bs \<longleftrightarrow> (\<exists>x y z. bs = [x, y, z] \<and> P a x \<and> P b y \<and> P c z)"
  by (auto simp: list_all2_Cons1)

lemma concat_three: "concat [x, y, z] = x @ y @ z"
  by simp

text \<open>
  The reference composite of the verifier's tool is exact: a document is accepted when
  its format is one of the two the tool knows, its bank is SHA-256 and PCR 0, 1 and 8 each
  have a value of 32 bytes in hexadecimal, its own or the named slot's; the composite is
  then the digest of these three values in this order, and nothing else in the document
  matters. A value given per slot is never used without the slot being named.
\<close>

theorem sv_reference_exact:
  "(\<exists>note. reference_composite H json_from_str s slot = Ok (c, note)) \<longleftrightarrow>
   (\<exists>doc v0 v1 v8. json_from_str s = Some doc \<and> is_pcr_reference doc
      \<and> pcr_states doc slot 0 v0 \<and> pcr_states doc slot 1 v1 \<and> pcr_states doc slot 8 v8
      \<and> c = sha256 H (v0 @ v1 @ v8))"
proof -
  have "(\<exists>note. reference_composite H json_from_str s slot = Ok (c, note)) \<longleftrightarrow>
    (\<exists>doc bs. json_from_str s = Some doc \<and> is_pcr_reference doc
      \<and> (\<exists>own. ref_values (json_index doc (lit ''pcr'')) slot PCRS = Ok (bs, own)) \<and> c = sha256 H (concat bs))"
    unfolding reference_composite_Ok by blast
  also have "\<dots> \<longleftrightarrow> (\<exists>doc v0 v1 v8. json_from_str s = Some doc \<and> is_pcr_reference doc
      \<and> pcr_states doc slot 0 v0 \<and> pcr_states doc slot 1 v1 \<and> pcr_states doc slot 8 v8
      \<and> c = sha256 H (v0 @ v1 @ v8))"
    unfolding ref_values_iff PCRS_def list_all2_three using concat_three by metis
  finally show ?thesis .
qed


section \<open>The verdict\<close>

text \<open>
  What a command is given, for a machine whose files hold still: the key, the build and the
  device, as the trust the receipt is checked against.
\<close>

definition sv_given ::
  "('k, 's) crypto \<Rightarrow> (bytes \<Rightarrow> json option) \<Rightarrow> (bytes \<Rightarrow> io_error + bytes)
     \<Rightarrow> bytes \<Rightarrow> bytes \<Rightarrow> bytes option \<Rightarrow> bytes \<Rightarrow> bytes option \<Rightarrow> 'k stop_trust \<Rightarrow> bool" where
  "sv_given C json_from_str content ak_path ref_path slot device nonce t \<longleftrightarrow>
     (\<exists>akb ak s c note. content ak_path = Inr akb \<and> ak_from_tpm2b_public C akb = Ok ak
        \<and> content ref_path = Inr s \<and> utf8_valid s
        \<and> reference_composite (c_hash C) json_from_str s slot = Ok (c, note)
        \<and> valid_device_id device
        \<and> t = \<lparr>st_ak = ak, st_device_id = pad_right DEVICE_ID_LEN device,
                st_pcr_selection = encode_pcr_selection 0x000B (pcr_mask [0, 1, 8]),
                st_pcr_composite = c, st_nonce = nonce\<rparr>)"

definition sv_finding ::
  "('k, 's) crypto \<Rightarrow> (bytes \<Rightarrow> json option) \<Rightarrow> (bytes \<Rightarrow> io_error + bytes) \<Rightarrow> bytes list
     \<Rightarrow> stop_finding \<Rightarrow> bool" where
  "sv_finding C json_from_str content a f \<longleftrightarrow>
     (\<exists>p t receipt. sv_options a = Ok p \<and> content (vo_receipt p) = Inr receipt
        \<and> sv_given C json_from_str content (vo_ak p) (vo_pcr_ref p) (vo_slot p) (vo_device p) (vo_nonce p) t
        \<and> verify_stop_receipt C receipt t = Ok f)"

lemma sv_device_id_Ok: "sv_device_id s = Ok d \<longleftrightarrow> valid_device_id s \<and> d = pad_right DEVICE_ID_LEN s"
  by (auto simp: sv_device_id_def valid_device_id_def)

lemma bitmap_fixed: "encode_pcr_selection SV_SHA256 BITMAP = encode_pcr_selection 0x000B (pcr_mask [0, 1, 8])"
proof -
  have "pcr_mask [0, 1, 8] = [0x03, 0x01, 0x00]" by code_simp
  then show ?thesis by (simp add: SV_SHA256_def BITMAP_def)
qed

text \<open>On such a machine a command is a function of the contents.\<close>

definition quiet_bytes :: "(bytes \<Rightarrow> io_error + bytes) \<Rightarrow> bytes \<Rightarrow> bytes res" where
  "quiet_bytes content p = map_err (\<lambda>e. Ctx ''read'' (io_err e)) (content p)"

definition quiet_text :: "(bytes \<Rightarrow> io_error + bytes) \<Rightarrow> bytes \<Rightarrow> bytes res" where
  "quiet_text content p = rbind (quiet_bytes content p) (\<lambda>raw.
     if utf8_valid raw then Ok raw else Err (Ctx ''read'' (Msg ''stream did not contain valid UTF-8'' [])))"

lemma quiet_Ok:
  "quiet_bytes content p = Ok b \<longleftrightarrow> content p = Inr b"
  "quiet_text content p = Ok b \<longleftrightarrow> content p = Inr b \<and> utf8_valid b"
  by (auto simp: quiet_bytes_def quiet_text_def map_err_Ok rbind_Ok if_Ok_Err)

lemma sres_fuse: "sbind (sres m) (\<lambda>x. sres (g x)) = sres (rbind m g)"
  by (rule ext) (simp add: sbind_def rbind_def split: sum.splits)

lemma sret_sres: "sret x = sres (Ok x)"
  by (rule ext) simp

lemma read_file_quiet:
  "(\<And>p w. os_read os p w = (content p, w)) \<Longrightarrow> read_file os p = sres (quiet_bytes content p)"
  by (rule ext) (simp add: read_file_def quiet_bytes_def smap_err_def)

lemma read_to_string_quiet:
  assumes "\<And>p w. os_read os p w = (content p, w)"
  shows "read_to_string os p = sres (quiet_text content p)"
  unfolding read_to_string_def quiet_text_def read_file_quiet [OF assms]
  by (rule ext) (simp add: sbind_def rbind_def split: sum.splits)

lemma verdict_code: "snd (check_report p n name note f) = (if basis f = RunningBasis then 2 else 0)"
  by (simp add: check_report_def verdict_of_def split: stop_basis.splits)


lemma check_report_pair:
  "check_report p n nm nt f = (fst (check_report p n nm nt f), if basis f = RunningBasis then 2 else 0)"
  by (rule prod_eqI) (simp_all add: verdict_code)

lemma sv_check_quiet:
  assumes "\<And>p w. os_read os p w = (content p, w)"
  shows "sv_check C json_from_str os a = sres (
     rbind (sv_options a) (\<lambda>p.
     rbind (quiet_bytes content (vo_receipt p)) (\<lambda>receipt.
     rbind (quiet_bytes content (vo_ak p)) (\<lambda>ak_bytes.
     rbind (ctx ''ak'' (ak_from_tpm2b_public C ak_bytes)) (\<lambda>ak.
     rbind (quiet_text content (vo_pcr_ref p)) (\<lambda>ref_text.
     rbind (reference_composite (c_hash C) json_from_str ref_text (vo_slot p)) (\<lambda>(composite, note).
     rbind (sv_device_id (vo_device p)) (\<lambda>device_id.
     rbind (verify_stop_receipt C receipt (sv_trust ak device_id composite (vo_nonce p))) (\<lambda>f.
     Ok (fst (check_report p (length receipt) (ak_name ak) note f),
         if basis f = RunningBasis then 2 else 0))))))))))"
  unfolding sv_check_def read_file_quiet [OF assms] read_to_string_quiet [OF assms] sret_sres split_beta sres_fuse
    check_report_pair [symmetric]
  by (rule refl)

lemma sv_interval_quiet:
  assumes "\<And>p w. os_read os p w = (content p, w)"
  shows "sv_interval C json_from_str os a = sres (
     rbind (interval_options a) (\<lambda>p.
     rbind (quiet_bytes content (vi_first p)) (\<lambda>r1.
     rbind (quiet_bytes content (vi_second p)) (\<lambda>r2.
     rbind (quiet_bytes content (vi_ak p)) (\<lambda>ak_bytes.
     rbind (ctx ''ak'' (ak_from_tpm2b_public C ak_bytes)) (\<lambda>ak.
     rbind (quiet_text content (vi_pcr_ref p)) (\<lambda>ref_text.
     rbind (reference_composite (c_hash C) json_from_str ref_text (vi_slot p)) (\<lambda>(composite, note).
     rbind (sv_device_id (vi_device p)) (\<lambda>device_id.
     rbind (verify_stop_interval C r1 (vi_first_nonce p) r2 (vi_second_nonce p)
                    (sv_trust ak device_id composite None)) (\<lambda>v.
     Ok (interval_report p (ak_name ak) note v, 0)))))))))))"
  unfolding sv_interval_def read_file_quiet [OF assms] read_to_string_quiet [OF assms] sret_sres split_beta
    sres_fuse
  by (rule refl)

lemma sv_main_sres:
  "sv_command C json_from_str rnd os args = sres m \<Longrightarrow>
   sv_main C json_from_str rnd os args w =
     ((case m of Ok out \<Rightarrow> out | Err e \<Rightarrow> ([lit ''VERDICT     REFUSED''], 1)), w)"
  by (simp add: sv_main_def split: sum.splits)

lemma sv_words: "lit ''check'' \<noteq> lit ''nonce''" "lit ''interval'' \<noteq> lit ''nonce''" "lit ''interval'' \<noteq> lit ''check''"
  by (simp_all add: lit_def)

lemma sv_command_words:
  "sv_command C json_from_str rnd os (lit ''check'' # a) = sv_check C json_from_str os a"
  "sv_command C json_from_str rnd os (lit ''interval'' # a) = sv_interval C json_from_str os a"
  using sv_words by (simp_all add: sv_command_def)

lemma sv_given_trust:
  "sv_given C json_from_str content ak_path ref_path slot device nonce t \<longleftrightarrow>
   (\<exists>akb ak s c note. quiet_bytes content ak_path = Ok akb \<and> ak_from_tpm2b_public C akb = Ok ak
        \<and> quiet_text content ref_path = Ok s
        \<and> reference_composite (c_hash C) json_from_str s slot = Ok (c, note)
        \<and> (\<exists>d. sv_device_id device = Ok d \<and> t = sv_trust ak d c nonce))"
  unfolding sv_given_def sv_trust_def bitmap_fixed quiet_Ok sv_device_id_Ok by blast

text \<open>
  C33. The exit status of \<open>check\<close> is what it says, for a machine whose files hold still: 0
  exactly when the receipt is accepted under the given key, build, device and challenge and
  states a stop, 2 exactly when it is accepted and states that the agent runs, 1 otherwise.
\<close>

theorem sv_check_exact:
  assumes "\<And>p w. os_read os p w = (content p, w)"
    and "sv_main C json_from_str rnd os (lit ''check'' # a) w = ((out, code), w')"
  shows "(code = 0 \<longleftrightarrow> (\<exists>f. sv_finding C json_from_str content a f \<and> basis f \<noteq> RunningBasis))
    \<and> (code = 2 \<longleftrightarrow> (\<exists>f. sv_finding C json_from_str content a f \<and> basis f = RunningBasis))
    \<and> code \<in> {0, 1, 2}"
proof -
  obtain m where m: "sv_command C json_from_str rnd os (lit ''check'' # a) = sres m"
    and Ok: "\<And>r. m = Ok r \<Longrightarrow>
      \<exists>f. sv_finding C json_from_str content a f \<and> snd r = (if basis f = RunningBasis then 2 else 0)"
    and fnd: "\<And>f. sv_finding C json_from_str content a f \<Longrightarrow>
      \<exists>r. m = Ok r \<and> snd r = (if basis f = RunningBasis then 2 else 0)"
  proof (rule that [OF trans [OF sv_command_words(1) sv_check_quiet [OF assms(1)]]], goal_cases)
    case (1 r)
    then show ?case
      by (auto simp: sv_finding_def sv_given_trust rbind_Ok ctx_Ok quiet_Ok)
  next
    case (2 f)
    then show ?case
      by (auto simp: sv_finding_def sv_given_trust quiet_Ok(1) [symmetric])
  qed
  show ?thesis
  proof (cases m)
    case (Inl e)
    then have "code = 1" using assms(2) by (simp add: sv_main_sres [OF m])
    moreover have "\<nexists>f. sv_finding C json_from_str content a f" using fnd Inl by auto
    ultimately show ?thesis by simp
  next
    case (Inr r)
    then have "code = snd r" using assms(2) by (simp add: sv_main_sres [OF m])
    moreover obtain f where f: "sv_finding C json_from_str content a f" "snd r = (if basis f = RunningBasis then 2 else 0)"
      using Ok [OF Inr] by blast
    moreover have "basis g = RunningBasis \<longleftrightarrow> basis f = RunningBasis" if "sv_finding C json_from_str content a g" for g
      using fnd [OF that] Inr f(2) by (auto split: if_splits)
    ultimately show ?thesis by (cases "basis f = RunningBasis") auto
  qed
qed


text \<open>
  \<open>interval\<close> exits with 0 exactly when the two receipts are accepted as one held stop
  under the given key, build, device and challenges, each challenge of 16 to 64 bytes and
  the two of them different, and with 1 otherwise.
\<close>

definition sv_held ::
  "('k, 's) crypto \<Rightarrow> (bytes \<Rightarrow> json option) \<Rightarrow> (bytes \<Rightarrow> io_error + bytes) \<Rightarrow> bytes list
     \<Rightarrow> stop_interval \<Rightarrow> bool" where
  "sv_held C json_from_str content a v \<longleftrightarrow>
     (\<exists>p t r1 r2. interval_options a = Ok p \<and> content (vi_first p) = Inr r1 \<and> content (vi_second p) = Inr r2
        \<and> sv_given C json_from_str content (vi_ak p) (vi_pcr_ref p) (vi_slot p) (vi_device p) None t
        \<and> verify_stop_interval C r1 (vi_first_nonce p) r2 (vi_second_nonce p) t = Ok v)"

lemma sv_interval_code:
  assumes "\<And>p w. os_read os p w = (content p, w)"
    and "sv_main C json_from_str rnd os (lit ''interval'' # a) w = ((out, code), w')"
  shows "(code = 0 \<longleftrightarrow> (\<exists>v. sv_held C json_from_str content a v)) \<and> code \<in> {0, 1}"
proof -
  obtain m where m: "sv_command C json_from_str rnd os (lit ''interval'' # a) = sres m"
    and Ok: "\<And>r. m = Ok r \<Longrightarrow> (\<exists>v. sv_held C json_from_str content a v) \<and> snd r = 0"
    and held: "\<And>v. sv_held C json_from_str content a v \<Longrightarrow> \<exists>r. m = Ok r"
  proof (rule that [OF trans [OF sv_command_words(2) sv_interval_quiet [OF assms(1)]]], goal_cases)
    case (1 r)
    then show ?case
      by (auto simp: sv_held_def sv_given_trust rbind_Ok ctx_Ok quiet_Ok)
  next
    case (2 v)
    then show ?case
      by (auto simp: sv_held_def sv_given_trust quiet_Ok(1) [symmetric])
  qed
  show ?thesis
    using assms(2) Ok held by (cases m) (auto simp: sv_main_sres [OF m])
qed

section \<open>The round trip\<close>

definition check_args :: "bytes \<Rightarrow> bytes \<Rightarrow> bytes \<Rightarrow> bytes \<Rightarrow> bytes option \<Rightarrow> bytes \<Rightarrow> bytes list" where
  "check_args receipt_path ak_path device ref_path slot nonce =
     [lit ''check'', receipt_path, lit ''--ak'', ak_path, lit ''--device'', device, lit ''--pcr-ref'', ref_path]
     @ (case slot of None \<Rightarrow> [] | Some s \<Rightarrow> [lit ''--slot'', s]) @ [lit ''--nonce'', hex_lower nonce]"

lemma trim_empty: "trim [] = []"
  by code_simp

lemma trim_hex_lower [simp]: "trim (hex_lower n) = hex_lower n"
  using hex_lower_graphic [of n]
  by (cases "hex_lower n = []") (auto simp: trim_empty list_all_iff intro!: trim_graphic_edges)

lemma sv_unhex_lower: "sv_unhex (hex_lower n) = Ok n"
  by (simp add: sv_unhex_def hex_decode_with_lower)

lemma sv_option_names:
  "sv_option (lit ''--ak'') v p = Some (Ok (p\<lparr>vs_ak := Some v\<rparr>))"
  "sv_option (lit ''--device'') v p = Some (Ok (p\<lparr>vs_device := Some v\<rparr>))"
  "sv_option (lit ''--pcr-ref'') v p = Some (Ok (p\<lparr>vs_pcr_ref := Some v\<rparr>))"
  "sv_option (lit ''--slot'') v p = Some (Ok (p\<lparr>vs_slot := Some v\<rparr>))"
  "sv_option (lit ''--nonce'') v p = Some (rbind (sv_unhex v) (\<lambda>n. Ok (p\<lparr>vs_nonce := Some n\<rparr>)))"
  by (simp_all add: sv_option_def lit_def)

lemma no_nonce_name:
  "lit ''--ak'' \<noteq> lit ''--no-nonce''" "lit ''--device'' \<noteq> lit ''--no-nonce''"
  "lit ''--pcr-ref'' \<noteq> lit ''--no-nonce''" "lit ''--slot'' \<noteq> lit ''--no-nonce''"
  "lit ''--nonce'' \<noteq> lit ''--no-nonce''"
  by (simp_all add: lit_def)

lemma check_args_options:
  assumes "\<not> starts_with (lit ''--'') receipt_path" "16 \<le> length nonce" "length nonce \<le> 64"
  shows "sv_options (tl (check_args receipt_path ak_path device ref_path slot nonce)) =
    Ok \<lparr>vo_receipt = receipt_path, vo_ak = ak_path, vo_device = device, vo_pcr_ref = ref_path,
        vo_slot = slot, vo_nonce = Some nonce\<rparr>"
  using assms
  by (cases slot) (simp_all add: sv_options_def check_args_def sv_option_names no_nonce_name sv_nothing_def
      sv_unhex_lower sv_challenge_def sv_nonce_len_def)


lemma last_report: "last (fst (check_report p n nm nt f)) =
    (case verdict_of (basis f) of (_, verdict, _) \<Rightarrow> verdict_line verdict (sf_fresh f))"
  by (simp add: check_report_def verdict_of_def split: stop_basis.splits)

lemma status_basis:
  assumes "gate C L e w1 = (Inr g, w2)"
  shows "basis \<lparr>sf_kind = Status, sf_state = gate_state g, sf_stop_epoch = e, sf_policy_digest = d,
      sf_fresh = fr, sf_clock = clk\<rparr> = RunningBasis \<longleftrightarrow> gate_state g = Running"
proof (cases "odd_epoch e")
  case True
  then have "g = GateStopped" using assms gate_odd [of e C L w1] by (simp add: odd_epoch_iff)
  with True show ?thesis by (simp add: basis_def gate_state_def)
qed (simp add: basis_def split: stop_state.splits)

lemma check_runs:
  assumes "\<And>p u. os_read os p u = (content p, u)" "sv_options a = Ok p"
    "content (vo_receipt p) = Inr receipt" "content (vo_ak p) = Inr akb" "ak_from_tpm2b_public C akb = Ok ak"
    "content (vo_pcr_ref p) = Inr s" "utf8_valid s"
    "reference_composite (c_hash C) json_from_str s (vo_slot p) = Ok (c, nt)" "valid_device_id (vo_device p)"
    "verify_stop_receipt C receipt (sv_trust ak (pad_right DEVICE_ID_LEN (vo_device p)) c (vo_nonce p)) = Ok f"
  shows "sv_main C json_from_str rnd os (lit ''check'' # a) v =
    ((fst (check_report p (length receipt) (ak_name ak) nt f), if basis f = RunningBasis then 2 else 0), v)"
  unfolding sv_main_sres [OF trans [OF sv_command_words(1) sv_check_quiet [OF assms(1)]]]
  using assms(2-) by (simp add: quiet_Ok [THEN iffD2] sv_device_id_Ok [THEN iffD2])

text \<open>
  A verifier's machine with still files that holds the receipt, a key file for \<open>vk\<close> and a
  reference document of the build whose PCR values are \<open>pcrs\<close>.
\<close>

definition desk_ready ::
  "('k, 's) crypto \<Rightarrow> (bytes \<Rightarrow> json option) \<Rightarrow> 'k \<Rightarrow> bytes \<Rightarrow> bytes
     \<Rightarrow> bytes \<Rightarrow> bytes \<Rightarrow> bytes \<Rightarrow> bytes option \<Rightarrow> 'v os \<Rightarrow> bool" where
  "desk_ready C json_from_str vk pcrs receipt rp akp rf slot os \<longleftrightarrow> \<not> starts_with (lit ''--'') rp
     \<and> (\<exists>content akb ak s nt. (\<forall>p u. os_read os p u = (content p, u))
         \<and> content rp = Inr receipt \<and> content akp = Inr akb \<and> ak_from_tpm2b_public C akb = Ok ak \<and> ak_vk ak = vk
         \<and> content rf = Inr s \<and> utf8_valid s
         \<and> reference_composite (c_hash C) json_from_str s slot = Ok (sha256 (c_hash C) pcrs, nt))"

text \<open>
  C7. The round trip ends with the device's state. On a working machine with the fixed
  selection of the stop service, \<open>tactiq-stop status\<close> given the challenge yields a receipt;
  the verifier's \<open>check\<close>, given that receipt, the device's attestation key, the reference
  document of the build the device booted and the same challenge, exits with 2 exactly when
  the gate is open at the chip's counter and with 0 when the device is stopped, and its last
  line says so without the mark \<open>not fresh\<close>.
\<close>

theorem stop_round_trip:
  assumes "works C vk T x val pcrs" "ctx_ok C x"
    "x_pcr_alg x = 0x000B" "x_pcr_bitmap x = pcr_mask [0, 1, 8]" "valid_device_id (x_device_id x)"
    "16 \<le> length nonce" "length nonce \<le> 64"
  shows "\<exists>receipt w' w1 w2 g. status C T x nonce w = (Inr receipt, w')
    \<and> t_read_counter T w = (Inr (val w), w1) \<and> gate C (x_lift x) (val w) w1 = (Inr g, w2)
    \<and> (\<forall>rp akp rf slot os v. desk_ready C json_from_str vk pcrs receipt rp akp rf slot os \<longrightarrow>
         (\<exists>out. sv_main C json_from_str rnd os (check_args rp akp (x_device_id x) rf slot nonce) v
             = ((out, if gate_state g = Running then 2 else 0), v)
          \<and> last out = (if gate_state g = Running then lit ''VERDICT     RUNNING''
                        else lit ''VERDICT     STOPPED'')))"
proof -
  have cn: "nonce = [] \<or> check_nonce nonce = Ok ()" and ne: "nonce \<noteq> []"
    using assms(6,7) by (auto simp: check_nonce_def)
  have tr: "trusts C vk x pcrs nonce (sv_trust ak (pad_right DEVICE_ID_LEN (x_device_id x)) (sha256 (c_hash C) pcrs) (Some nonce))"
    if "ak_vk ak = vk" for ak
    using that ne assms(3,4) bitmap_fixed by (simp add: trusts_def sv_trust_def)
  note run = status_verifies [OF assms(1,2) tr cn]
  obtain receipt w' w1 w2 g where st: "status C T x nonce w = (Inr receipt, w')"
    "t_read_counter T w = (Inr (val w), w1)" "gate C (x_lift x) (val w) w1 = (Inr g, w2)"
    using run [of "\<lparr>ak_vk = vk, ak_name = []\<rparr>" w] by auto
  have "\<exists>out. sv_main C json_from_str rnd os (check_args rp akp (x_device_id x) rf slot nonce) v
             = ((out, if gate_state g = Running then 2 else 0), v)
          \<and> last out = (if gate_state g = Running then lit ''VERDICT     RUNNING'' else lit ''VERDICT     STOPPED'')"
    if ready: "desk_ready C json_from_str vk pcrs receipt rp akp rf slot os" for rp akp rf slot os v
  proof -
    obtain content akb ak s nt where h: "\<forall>p u. os_read os p u = (content p, u)" "\<not> starts_with (lit ''--'') rp"
      "content rp = Inr receipt" "content akp = Inr akb" "ak_from_tpm2b_public C akb = Ok ak" "ak_vk ak = vk"
      "content rf = Inr s" "utf8_valid s"
      "reference_composite (c_hash C) json_from_str s slot = Ok (sha256 (c_hash C) pcrs, nt)"
      using ready unfolding desk_ready_def by blast
    obtain clk where f: "verify_stop_receipt C receipt
        (sv_trust ak (pad_right DEVICE_ID_LEN (x_device_id x)) (sha256 (c_hash C) pcrs) (Some nonce))
      = Ok \<lparr>sf_kind = Status, sf_state = gate_state g, sf_stop_epoch = val w,
           sf_policy_digest = x_policy_digest x, sf_fresh = True, sf_clock = clk\<rparr>"
      using run [OF h(6), of w] st ne by auto
    let ?p = "\<lparr>vo_receipt = rp, vo_ak = akp, vo_device = x_device_id x, vo_pcr_ref = rf,
        vo_slot = slot, vo_nonce = Some nonce\<rparr>"
    let ?f = "\<lparr>sf_kind = Status, sf_state = gate_state g, sf_stop_epoch = val w,
           sf_policy_digest = x_policy_digest x, sf_fresh = True, sf_clock = clk\<rparr>"
    have args: "check_args rp akp (x_device_id x) rf slot nonce =
        lit ''check'' # tl (check_args rp akp (x_device_id x) rf slot nonce)"
      by (simp add: check_args_def)
    have main: "sv_main C json_from_str rnd os (check_args rp akp (x_device_id x) rf slot nonce) v =
      ((fst (check_report ?p (length receipt) (ak_name ak) nt ?f), if basis ?f = RunningBasis then 2 else 0), v)"
      by (subst args, rule check_runs [of os content, OF _ check_args_options [OF h(2) assms(6,7)]])
        (use h f assms(5) in simp_all)
    have "last (fst (check_report ?p (length receipt) (ak_name ak) nt ?f)) =
        (if gate_state g = Running then lit ''VERDICT     RUNNING'' else lit ''VERDICT     STOPPED'')"
      using status_basis [OF st(3), of "x_policy_digest x" True clk] unfolding last_report
      by (cases "basis ?f") (simp_all add: verdict_of_def verdict_line_def lit_def)
    then show ?thesis unfolding main status_basis [OF st(3)] by blast
  qed
  then show ?thesis using st by blast
qed


text \<open>A verifier's machine: the receipt, the key, the document, and no other file.\<close>

definition demo_spelled :: json where
  "demo_spelled = JStr (hex_lower (replicate 32 0xAB))"

definition demo_values :: json where
  "demo_values = JObj [(lit ''0'', demo_spelled), (lit ''1'', JObj [(lit ''A'', demo_spelled)]), (lit ''8'', demo_spelled)]"

definition demo_doc :: json where
  "demo_doc = JObj [(lit ''format'', JStr (lit ''tactiq-pcr-reference/2'')), (lit ''bank'', JStr (lit ''sha256'')),
     (lit ''pcr'', demo_values)]"

lemma demo_doc_index:
  "json_index demo_doc (lit ''format'') = JStr (lit ''tactiq-pcr-reference/2'')"
  "json_index demo_doc (lit ''bank'') = JStr (lit ''sha256'')"
  "json_index demo_doc (lit ''pcr'') = demo_values"
  "json_index demo_values (dec 0) = demo_spelled"
  "json_index demo_values (dec (Suc 0)) = JObj [(lit ''A'', demo_spelled)]"
  "json_index demo_values (dec 8) = demo_spelled"
  by (simp_all add: json_index_def json_get_def demo_doc_def demo_values_def lit_def dec.simps)

definition demo_json :: "bytes \<Rightarrow> json option" where
  "demo_json s = (if s = lit ''{}'' then Some demo_doc else None)"

definition demo_disk :: "bytes \<Rightarrow> bytes \<Rightarrow> io_error + bytes" where
  "demo_disk receipt p =
     (if p = lit ''receipt'' then Inr receipt
      else if p = lit ''ak.pub'' then Inr (tpm2b_bytes (demo_area 0x51))
      else if p = lit ''ref.json'' then Inr (lit ''{}'') else Inl NotFound)"

definition demo_desk :: "bytes \<Rightarrow> unit os" where
  "demo_desk receipt =
     \<lparr>os_run = (\<lambda>_. sfail (Msg ''none'' [])), os_read = (\<lambda>p u. (demo_disk receipt p, u)),
      os_stat = (\<lambda>_. sfail NotFound), os_env = (\<lambda>_. None), os_render = (\<lambda>_. [])\<rparr>"

lemma demo_reference:
  "\<exists>nt. reference_composite demo_hash demo_json (lit ''{}'') (Some (lit ''A'')) = Ok (sha256 demo_hash demo_pcrs, nt)"
proof -
  have "ref_values (json_index demo_doc (lit ''pcr'')) (Some (lit ''A'')) PCRS =
      Ok ([replicate 32 0xAB, replicate 32 0xAB, replicate 32 0xAB], True)"
    by (simp add: PCRS_def ref_hexval_def demo_doc_index json_get_def demo_spelled_def as_str_def sv_unhex_lower)
  moreover have "is_pcr_reference demo_doc"
    by (simp add: is_pcr_reference_def demo_doc_index)
  moreover have "concat [replicate 32 0xAB, replicate 32 0xAB, replicate 32 0xAB] = demo_pcrs"
    unfolding demo_pcrs_def by (simp flip: replicate_add)
  moreover have "demo_json (lit ''{}'') = Some demo_doc"
    by (simp add: demo_json_def)
  ultimately show ?thesis unfolding reference_composite_Ok by metis
qed

lemma demo_desk_reads: "os_read (demo_desk r) p u = (demo_disk r p, u)"
  by (simp add: demo_desk_def)

lemma demo_disk_simps:
  "demo_disk r (lit ''receipt'') = Inr r" "demo_disk r (lit ''ak.pub'') = Inr (tpm2b_bytes (demo_area 0x51))"
  "demo_disk r (lit ''ref.json'') = Inr (lit ''{}'')"
  by (simp_all add: demo_disk_def lit_def)

lemma demo_texts: "\<not> starts_with (lit ''--'') (lit ''receipt'')" "utf8_valid (lit ''{}'')"
  by code_simp+

lemma demo_desk_ready:
  "desk_ready demo_crypto demo_json 0x51 demo_pcrs receipt (lit ''receipt'') (lit ''ak.pub'') (lit ''ref.json'')
     (Some (lit ''A'')) (demo_desk receipt)"
proof -
  obtain nt where "reference_composite demo_hash demo_json (lit ''{}'') (Some (lit ''A''))
      = Ok (sha256 demo_hash demo_pcrs, nt)"
    using demo_reference by blast
  then show ?thesis
    unfolding desk_ready_def using demo_desk_reads demo_disk_simps demo_texts demo_ak_parses [of "0x51"]
    by (intro conjI exI [of _ "demo_disk receipt"]) simp_all
qed

lemma stop_round_trip_witness:
  "\<exists>receipt w' out. status demo_crypto demo_tpm (demo_ctx (Some 4)) demo_nonce 5 = (Inr receipt, w')
     \<and> sv_main demo_crypto demo_json (\<lambda>n. sret (replicate n 0)) (demo_desk receipt)
         (check_args (lit ''receipt'') (lit ''ak.pub'') demo_device (lit ''ref.json'') (Some (lit ''A'')) demo_nonce) ()
         = ((out, 0), ()) \<and> last out = lit ''VERDICT     STOPPED''"
proof -
  have gate: "gate demo_crypto (demo_lift (Some 4)) 5 w = (Inr GateStopped, w)" for w
    by (rule gate_odd) simp
  obtain receipt w' w1 w2 g where st: "status demo_crypto demo_tpm (demo_ctx (Some 4)) demo_nonce 5 = (Inr receipt, w')"
    "gate demo_crypto (demo_lift (Some 4)) 5 w1 = (Inr g, w2)"
    and run: "\<forall>rp akp rf slot (os :: unit os) v. desk_ready demo_crypto demo_json 0x51 demo_pcrs receipt rp akp rf slot os \<longrightarrow>
      (\<exists>out. sv_main demo_crypto demo_json (\<lambda>n. sret (replicate n 0)) os
          (check_args rp akp demo_device rf slot demo_nonce) v
         = ((out, if gate_state g = Running then 2 else 0), v)
        \<and> last out = (if gate_state g = Running then lit ''VERDICT     RUNNING'' else lit ''VERDICT     STOPPED''))"
    using stop_round_trip [OF demo_works [of 1000 "Some 4"] demo_ctx_ok, of demo_nonce 5 demo_json
        "(\<lambda>n. sret (replicate n 0)) :: nat \<Rightarrow> (unit, bytes) io", unfolded demo_ctx_simps demo_bitmap_def [symmetric], OF refl refl demo_device_valid]
      demo_nonce_simps(2) that by auto
  have "g = GateStopped" using st(2) gate by simp
  then show ?thesis using st(1) run [rule_format, OF demo_desk_ready, of "()"]
    by (simp add: gate_state_def)
qed

lemma demo_check_refused:
  "sv_main demo_crypto demo_json (\<lambda>n. sret (replicate n 0)) (demo_desk []) [lit ''check'', lit ''none''] ()
    = (([lit ''VERDICT     REFUSED''], 1), ())"
proof -
  have "sv_options [lit ''none''] = Err (Msg ''give exactly one of --nonce HEX and --no-nonce'' [])"
    by (simp add: sv_options_def starts_with_def lit_def sv_nothing_def sv_challenge_def)
  then show ?thesis
    unfolding sv_main_sres [OF trans [OF sv_command_words(1) sv_check_quiet [OF demo_desk_reads]]] by simp
qed

lemma sv_check_exact_witness:
  "\<not> (\<exists>f. sv_finding demo_crypto demo_json (demo_disk []) [lit ''none''] f)"
  using sv_check_exact [OF demo_desk_reads demo_check_refused] by auto

end
