(* ===== verification/Civil.thy ===== *)
theory Civil
  imports NumText
begin

text \<open>
  The registrar's date: \<open>utc\<close> of \<open>registrar/main.rs\<close>, RFC 3339 text from Unix seconds. The
  arithmetic is on \<open>i64\<close>; for every \<open>u64\<close> number of seconds the intermediate values are
  between 0 and \<open>2 ^ 48\<close>, so integers model it. A calendar that counts days by the lengths
  of years and months is the reference.
\<close>

section \<open>The code\<close>

definition civil_from_days :: "int \<Rightarrow> int \<times> int \<times> int" where
  "civil_from_days days =
     (let z = days + 719468;
          era = z div 146097;
          doe = z - era * 146097;
          yoe = (doe - doe div 1460 + doe div 36524 - doe div 146096) div 365;
          doy = doe - (365 * yoe + yoe div 4 - yoe div 100);
          mp = (5 * doy + 2) div 153;
          d = doy - (153 * mp + 2) div 5 + 1;
          m = (if mp < 10 then mp + 3 else mp - 9);
          y = yoe + era * 400 + (if m \<le> 2 then 1 else 0)
      in (y, m, d))"

definition utc :: "nat \<Rightarrow> bytes" where
  "utc secs =
     (let rem = secs mod 86400;
          (y, m, d) = civil_from_days (int (secs div 86400))
      in dec_pad 4 (nat y) @ lit ''-'' @ dec_pad 2 (nat m) @ lit ''-'' @ dec_pad 2 (nat d) @ lit ''T''
         @ dec_pad 2 (rem div 3600) @ lit '':'' @ dec_pad 2 (rem mod 3600 div 60) @ lit '':''
         @ dec_pad 2 (rem mod 60) @ lit ''Z'')"

section \<open>The calendar\<close>

definition leap :: "nat \<Rightarrow> bool" where
  "leap y \<longleftrightarrow> y mod 4 = 0 \<and> y mod 100 \<noteq> 0 \<or> y mod 400 = 0"

definition year_days :: "nat \<Rightarrow> nat" where
  "year_days y = (if leap y then 366 else 365)"

definition month_days :: "nat \<Rightarrow> nat \<Rightarrow> nat" where
  "month_days y m = (if m = 2 then if leap y then 29 else 28 else if m \<in> {4, 6, 9, 11} then 30 else 31)"

text \<open>Days from 1 January of the year 0.\<close>

definition day_number :: "nat \<Rightarrow> nat \<Rightarrow> nat \<Rightarrow> nat" where
  "day_number y m d = (\<Sum>i<y. year_days i) + (\<Sum>i\<in>{1..<m}. month_days y i) + (d - 1)"

definition valid_date :: "nat \<Rightarrow> nat \<Rightarrow> nat \<Rightarrow> bool" where
  "valid_date y m d \<longleftrightarrow> 1 \<le> m \<and> m \<le> 12 \<and> 1 \<le> d \<and> d \<le> month_days y m"

section \<open>Years from March\<close>

text \<open>The days of an era before a year that begins in March.\<close>

definition era_days :: "int \<Rightarrow> int" where
  "era_days y = 365 * y + y div 4 - y div 100"

definition scaled :: "int \<Rightarrow> int" where
  "scaled doe = doe - doe div 1460 + doe div 36524 - doe div 146096"

lemma div_step: "0 < k \<Longrightarrow> (d + 1) div k = d div k \<or> (d + 1) div k = d div k + 1" for d k :: int
proof -
  assume "0 < k"
  then have "d div k \<le> (d + 1) div k" "(d + 1) div k \<le> (d + k) div k"
    by (simp_all add: zdiv_mono1)
  moreover have "(d + k) div k = d div k + 1" using \<open>0 < k\<close> by (intro div_add_self2) simp
  ultimately show ?thesis by linarith
qed

lemma scaled_step: "scaled d \<le> scaled (d + 1)"
proof -
  have four: "x div 146096 = (x div 36524) div 4" for x :: int
    using zdiv_zmult2_eq [of 4 x 36524] by simp
  define a where "a = d div 36524"
  define a' where "a' = (d + 1) div 36524"
  have "a - a div 4 \<le> a' - a' div 4"
    using div_step [of 36524 d] unfolding a_def [symmetric] a'_def [symmetric] by presburger
  moreover have "(d + 1) div 1460 \<le> d div 1460 + 1" using div_step [of 1460 d] by linarith
  ultimately show ?thesis unfolding scaled_def four a_def a'_def by linarith
qed

lemma scaled_mono: "a \<le> b \<Longrightarrow> scaled a \<le> scaled b"
proof (induction "nat (b - a)" arbitrary: b)
  case (Suc n)
  then have "n = nat (b - 1 - a)" "a \<le> b - 1" by simp_all
  from Suc.hyps(1) [OF this] have "scaled a \<le> scaled (b - 1)" .
  also have "\<dots> \<le> scaled b" using scaled_step [of "b - 1"] by simp
  finally show ?case .
qed simp

text \<open>The ends of the 400 years of an era, evaluated.\<close>

lemma era_table:
  "list_all (\<lambda>y. (y = 0 \<or> scaled (era_days y - 1) < 365 * y) \<and> 365 * y \<le> scaled (era_days y)) [0..399]"
  by code_simp

lemma era_year:
  assumes "0 \<le> doe" "doe < 146097" "y = scaled doe div 365"
  shows "0 \<le> y" "y \<le> 399" "era_days y \<le> doe" "y < 399 \<Longrightarrow> doe < era_days (y + 1)"
proof -
  have "scaled 0 \<le> scaled doe" "scaled doe \<le> scaled 146096"
    using assms(1,2) by (simp_all add: scaled_mono)
  then have s: "0 \<le> scaled doe" "scaled doe < 146000" by (simp_all add: scaled_def)
  then show y: "0 \<le> y" "y \<le> 399" using assms(3) by linarith+
  have split: "365 * y + scaled doe mod 365 = scaled doe"
    using mult_div_mod_eq [of 365 "scaled doe"] by (simp add: assms(3))
  have q: "365 * y \<le> scaled doe" "scaled doe < 365 * (y + 1)"
    using split pos_mod_bound [of 365 "scaled doe"] pos_mod_sign [of 365 "scaled doe"] by simp_all
  have tab: "(z = 0 \<or> scaled (era_days z - 1) < 365 * z) \<and> 365 * z \<le> scaled (era_days z)"
    if "0 \<le> z" "z \<le> 399" for z
    using era_table that by (auto simp: list_all_iff)
  show "era_days y \<le> doe"
  proof (rule ccontr)
    assume "\<not> era_days y \<le> doe"
    then have "scaled doe \<le> scaled (era_days y - 1)" "y \<noteq> 0"
      using assms(1) by (auto intro: scaled_mono simp: era_days_def)
    with tab [OF y] q(1) show False by linarith
  qed
  show "doe < era_days (y + 1)" if "y < 399"
  proof (rule ccontr)
    assume "\<not> doe < era_days (y + 1)"
    then have "scaled (era_days (y + 1)) \<le> scaled doe" by (intro scaled_mono) simp
    with tab [of "y + 1"] y that q(2) show False by auto
  qed
qed


section \<open>Months from March\<close>

definition month_start :: "int \<Rightarrow> int" where
  "month_start mp = (153 * mp + 2) div 5"

definition month_ok :: "int \<Rightarrow> bool" where
  "month_ok doy \<longleftrightarrow>
     (let mp = (5 * doy + 2) div 153; d = doy - month_start mp + 1 in
      0 \<le> mp \<and> mp \<le> 11 \<and> 1 \<le> d
      \<and> (if mp = 11 then d \<le> (if doy = 365 then 29 else 28) else d \<le> (if mp \<in> {1, 3, 6, 8} then 30 else 31)))"

lemma month_table: "list_all month_ok [0..365]"
  by code_simp

lemma month_in_range: "0 \<le> doy \<Longrightarrow> doy \<le> 365 \<Longrightarrow> month_ok doy"
  using month_table by (auto simp: list_all_iff)

section \<open>Counting days\<close>

lemma years_sum:
  "(\<Sum>i<y. year_days i) + (y + 99) div 100 = 365 * y + (y + 3) div 4 + (y + 399) div 400"
proof (induction y)
  case (Suc y)
  have d: "Suc (y + 3) div 4 = (y + 3) div 4 + (if y mod 4 = 0 then 1 else 0)"
    "Suc (y + 99) div 100 = (y + 99) div 100 + (if y mod 100 = 0 then 1 else 0)"
    "Suc (y + 399) div 400 = (y + 399) div 400 + (if y mod 400 = 0 then 1 else 0)"
  proof -
    have e: "Suc (y + 3) = y + 4" "Suc (y + 99) = y + 100" "Suc (y + 399) = y + 400" by simp_all
    show "Suc (y + 3) div 4 = (y + 3) div 4 + (if y mod 4 = 0 then 1 else 0)"
      "Suc (y + 99) div 100 = (y + 99) div 100 + (if y mod 100 = 0 then 1 else 0)"
      "Suc (y + 399) div 400 = (y + 399) div 400 + (if y mod 400 = 0 then 1 else 0)"
      unfolding div_Suc by (simp_all add: e mod_add_self2 del: add_Suc_right add_Suc)
  qed
  have m: "y mod 400 = 0 \<Longrightarrow> y mod 100 = 0" "y mod 100 = 0 \<Longrightarrow> y mod 4 = 0"
    by presburger+
  have yd: "year_days y + (if y mod 100 = 0 then 1 else 0) =
      365 + (if y mod 4 = 0 then 1 else 0) + (if y mod 400 = 0 then 1 else 0)"
    using m by (auto simp: year_days_def leap_def)
  have add: "s + q2 = a + q1 + q3 \<Longrightarrow> x + i2 = 365 + i1 + i3 \<Longrightarrow>
      s + x + (q2 + i2) = 365 + a + (q1 + i1) + (q3 + i3)" for s q1 q2 q3 a x i1 i2 i3 :: nat
    by linarith
  show ?case
    unfolding sum.lessThan_Suc add_Suc d mult_Suc_right by (rule add [OF Suc.IH yd])
qed simp


text \<open>Days from 1 March of the year 0 to 1 March of the year \<open>y\<close>.\<close>

definition march :: "int \<Rightarrow> int" where
  "march y = 365 * y + y div 4 - y div 100 + y div 400"

lemma years_before: "int (\<Sum>i<y. year_days i) =
    365 * int y + (int y + 3) div 4 - (int y + 99) div 100 + (int y + 399) div 400"
proof -
  have "int (\<Sum>i<y. year_days i) + int ((y + 99) div 100) = int (365 * y + (y + 3) div 4 + (y + 399) div 400)"
    using years_sum [of y] by (metis of_nat_add)
  then show ?thesis by (simp add: zdiv_int)
qed

lemma years_before_Suc: "int (\<Sum>i<Suc y. year_days i) = march (int y) + 366"
proof -
  have "(int y + 4) div 4 = int y div 4 + 1" "(int y + 100) div 100 = int y div 100 + 1"
    "(int y + 400) div 400 = int y div 400 + 1"
    by (simp_all add: div_add_self2)
  then show ?thesis unfolding years_before march_def by (simp add: algebra_simps)
qed

lemma months_sum:
  assumes "1 \<le> m" "m \<le> 12"
  shows "(\<Sum>i\<in>{1..<m}. month_days y i) =
    (if m \<le> 2 then 31 * (m - 1) else 59 + (if leap y then 1 else 0) + nat (month_start (int m - 3)))"
proof -
  have e: "{1..<m} = set [1..<m]" by simp
  have "m \<in> {1, 2, 3, 4, 5, 6, 7, 8, 9, 10, 11, 12}"
    unfolding insert_iff empty_iff using assms by presburger
  then show ?thesis
    unfolding e sum.distinct_set_conv_list [OF distinct_upt]
    by (elim insertE) (simp_all add: upt_rec month_days_def month_start_def)
qed


section \<open>The date is the calendar's\<close>

lemma march_era:
  assumes "0 \<le> yoe" "yoe \<le> 399"
  shows "march (yoe + era * 400) = era_days yoe + era * 146097"
proof -
  have "(yoe + era * 400) div 400 = era" using assms by (simp add: div_pos_pos_trivial)
  moreover have "(yoe + era * 400) div 4 = yoe div 4 + era * 100"
    using div_mult_self1 [of 4 yoe "era * 100"] by (simp add: algebra_simps)
  moreover have "(yoe + era * 400) div 100 = yoe div 100 + era * 4"
    using div_mult_self1 [of 100 yoe "era * 4"] by (simp add: algebra_simps)
  ultimately show ?thesis unfolding march_def era_days_def by (simp add: algebra_simps)
qed

text \<open>A year from March has 366 days only if the February in it has 29.\<close>

lemma long_year:
  assumes "0 \<le> yoe" "yoe \<le> 399" "0 \<le> doe" "doe < 146097" "era_days yoe \<le> doe"
    "yoe < 399 \<Longrightarrow> doe < era_days (yoe + 1)" "0 \<le> era"
  shows "doe - era_days yoe \<le> 365"
    "doe - era_days yoe = 365 \<Longrightarrow> leap (nat (yoe + era * 400) + 1)"
proof -
  define u where "u = nat yoe"
  have u: "yoe = int u" using assms(1) by (simp add: u_def)
  have step: "(int u + 1) div int k = int u div int k + (if Suc u mod k = 0 then 1 else 0)" for k
  proof -
    have "int (Suc u div k) = int (if Suc u mod k = 0 then Suc (u div k) else u div k)"
      by (simp only: div_Suc)
    then show ?thesis by (simp add: zdiv_int add.commute split: if_splits)
  qed
  have ed: "era_days (yoe + 1) = era_days yoe + 365 + (if Suc u mod 4 = 0 then 1 else 0)
      - (if Suc u mod 100 = 0 then 1 else 0)"
    using step [of 4] step [of 100] by (simp add: era_days_def u)
  have last: "yoe = 399 \<Longrightarrow> era_days yoe = 145731" by (simp add: era_days_def)
  show "doe - era_days yoe \<le> 365"
  proof (cases "yoe < 399")
    case True
    then show ?thesis using assms(6) ed by (simp split: if_splits)
  qed (use last assms(2,4) in simp)
  have leap: "leap (nat (yoe + era * 400) + 1)" if "Suc u mod 4 = 0 \<and> Suc u mod 100 \<noteq> 0 \<or> Suc u mod 400 = 0"
  proof -
    have e: "nat (yoe + era * 400) + 1 = Suc u + 400 * nat era"
      using assms(7) by (simp add: u nat_add_distrib nat_mult_distrib)
    have m: "(Suc u + 400 * k) mod 4 = Suc u mod 4" "(Suc u + 400 * k) mod 100 = Suc u mod 100"
      "(Suc u + 400 * k) mod 400 = Suc u mod 400" for k
      using mod_mult_self2 [of "Suc u" 4 "100 * k"] mod_mult_self2 [of "Suc u" 100 "4 * k"]
        mod_mult_self2 [of "Suc u" 400 k] by (simp_all only: mult.assoc [symmetric]) simp_all
    show ?thesis using that unfolding e leap_def m .
  qed
  show "doe - era_days yoe = 365 \<Longrightarrow> leap (nat (yoe + era * 400) + 1)"
  proof (cases "yoe < 399")
    case True
    assume "doe - era_days yoe = 365"
    then have "era_days yoe + 365 < era_days (yoe + 1)" using assms(6) True by simp
    then have "Suc u mod 4 = 0 \<and> Suc u mod 100 \<noteq> 0" using ed by (simp split: if_splits)
    then show ?thesis by (intro leap) simp
  next
    case False
    then have "u = 399" using assms(2) u by simp
    then show ?thesis by (intro leap) simp
  qed
qed

lemma civil_date:
  fixes n :: nat
  obtains y m d where "civil_from_days (int n) = (int y, int m, int d)" "valid_date y m d"
    "day_number y m d = n + 719528"
proof -
  define z where "z = int n + 719468"
  define era where "era = z div 146097"
  define doe where "doe = z - era * 146097"
  define yoe where "yoe = scaled doe div 365"
  define doy where "doy = doe - era_days yoe"
  define mp where "mp = (5 * doy + 2) div 153"
  define d where "d = doy - month_start mp + 1"
  define m where "m = (if mp < 10 then mp + 3 else mp - 9)"
  define y where "y = yoe + era * 400 + (if m \<le> 2 then 1 else 0)"
  have c: "civil_from_days (int n) = (y, m, d)"
    unfolding civil_from_days_def Let_def z_def [symmetric] era_def [symmetric] doe_def [symmetric]
      scaled_def [symmetric] yoe_def [symmetric] era_days_def [symmetric] doy_def [symmetric]
      mp_def [symmetric] month_start_def [symmetric] d_def [symmetric] m_def [symmetric] y_def [symmetric]
    by (rule refl)
  have doe: "0 \<le> doe" "doe < 146097" and era: "0 \<le> era"
    by (simp_all add: doe_def era_def z_def minus_mult_div_eq_mod pos_imp_zdiv_nonneg_iff
        flip: mult.commute)
  note yr = era_year [OF doe yoe_def]
  have doy: "0 \<le> doy" "doy \<le> 365" "doy = 365 \<Longrightarrow> leap (nat (yoe + era * 400) + 1)"
    using long_year [OF yr(1,2) doe yr(3,4) era] yr(3) by (simp_all add: doy_def)
  define Y where "Y = nat (yoe + era * 400)"
  have Y: "int Y = yoe + era * 400" using yr(1) era by (simp add: Y_def)
  have "z = march (int Y) + doy"
    unfolding Y march_era [OF yr(1,2)] doy_def doe_def by simp
  then have z: "march (int Y) + doy = int n + 719468" by (simp add: z_def)
  have mo': "0 \<le> mp \<and> mp \<le> 11 \<and> 1 \<le> d
      \<and> (if mp = 11 then d \<le> (if doy = 365 then 29 else 28) else d \<le> (if mp \<in> {1, 3, 6, 8} then 30 else 31))"
    using month_in_range [OF doy(1,2)]
    unfolding month_ok_def Let_def mp_def [symmetric] d_def [symmetric] .
  note mo = conjunct1 [OF mo'] conjunct1 [OF conjunct2 [OF mo']] conjunct1 [OF conjunct2 [OF conjunct2 [OF mo']]]
    conjunct2 [OF conjunct2 [OF conjunct2 [OF mo']]]
  have S: "int (\<Sum>i<Y. year_days i) + int (year_days Y) = march (int Y) + 366"
    using years_before_Suc [of Y] by simp
  show thesis
  proof (cases "mp < 10")
    case True
    then have m: "m = mp + 3" "y = int Y" using mo(1) by (simp_all add: m_def y_def Y)
    have months: "(\<Sum>i\<in>{1..<nat m}. month_days Y i) = 59 + (if leap Y then 1 else 0) + nat (month_start mp)"
      using months_sum [of "nat m" Y] True mo m by simp
    have pos: "0 \<le> month_start mp" using mo by (simp add: month_start_def)
    have "int (day_number Y (nat m) (nat d)) = int n + 719528"
      unfolding day_number_def months
      using S z mo pos by (simp add: year_days_def d_def split: if_splits)
    then have "day_number Y (nat m) (nat d) = n + 719528" by linarith
    moreover have "valid_date Y (nat m) (nat d)"
      using True mo m by (auto simp: valid_date_def month_days_def nat_eq_iff split: if_splits)
    moreover have "civil_from_days (int n) = (int Y, int (nat m), int (nat d))"
      using c m mo by simp
    ultimately show thesis by (intro that) assumption+
  next
    case False
    then have m: "m = mp - 9" "y = int Y + 1" using mo by (simp_all add: m_def y_def Y)
    have months: "(\<Sum>i\<in>{1..<nat m}. month_days (Suc Y) i) = 31 * (nat m - 1)"
      using months_sum [of "nat m" "Suc Y"] False mo m by simp
    have "mp = 10 \<or> mp = 11" using False mo by linarith
    then have ms: "month_start mp = 306 + 31 * (m - 1)"
      using m by (auto simp: month_start_def)
    have "int (day_number (Suc Y) (nat m) (nat d)) = int n + 719528"
      unfolding day_number_def months
      using S z mo ms m \<open>mp = 10 \<or> mp = 11\<close> by (auto simp: d_def)
    then have "day_number (Suc Y) (nat m) (nat d) = n + 719528" by linarith
    moreover have "valid_date (Suc Y) (nat m) (nat d)"
      using mo m doy(3) \<open>mp = 10 \<or> mp = 11\<close>
      by (auto simp: valid_date_def month_days_def nat_eq_iff Y_def split: if_splits)
    moreover have "civil_from_days (int n) = (int (Suc Y), int (nat m), int (nat d))"
      using c m mo \<open>mp = 10 \<or> mp = 11\<close> by auto
    ultimately show thesis by (intro that) assumption+
  qed
qed


lemma dec_pad_width: "length (dec n) \<le> w \<Longrightarrow> length (dec_pad w n) = w"
  by (simp add: dec_pad_def)

lemma dec_pad_val: "radix_val 10 (dec_pad w n) = n"
proof -
  have "radix_val 10 (replicate k 48 @ x) = radix_val 10 x" for k x
    by (induction k) (simp_all add: radix_val_def digit_val_def is_digit_def)
  then show ?thesis by (simp add: dec_pad_def)
qed

lemma length_dec_2: "n < 100 \<Longrightarrow> length (dec n) \<le> 2"
proof -
  assume "n < 100"
  then have "n div 10 < 10" by simp
  then have "dec (n div 10) = [of_nat (48 + n div 10)]" by (simp add: dec.simps)
  then show ?thesis by (subst dec.simps) simp
qed

lemma valid_date_small: "valid_date y m d \<Longrightarrow> m < 100 \<and> d < 100"
  by (auto simp: valid_date_def month_days_def split: if_splits)

text \<open>
  The text: year, month, day of the month, hour, minute and second of the instant, each of
  fixed width (the year of at least four digits), in this order.
\<close>

lemma utc_fields:
  fixes n :: nat
  obtains y m d where "valid_date y m d" "day_number y m d = n div 86400 + 719528"
    "utc n = dec_pad 4 y @ lit ''-'' @ dec_pad 2 m @ lit ''-'' @ dec_pad 2 d @ lit ''T''
       @ dec_pad 2 (n mod 86400 div 3600) @ lit '':'' @ dec_pad 2 (n mod 86400 mod 3600 div 60) @ lit '':''
       @ dec_pad 2 (n mod 86400 mod 60) @ lit ''Z''"
proof -
  obtain y m d where "civil_from_days (int (n div 86400)) = (int y, int m, int d)" "valid_date y m d"
    "day_number y m d = n div 86400 + 719528"
    by (rule civil_date)
  then show thesis by (intro that [of y m d]) (simp_all add: utc_def Let_def)
qed

end
