(* ===== verification/Chain.thy ===== *)
theory Chain
  imports Io
begin

text \<open>
  The EK certificate chain (\<open>registrar/chain.rs\<close>). The X.509 and DER parsers, RSA and PEM
  are crates: what they give is a record of parameters, and a parsed certificate is a
  record of the fields the code reads. A certificate is valid at instants in seconds; the
  time it is checked at is a \<open>Duration\<close>, in nanoseconds.
\<close>

section \<open>What the crates give\<close>

type_synonym duration = nat

definition from_secs :: "nat \<Rightarrow> duration" where
  "from_secs s = s * 10 ^ 9"

definition as_secs :: "duration \<Rightarrow> nat" where
  "as_secs d = d div 10 ^ 9"

text \<open>
  An extension: the dotted text of its identifier, whether it is critical, its value. A
  name is kept as the value the parser gives; its DER is a parameter.
\<close>

record extension =
  xe_id :: bytes
  xe_critical :: bool
  xe_value :: bytes

record cert =
  c_outer_alg :: bytes
  c_inner_alg :: bytes
  c_tbs :: "bytes res"
  c_signature :: "bytes option"
  c_issuer :: bytes
  c_subject :: bytes
  c_not_before :: nat
  c_not_after :: nat
  c_serial :: bytes
  c_spki :: "bytes res"
  c_extensions :: "extension list"

record crl =
  l_outer_alg :: bytes
  l_inner_alg :: bytes
  l_tbs :: "bytes res"
  l_signature :: "bytes option"
  l_issuer :: bytes
  l_this_update :: nat
  l_next_update :: "nat option"
  l_extensions :: "extension list"
  l_revoked :: "bytes list"

datatype usage = KeyCertSign | CRLSign | DigitalSignature

record ('k, 's) x509 =
  x_cert :: "bytes \<Rightarrow> cert option"
  x_cert_pem :: "bytes \<Rightarrow> bytes res option"
  x_crl :: "bytes \<Rightarrow> crl option"
  x_name_der :: "bytes \<Rightarrow> bytes res"
  x_name_text :: "bytes \<Rightarrow> bytes"
  x_basic_ca :: "bytes \<Rightarrow> bool option"
  x_key_usage :: "bytes \<Rightarrow> usage list option"
  x_ext_key_usage :: "bytes \<Rightarrow> bytes list option"
  x_rsa_key :: "bytes \<Rightarrow> 'k option"
  x_rsa_size :: "'k \<Rightarrow> nat"
  x_signature :: "bytes \<Rightarrow> 's option"
  x_verify :: "'k \<Rightarrow> bytes \<Rightarrow> 's \<Rightarrow> bool"

section \<open>Constants\<close>

definition SHA256_WITH_RSA :: bytes where "SHA256_WITH_RSA = lit ''1.2.840.113549.1.1.11''"
definition EXT_BASIC_CONSTRAINTS :: bytes where "EXT_BASIC_CONSTRAINTS = lit ''2.5.29.19''"
definition EXT_KEY_USAGE :: bytes where "EXT_KEY_USAGE = lit ''2.5.29.15''"
definition EXT_SUBJECT_ALT_NAME :: bytes where "EXT_SUBJECT_ALT_NAME = lit ''2.5.29.17''"
definition EXT_EXT_KEY_USAGE :: bytes where "EXT_EXT_KEY_USAGE = lit ''2.5.29.37''"
definition TCG_KP_EK_CERTIFICATE :: bytes where "TCG_KP_EK_CERTIFICATE = lit ''2.23.133.8.1''"

definition UNDERSTOOD_CRITICAL :: "bytes list" where
  "UNDERSTOOD_CRITICAL = [EXT_BASIC_CONSTRAINTS, EXT_KEY_USAGE, EXT_SUBJECT_ALT_NAME, EXT_EXT_KEY_USAGE]"

section \<open>The checks\<close>

record 'k chain =
  ch_ek_public :: 'k
  ch_root_sha256 :: bytes

definition cert_parse :: "('k, 's) x509 \<Rightarrow> bytes \<Rightarrow> string \<Rightarrow> cert res" where
  "cert_parse X der what = ok_or (Ctx what (Msg ''not a DER certificate'' [])) (x_cert X der)"

definition rsa_key :: "('k, 's) x509 \<Rightarrow> cert \<Rightarrow> string \<Rightarrow> 'k res" where
  "rsa_key X c what =
     rbind (ctx what (c_spki c)) (\<lambda>spki.
     ok_or (Ctx what (Msg ''not an RSA key'' [])) (x_rsa_key X spki))"

definition check_alg :: "cert \<Rightarrow> string \<Rightarrow> unit res" where
  "check_alg c what =
     (if c_outer_alg c \<noteq> SHA256_WITH_RSA \<or> c_inner_alg c \<noteq> SHA256_WITH_RSA then
        Err (Ctx what (Msg ''signature algorithm, only sha256WithRSAEncryption accepted''
          [Txt (c_outer_alg c), Txt (c_inner_alg c)]))
      else Ok ())"

definition rsa_verify :: "('k, 's) x509 \<Rightarrow> 'k \<Rightarrow> bytes res \<Rightarrow> bytes option \<Rightarrow> string \<Rightarrow> string \<Rightarrow> unit res" where
  "rsa_verify X key der signature what refusal =
     rbind (ctx what der) (\<lambda>tbs.
     rbind (ok_or (Ctx what (Msg ''signature has unused bits'' [])) signature) (\<lambda>sig_bytes.
     rbind (ok_or (Ctx what (Msg ''malformed signature'' [])) (x_signature X sig_bytes)) (\<lambda>sig.
     if x_verify X key tbs sig then Ok ()
     else Err (Ctx what (Msg refusal [])))))"

definition check_signed_by :: "('k, 's) x509 \<Rightarrow> cert \<Rightarrow> 'k \<Rightarrow> string \<Rightarrow> unit res" where
  "check_signed_by X c issuer_key what = rsa_verify X issuer_key (c_tbs c) (c_signature c) what
     ''signature does not verify under its issuer's key''"

definition check_issued_by :: "('k, 's) x509 \<Rightarrow> cert \<Rightarrow> cert \<Rightarrow> string \<Rightarrow> unit res" where
  "check_issued_by X c issuer what =
     rbind (ctx what (x_name_der X (c_issuer c))) (\<lambda>a.
     rbind (ctx what (x_name_der X (c_subject issuer))) (\<lambda>b.
     if a \<noteq> b then Err (Ctx what (Msg ''issuer is not the next certificate's subject''
       [Txt (x_name_text X (c_issuer c)), Txt (x_name_text X (c_subject issuer))]))
     else Ok ()))"

definition cert_check_time :: "cert \<Rightarrow> duration \<Rightarrow> string \<Rightarrow> unit res" where
  "cert_check_time c when what =
     (let nb = from_secs (c_not_before c); na = from_secs (c_not_after c) in
      if when < nb \<or> when > na then
        Err (Ctx what (Msg ''not valid at the registration time'' [Num (c_not_before c), Num (c_not_after c)]))
      else Ok ())"

record ext_found =
  xf_basic :: "bool option"
  xf_key_usage :: "usage list option"
  xf_eku :: "bytes list option"

text \<open>One turn of the loop: the extension read if it is one of the three, then the rule for critical ones.\<close>

definition ext_step :: "('k, 's) x509 \<Rightarrow> string \<Rightarrow> extension \<Rightarrow> ext_found \<Rightarrow> ext_found res" where
  "ext_step X what x e =
     rbind (if xe_id x = EXT_BASIC_CONSTRAINTS then
              rbind (ok_or (Ctx what (Msg ''basicConstraints'' [])) (x_basic_ca X (xe_value x)))
                (\<lambda>b. Ok (e\<lparr>xf_basic := Some b\<rparr>))
            else if xe_id x = EXT_KEY_USAGE then
              rbind (ok_or (Ctx what (Msg ''keyUsage'' [])) (x_key_usage X (xe_value x)))
                (\<lambda>k. Ok (e\<lparr>xf_key_usage := Some k\<rparr>))
            else if xe_id x = EXT_EXT_KEY_USAGE then
              rbind (ok_or (Ctx what (Msg ''extKeyUsage'' [])) (x_ext_key_usage X (xe_value x)))
                (\<lambda>u. Ok (e\<lparr>xf_eku := Some u\<rparr>))
            else Ok e) (\<lambda>e'.
     if xe_critical x \<and> xe_id x \<notin> set UNDERSTOOD_CRITICAL then
       Err (Ctx what (Msg ''critical extension is not understood'' [Txt (xe_id x)]))
     else Ok e')"

fun ext_loop :: "('k, 's) x509 \<Rightarrow> string \<Rightarrow> extension list \<Rightarrow> ext_found \<Rightarrow> ext_found res" where
  "ext_loop X what [] e = Ok e"
| "ext_loop X what (x # xs) e = rbind (ext_step X what x e) (ext_loop X what xs)"

definition extensions :: "('k, 's) x509 \<Rightarrow> cert \<Rightarrow> string \<Rightarrow> ext_found res" where
  "extensions X c what =
     ext_loop X what (c_extensions c) \<lparr>xf_basic = None, xf_key_usage = None, xf_eku = None\<rparr>"

definition has_usage :: "usage \<Rightarrow> usage list option \<Rightarrow> bool" where
  "has_usage u k = (case k of None \<Rightarrow> False | Some us \<Rightarrow> u \<in> set us)"

definition check_ca :: "('k, 's) x509 \<Rightarrow> cert \<Rightarrow> string \<Rightarrow> unit res" where
  "check_ca X c what =
     rbind (extensions X c what) (\<lambda>e.
     if xf_basic e \<noteq> Some True then Err (Ctx what (Msg ''not a CA (basicConstraints cA is not TRUE)'' []))
     else if \<not> has_usage KeyCertSign (xf_key_usage e) then
       Err (Ctx what (Msg ''keyUsage does not include keyCertSign'' []))
     else Ok ())"

definition check_ek_leaf :: "('k, 's) x509 \<Rightarrow> cert \<Rightarrow> unit res" where
  "check_ek_leaf X c =
     rbind (extensions X c ''EK certificate'') (\<lambda>e.
     if xf_basic e = Some True then Err (Msg ''EK certificate: marked as a CA'' [])
     else if \<not> (case xf_eku e of None \<Rightarrow> False | Some us \<Rightarrow> TCG_KP_EK_CERTIFICATE \<in> set us) then
       Err (Msg ''EK certificate: extended key usage lacks tcg-kp-EKCertificate'' [])
     else Ok ())"

fun check_each :: "duration \<Rightarrow> (cert \<times> string) list \<Rightarrow> unit res" where
  "check_each when [] = Ok ()"
| "check_each when ((c, w) # cs) =
     rbind (check_alg c w) (\<lambda>_. rbind (cert_check_time c when w) (\<lambda>_. check_each when cs))"

definition chain_verify ::
  "('k, 's) x509 \<Rightarrow> hash \<Rightarrow> bytes \<Rightarrow> bytes \<Rightarrow> bytes \<Rightarrow> duration \<Rightarrow> 'k chain res" where
  "chain_verify X H ek_der int_der root_der when =
     rbind (cert_parse X ek_der ''EK certificate'') (\<lambda>ek.
     rbind (cert_parse X int_der ''intermediate'') (\<lambda>int.
     rbind (cert_parse X root_der ''root'') (\<lambda>root.
     rbind (check_each when [(ek, ''EK certificate''), (int, ''intermediate''), (root, ''root'')]) (\<lambda>_.
     rbind (rsa_key X root ''root'') (\<lambda>root_key.
     rbind (rsa_key X int ''intermediate'') (\<lambda>int_key.
     rbind (rsa_key X ek ''EK certificate'') (\<lambda>ek_key.
     rbind (check_issued_by X root root ''root'') (\<lambda>_.
     rbind (check_signed_by X root root_key ''root'') (\<lambda>_.
     rbind (check_ca X root ''root'') (\<lambda>_.
     rbind (check_issued_by X int root ''intermediate'') (\<lambda>_.
     rbind (check_signed_by X int root_key ''intermediate'') (\<lambda>_.
     rbind (check_ca X int ''intermediate'') (\<lambda>_.
     rbind (check_issued_by X ek int ''EK certificate'') (\<lambda>_.
     rbind (check_signed_by X ek int_key ''EK certificate'') (\<lambda>_.
     rbind (check_ek_leaf X ek) (\<lambda>_.
     if x_rsa_size X ek_key \<noteq> 256 then
       Err (Msg ''EK certificate: RSA key, want 2048 bits'' [Num (x_rsa_size X ek_key * 8)])
     else Ok \<lparr>ch_ek_public = ek_key, ch_root_sha256 = sha256 H root_der\<rparr>))))))))))))))))"


section \<open>What an accepted chain is\<close>

text \<open>The extensions as a specification: the last one of each kind counts.\<close>

definition ext_values :: "bytes \<Rightarrow> cert \<Rightarrow> bytes list" where
  "ext_values oid c = map xe_value (filter (\<lambda>x. xe_id x = oid) (c_extensions c))"

definition last_read :: "(bytes \<Rightarrow> 'a option) \<Rightarrow> bytes list \<Rightarrow> 'a option" where
  "last_read f vs = (if vs = [] then None else f (last vs))"

text \<open>Every critical extension is one of the four, and every one of the three kinds is readable.\<close>

definition exts_ok :: "('k, 's) x509 \<Rightarrow> extension list \<Rightarrow> bool" where
  "exts_ok X xs \<longleftrightarrow> list_all (\<lambda>x. (xe_critical x \<longrightarrow> xe_id x \<in> set UNDERSTOOD_CRITICAL)
     \<and> (xe_id x = EXT_BASIC_CONSTRAINTS \<longrightarrow> x_basic_ca X (xe_value x) \<noteq> None)
     \<and> (xe_id x = EXT_KEY_USAGE \<longrightarrow> x_key_usage X (xe_value x) \<noteq> None)
     \<and> (xe_id x = EXT_EXT_KEY_USAGE \<longrightarrow> x_ext_key_usage X (xe_value x) \<noteq> None)) xs"

definition basic_of :: "('k, 's) x509 \<Rightarrow> cert \<Rightarrow> bool option" where
  "basic_of X c = last_read (x_basic_ca X) (ext_values EXT_BASIC_CONSTRAINTS c)"

definition usage_of :: "('k, 's) x509 \<Rightarrow> cert \<Rightarrow> usage list option" where
  "usage_of X c = last_read (x_key_usage X) (ext_values EXT_KEY_USAGE c)"

definition eku_of :: "('k, 's) x509 \<Rightarrow> cert \<Rightarrow> bytes list option" where
  "eku_of X c = last_read (x_ext_key_usage X) (ext_values EXT_EXT_KEY_USAGE c)"

lemma ext_names:
  "EXT_BASIC_CONSTRAINTS \<noteq> EXT_KEY_USAGE" "EXT_BASIC_CONSTRAINTS \<noteq> EXT_EXT_KEY_USAGE"
  "EXT_KEY_USAGE \<noteq> EXT_EXT_KEY_USAGE"
  by (simp_all add: EXT_BASIC_CONSTRAINTS_def EXT_KEY_USAGE_def EXT_EXT_KEY_USAGE_def lit_def)

text \<open>One kind of extension over the loop, in one lemma for the three of them.\<close>

definition over :: "'a option \<Rightarrow> (bytes \<Rightarrow> 'a option) \<Rightarrow> bytes \<Rightarrow> extension list \<Rightarrow> 'a option" where
  "over a f oid xs = (let vs = map xe_value (filter (\<lambda>x. xe_id x = oid) xs) in
     if vs = [] then a else f (last vs))"

lemma over_Nil [simp]: "over a f oid [] = a"
  by (simp add: over_def)

lemma over_Cons: "over a f oid (x # xs) = over (if xe_id x = oid then f (xe_value x) else a) f oid xs"
  by (auto simp: over_def Let_def)

lemma ext_step_iff:
  "ext_step X what x e = Ok e' \<longleftrightarrow> exts_ok X [x]
     \<and> e' = \<lparr>xf_basic = over (xf_basic e) (x_basic_ca X) EXT_BASIC_CONSTRAINTS [x],
             xf_key_usage = over (xf_key_usage e) (x_key_usage X) EXT_KEY_USAGE [x],
             xf_eku = over (xf_eku e) (x_ext_key_usage X) EXT_EXT_KEY_USAGE [x]\<rparr>"
  using ext_names
  by (cases e) (auto simp: ext_step_def exts_ok_def over_Cons rbind_Ok ok_or_Ok if_Err_Ok)

lemma exts_ok_Cons: "exts_ok X (x # xs) \<longleftrightarrow> exts_ok X [x] \<and> exts_ok X xs"
  by (simp add: exts_ok_def)

lemma ext_loop_iff:
  "ext_loop X what xs e = Ok e' \<longleftrightarrow> exts_ok X xs
     \<and> e' = \<lparr>xf_basic = over (xf_basic e) (x_basic_ca X) EXT_BASIC_CONSTRAINTS xs,
             xf_key_usage = over (xf_key_usage e) (x_key_usage X) EXT_KEY_USAGE xs,
             xf_eku = over (xf_eku e) (x_ext_key_usage X) EXT_EXT_KEY_USAGE xs\<rparr>"
proof (induction xs arbitrary: e)
  case Nil
  then show ?case by (auto simp: exts_ok_def)
next
  case (Cons x xs)
  then show ?case
    by (simp add: rbind_Ok ext_step_iff exts_ok_Cons [of X x xs] over_Cons [of _ _ _ x xs] over_Cons [of _ _ _ x "[]"])
qed

lemma extensions_iff:
  "extensions X c what = Ok e \<longleftrightarrow> exts_ok X (c_extensions c)
     \<and> e = \<lparr>xf_basic = basic_of X c, xf_key_usage = usage_of X c, xf_eku = eku_of X c\<rparr>"
  by (simp add: extensions_def ext_loop_iff over_def basic_of_def usage_of_def eku_of_def last_read_def
      ext_values_def Let_def)

definition is_ca :: "('k, 's) x509 \<Rightarrow> cert \<Rightarrow> bool" where
  "is_ca X c \<longleftrightarrow> exts_ok X (c_extensions c) \<and> basic_of X c = Some True \<and> has_usage KeyCertSign (usage_of X c)"

definition is_ek_leaf :: "('k, 's) x509 \<Rightarrow> cert \<Rightarrow> bool" where
  "is_ek_leaf X c \<longleftrightarrow> exts_ok X (c_extensions c) \<and> basic_of X c \<noteq> Some True
     \<and> (\<exists>us. eku_of X c = Some us \<and> TCG_KP_EK_CERTIFICATE \<in> set us)"

definition signed_with :: "('k, 's) x509 \<Rightarrow> 'k \<Rightarrow> bytes res \<Rightarrow> bytes option \<Rightarrow> bool" where
  "signed_with X key der signature \<longleftrightarrow>
     (\<exists>tbs sb s. der = Ok tbs \<and> signature = Some sb \<and> x_signature X sb = Some s \<and> x_verify X key tbs s)"

definition issued_by :: "('k, 's) x509 \<Rightarrow> cert \<Rightarrow> cert \<Rightarrow> bool" where
  "issued_by X c issuer \<longleftrightarrow> (\<exists>d. x_name_der X (c_issuer c) = Ok d \<and> x_name_der X (c_subject issuer) = Ok d)"

definition valid_at :: "cert \<Rightarrow> duration \<Rightarrow> bool" where
  "valid_at c when \<longleftrightarrow> from_secs (c_not_before c) \<le> when \<and> when \<le> from_secs (c_not_after c)"

definition key_of :: "('k, 's) x509 \<Rightarrow> cert \<Rightarrow> 'k option" where
  "key_of X c = Option.bind (res_ok (c_spki c)) (x_rsa_key X)"

text \<open>One link: \<open>c\<close> was issued and signed by \<open>issuer\<close> with \<open>key\<close>, in SHA-256 with RSA, valid at the time.\<close>

definition link :: "('k, 's) x509 \<Rightarrow> duration \<Rightarrow> cert \<Rightarrow> cert \<Rightarrow> 'k \<Rightarrow> bool" where
  "link X when c issuer key \<longleftrightarrow>
     c_outer_alg c = SHA256_WITH_RSA \<and> c_inner_alg c = SHA256_WITH_RSA \<and> valid_at c when
     \<and> issued_by X c issuer \<and> key_of X issuer = Some key \<and> signed_with X key (c_tbs c) (c_signature c)"

definition chain_holds ::
  "('k, 's) x509 \<Rightarrow> duration \<Rightarrow> cert \<Rightarrow> cert \<Rightarrow> cert \<Rightarrow> 'k \<Rightarrow> bool" where
  "chain_holds X when ek ica root ek_key \<longleftrightarrow>
     (\<exists>ica_key root_key. link X when ek ica ica_key \<and> link X when ica root root_key \<and> link X when root root root_key)
     \<and> is_ek_leaf X ek \<and> is_ca X ica \<and> is_ca X root
     \<and> key_of X ek = Some ek_key \<and> x_rsa_size X ek_key = 256"

lemma check_ca_iff: "check_ca X c what = Ok u \<longleftrightarrow> is_ca X c"
  by (auto simp: check_ca_def is_ca_def rbind_Ok extensions_iff if_Err_Ok)

lemma check_ek_leaf_iff: "check_ek_leaf X c = Ok u \<longleftrightarrow> is_ek_leaf X c"
  by (auto simp: check_ek_leaf_def is_ek_leaf_def rbind_Ok extensions_iff if_Err_Ok split: option.splits)

lemma rsa_verify_iff: "rsa_verify X key der sg what refusal = Ok u \<longleftrightarrow> signed_with X key der sg"
  by (auto simp: rsa_verify_def signed_with_def rbind_Ok ctx_Ok ok_or_Ok if_Ok_Err)

lemma check_issued_by_iff: "check_issued_by X c i what = Ok u \<longleftrightarrow> issued_by X c i"
  by (auto simp: check_issued_by_def issued_by_def rbind_Ok ctx_Ok if_Err_Ok)

lemma rsa_key_iff: "rsa_key X c what = Ok k \<longleftrightarrow> key_of X c = Some k"
  by (cases "c_spki c") (simp_all add: rsa_key_def key_of_def ok_or_Ok)

lemma cert_parse_iff: "cert_parse X der what = Ok c \<longleftrightarrow> x_cert X der = Some c"
  by (simp add: cert_parse_def ok_or_Ok)

lemma check_alg_iff: "check_alg c what = Ok u \<longleftrightarrow> c_outer_alg c = SHA256_WITH_RSA \<and> c_inner_alg c = SHA256_WITH_RSA"
  by (simp add: check_alg_def)

lemma cert_check_time_iff: "cert_check_time c when what = Ok u \<longleftrightarrow> valid_at c when"
  by (auto simp: cert_check_time_def valid_at_def Let_def)

lemmas cert_iffs = check_ca_iff check_ek_leaf_iff rsa_verify_iff check_issued_by_iff rsa_key_iff cert_parse_iff
  check_alg_iff cert_check_time_iff

lemma check_each_Ok: "check_each when cs = Ok u \<longleftrightarrow>
    list_all (\<lambda>(c, w). c_outer_alg c = SHA256_WITH_RSA \<and> c_inner_alg c = SHA256_WITH_RSA \<and> valid_at c when) cs"
  by (induction cs) (auto simp: rbind_Ok cert_iffs)

lemma chain_verify_iff:
  "chain_verify X H ek_der int_der root_der when = Ok ch \<longleftrightarrow>
   (\<exists>ek ica root. x_cert X ek_der = Some ek \<and> x_cert X int_der = Some ica \<and> x_cert X root_der = Some root
      \<and> chain_holds X when ek ica root (ch_ek_public ch) \<and> ch_root_sha256 ch = sha256 H root_der)"
proof -
  have "chain_verify X H ek_der int_der root_der when = Ok ch \<longleftrightarrow>
    (\<exists>ek ica root. x_cert X ek_der = Some ek \<and> x_cert X int_der = Some ica \<and> x_cert X root_der = Some root
      \<and> (\<exists>root_key int_key ek_key.
          list_all (\<lambda>(c, w). c_outer_alg c = SHA256_WITH_RSA \<and> c_inner_alg c = SHA256_WITH_RSA \<and> valid_at c when)
            [(ek, ''EK certificate''), (ica, ''intermediate''), (root, ''root'')]
          \<and> key_of X root = Some root_key \<and> key_of X ica = Some int_key \<and> key_of X ek = Some ek_key
          \<and> issued_by X root root \<and> signed_with X root_key (c_tbs root) (c_signature root) \<and> is_ca X root
          \<and> issued_by X ica root \<and> signed_with X root_key (c_tbs ica) (c_signature ica) \<and> is_ca X ica
          \<and> issued_by X ek ica \<and> signed_with X int_key (c_tbs ek) (c_signature ek) \<and> is_ek_leaf X ek
          \<and> x_rsa_size X ek_key = 256 \<and> ch = \<lparr>ch_ek_public = ek_key, ch_root_sha256 = sha256 H root_der\<rparr>))"
    unfolding chain_verify_def check_signed_by_def rbind_Ok cert_iffs check_each_Ok if_Err_Ok
    by (simp only: sum.inject eq_commute [of _ ch]) (simp; blast)
  then show ?thesis
    unfolding chain_holds_def link_def
    by (cases ch) (simp; blast)
qed

end
