(* ===== verification/Crl.thy ===== *)
theory Crl
  imports Chain
begin

text \<open>
  Revocation of the EK chain (\<open>registrar/crl.rs\<close>): each of the two certificates below the
  root against the CRL of its issuer.
\<close>

section \<open>The check\<close>

record crl_checked =
  this_update_unix :: nat
  next_update_unix :: nat

fun no_critical :: "string \<Rightarrow> extension list \<Rightarrow> unit res" where
  "no_critical what [] = Ok ()"
| "no_critical what (x # xs) =
     (if xe_critical x then Err (Ctx what (Msg ''critical CRL extension is not understood'' [Txt (xe_id x)]))
      else no_critical what xs)"

fun not_listed :: "string \<Rightarrow> bytes \<Rightarrow> bytes list \<Rightarrow> unit res" where
  "not_listed what serial [] = Ok ()"
| "not_listed what serial (r # rs) =
     (if r = serial then Err (Ctx what (Msg ''the certificate is REVOKED'' [Txt (hex_lower serial)]))
      else not_listed what serial rs)"

definition crl_check ::
  "('k, 's) x509 \<Rightarrow> bytes \<Rightarrow> cert \<Rightarrow> cert \<Rightarrow> 'k \<Rightarrow> duration \<Rightarrow> string \<Rightarrow> crl_checked res" where
  "crl_check X crl_der subject issuer issuer_key when what =
     rbind (ok_or (Ctx what (Msg ''not a DER CRL'' [])) (x_crl X crl_der)) (\<lambda>crl.
     if l_outer_alg crl \<noteq> SHA256_WITH_RSA \<or> l_inner_alg crl \<noteq> SHA256_WITH_RSA then
       Err (Ctx what (Msg ''signature algorithm, only sha256WithRSAEncryption accepted''
         [Txt (l_outer_alg crl), Txt (l_inner_alg crl)]))
     else
     rbind (ctx what (x_name_der X (l_issuer crl))) (\<lambda>a.
     rbind (ctx what (x_name_der X (c_subject issuer))) (\<lambda>b.
     if a \<noteq> b then Err (Ctx what (Msg ''CRL issuer is not the issuing CA''
       [Txt (x_name_text X (l_issuer crl)), Txt (x_name_text X (c_subject issuer))]))
     else
     rbind (extensions X issuer what) (\<lambda>e.
     if \<not> has_usage CRLSign (xf_key_usage e) then
       Err (Ctx what (Msg ''the issuing CA's keyUsage does not include cRLSign'' []))
     else
     rbind (rsa_verify X issuer_key (l_tbs crl) (l_signature crl) what
              ''CRL signature does not verify under the issuing CA's key'') (\<lambda>_.
     rbind (ok_or (Ctx what (Msg ''CRL has no nextUpdate'' [])) (l_next_update crl)) (\<lambda>next_update.
     if when < from_secs (l_this_update crl) \<or> when > from_secs next_update then
       Err (Ctx what (Msg ''CRL not current at the chain check time''
         [Num (l_this_update crl), Num next_update]))
     else
     rbind (no_critical what (l_extensions crl)) (\<lambda>_.
     rbind (not_listed what (c_serial subject) (l_revoked crl)) (\<lambda>_.
     Ok \<lparr>this_update_unix = as_secs (from_secs (l_this_update crl)),
         next_update_unix = as_secs (from_secs next_update)\<rparr>))))))))"

definition crl_check_chain ::
  "('k, 's) x509 \<Rightarrow> bytes \<Rightarrow> bytes \<Rightarrow> bytes \<Rightarrow> bytes \<Rightarrow> bytes \<Rightarrow> duration
     \<Rightarrow> (crl_checked \<times> crl_checked) res" where
  "crl_check_chain X ek_der int_der root_der ek_crl int_crl when =
     rbind (cert_parse X ek_der ''EK certificate'') (\<lambda>ek.
     rbind (cert_parse X int_der ''intermediate'') (\<lambda>int.
     rbind (cert_parse X root_der ''root'') (\<lambda>root.
     rbind (rsa_key X int ''intermediate'') (\<lambda>int_key.
     rbind (rsa_key X root ''root'') (\<lambda>root_key.
     rbind (crl_check X ek_crl ek int int_key when ''EK CRL'') (\<lambda>e.
     rbind (crl_check X int_crl int root root_key when ''intermediate CRL'') (\<lambda>i.
     Ok (e, i))))))))"

section \<open>What an accepted list says\<close>

definition not_revoked ::
  "('k, 's) x509 \<Rightarrow> bytes \<Rightarrow> cert \<Rightarrow> cert \<Rightarrow> 'k \<Rightarrow> duration \<Rightarrow> nat \<Rightarrow> nat \<Rightarrow> bool" where
  "not_revoked X crl_der subject issuer key when this nxt \<longleftrightarrow>
     (\<exists>crl d. x_crl X crl_der = Some crl
        \<and> l_outer_alg crl = SHA256_WITH_RSA \<and> l_inner_alg crl = SHA256_WITH_RSA
        \<and> x_name_der X (l_issuer crl) = Ok d \<and> x_name_der X (c_subject issuer) = Ok d
        \<and> exts_ok X (c_extensions issuer) \<and> has_usage CRLSign (usage_of X issuer)
        \<and> signed_with X key (l_tbs crl) (l_signature crl)
        \<and> l_this_update crl = this \<and> l_next_update crl = Some nxt
        \<and> from_secs this \<le> when \<and> when \<le> from_secs nxt
        \<and> list_all (\<lambda>x. \<not> xe_critical x) (l_extensions crl)
        \<and> c_serial subject \<notin> set (l_revoked crl))"

lemma as_from_secs [simp]: "as_secs (from_secs s) = s"
  by (simp add: as_secs_def from_secs_def)

lemma from_secs_mono [simp]: "from_secs a \<le> from_secs b \<longleftrightarrow> a \<le> b"
  by (simp add: from_secs_def)

lemma no_critical_iff: "no_critical what xs = Ok u \<longleftrightarrow> list_all (\<lambda>x. \<not> xe_critical x) xs"
  by (induction xs) auto

lemma not_listed_iff: "not_listed what serial rs = Ok u \<longleftrightarrow> serial \<notin> set rs"
  by (induction rs) auto

lemma crl_check_iff:
  "crl_check X crl_der subject issuer key when what = Ok ch \<longleftrightarrow>
   not_revoked X crl_der subject issuer key when (this_update_unix ch) (next_update_unix ch)"
  unfolding crl_check_def not_revoked_def rbind_Ok ok_or_Ok if_Err_Ok ctx_Ok extensions_iff cert_iffs
    no_critical_iff not_listed_iff as_from_secs
  by (cases ch) (auto simp: linorder_not_less)

lemma crl_check_chain_iff:
  "crl_check_chain X ek_der int_der root_der ek_crl int_crl when = Ok (e, i) \<longleftrightarrow>
   (\<exists>ek ica root ica_key root_key. x_cert X ek_der = Some ek \<and> x_cert X int_der = Some ica
      \<and> x_cert X root_der = Some root \<and> key_of X ica = Some ica_key \<and> key_of X root = Some root_key
      \<and> not_revoked X ek_crl ek ica ica_key when (this_update_unix e) (next_update_unix e)
      \<and> not_revoked X int_crl ica root root_key when (this_update_unix i) (next_update_unix i))"
  unfolding crl_check_chain_def rbind_Ok cert_iffs crl_check_iff by auto

section \<open>The time of the check\<close>

text \<open>
  Certificates and lists hold whole seconds, so a check passes at an instant exactly when it
  passes at the second the record keeps of it.
\<close>

lemma secs_floor: "from_secs a \<le> when \<and> when \<le> from_secs b \<Longrightarrow>
    from_secs a \<le> from_secs (as_secs when) \<and> from_secs (as_secs when) \<le> from_secs b"
  unfolding from_secs_def as_secs_def
  by (metis div_le_mono div_mult_self_is_m mult_le_cancel2 zero_less_numeral zero_less_power)

lemma valid_at_floor: "valid_at c when \<Longrightarrow> valid_at c (from_secs (as_secs when))"
  unfolding valid_at_def by (rule secs_floor)

lemma chain_holds_floor:
  "chain_holds X when ek ica root k \<Longrightarrow> chain_holds X (from_secs (as_secs when)) ek ica root k"
  unfolding chain_holds_def link_def using valid_at_floor by blast

lemma not_revoked_floor:
  "not_revoked X crl_der subject issuer key when this nxt \<Longrightarrow>
   not_revoked X crl_der subject issuer key (from_secs (as_secs when)) this nxt"
  unfolding not_revoked_def using secs_floor by blast

end
