(* ===== verification/MakeCred.thy ===== *)
theory MakeCred
  imports Reader Io
begin

text \<open>
  \<open>TPM2_MakeCredential\<close> in software (\<open>registrar/makecred.rs\<close>): the key derivation, the
  protected identity and the credential file. HMAC-SHA256, AES-128-CFB, RSA-OAEP and the
  random generator are crates, hence parameters; an HMAC value is a 256-bit word, so its
  32 bytes need no assumption.
\<close>

section \<open>What the crates give\<close>

record ('w, 'k) cred_crypto =
  m_hmac :: "bytes \<Rightarrow> bytes \<Rightarrow> 256 word"
  m_cfb :: "bytes \<Rightarrow> bytes \<Rightarrow> bytes \<Rightarrow> bytes"
  m_random :: "'w \<Rightarrow> (nat \<Rightarrow> byte) \<times> 'w"
  m_oaep :: "'k \<Rightarrow> bytes \<Rightarrow> bytes \<Rightarrow> ('w, err, bytes) step"

definition hmac_sha256 :: "('w, 'k) cred_crypto \<Rightarrow> bytes \<Rightarrow> bytes \<Rightarrow> bytes" where
  "hmac_sha256 M key m = be_enc 32 (unat (m_hmac M key m))"

text \<open>\<open>fill_bytes\<close> on an array of the given length.\<close>

definition fill_bytes :: "('w, 'k) cred_crypto \<Rightarrow> nat \<Rightarrow> ('w, bytes) io" where
  "fill_bytes M n w = (case m_random M w of (f, w') \<Rightarrow> (Ok (map f [0..<n]), w'))"

lemma length_hmac [simp]: "length (hmac_sha256 M k m) = 32"
  by (simp add: hmac_sha256_def)

section \<open>Constants\<close>

definition FILE_MAGIC :: u32 where "FILE_MAGIC = 0xBADCC0DE"
definition FILE_VERSION :: u32 where "FILE_VERSION = 1"
definition SECRET_LEN :: nat where [simp]: "SECRET_LEN = 32"
definition SEED_LEN :: nat where [simp]: "SEED_LEN = 32"
definition LABEL_IDENTITY :: bytes where "LABEL_IDENTITY = lit ''IDENTITY'' @ [0]"

section \<open>The key derivation\<close>

function kdfa_loop ::
  "('w, 'k) cred_crypto \<Rightarrow> bytes \<Rightarrow> bytes \<Rightarrow> bytes \<Rightarrow> bytes \<Rightarrow> u32 \<Rightarrow> nat \<Rightarrow> u32 \<Rightarrow> bytes \<Rightarrow> bytes" where
  "kdfa_loop M key label u v bits n counter out =
     (if length out < n then
        let counter' = counter + 1 in
        kdfa_loop M key label u v bits n counter'
          (out @ hmac_sha256 M key (be32 counter' @ label @ [0] @ u @ v @ be32 bits))
      else out)"
  by pat_completeness auto
termination
  by (relation "measure (\<lambda>(_, _, _, _, _, _, n, _, out). n - length out)") auto

declare kdfa_loop.simps [simp del]

definition kdfa :: "('w, 'k) cred_crypto \<Rightarrow> bytes \<Rightarrow> bytes \<Rightarrow> bytes \<Rightarrow> bytes \<Rightarrow> u32 \<Rightarrow> bytes" where
  "kdfa M key label u v bits =
     (let n = (unat bits + 7) div 8 in take n (kdfa_loop M key label u v bits n 0 []))"

section \<open>The credential\<close>

text \<open>\<open>v.len() as u16\<close> truncates; \<open>len16\<close> does.\<close>

definition cred_tpm2b :: "bytes \<Rightarrow> bytes" where
  "cred_tpm2b v = be16 (len16 v) @ v"

definition protect :: "('w, 'k) cred_crypto \<Rightarrow> bytes \<Rightarrow> bytes \<Rightarrow> bytes \<Rightarrow> bytes \<times> bytes" where
  "protect M seed name secret =
     (let sym_key = kdfa M seed (lit ''STORAGE'') name [] 128;
          enc_identity = m_cfb M sym_key (replicate 16 0) (cred_tpm2b secret);
          hmac_key = kdfa M seed (lit ''INTEGRITY'') [] [] 256
      in (enc_identity, hmac_sha256 M hmac_key (enc_identity @ name)))"

definition credential_bytes :: "bytes \<Rightarrow> bytes \<Rightarrow> bytes \<Rightarrow> bytes" where
  "credential_bytes integrity enc_identity enc_seed =
     be32 FILE_MAGIC @ be32 FILE_VERSION @ cred_tpm2b (cred_tpm2b integrity @ enc_identity) @ cred_tpm2b enc_seed"

definition make_credential_with_seed ::
  "('w, 'k) cred_crypto \<Rightarrow> 'k \<Rightarrow> bytes \<Rightarrow> bytes \<Rightarrow> bytes \<Rightarrow> ('w, bytes) io" where
  "make_credential_with_seed M ek name secret seed =
     sbind (smap_err (Ctx ''RSA-OAEP'') (m_oaep M ek LABEL_IDENTITY seed)) (\<lambda>enc_seed.
     case protect M seed name secret of (enc_identity, integrity) \<Rightarrow>
       sret (credential_bytes integrity enc_identity enc_seed))"

definition make_credential :: "('w, 'k) cred_crypto \<Rightarrow> 'k \<Rightarrow> bytes \<Rightarrow> bytes \<Rightarrow> ('w, bytes) io" where
  "make_credential M ek name secret =
     sbind (fill_bytes M SEED_LEN) (\<lambda>seed. make_credential_with_seed M ek name secret seed)"

section \<open>Reading the file\<close>

record credential_file =
  cf_integrity :: bytes
  cf_enc_identity :: bytes
  cf_enc_seed :: bytes

definition cf_take :: "string \<Rightarrow> nat \<Rightarrow> bytes \<Rightarrow> (bytes \<times> bytes) res" where
  "cf_take what n b =
     (if length b < n then Err (Ctx ''credential file: short'' (Msg what [])) else Ok (take n b, drop n b))"

definition cf_u16 :: "string \<Rightarrow> bytes \<Rightarrow> (u16 \<times> bytes) res" where
  "cf_u16 what b = rbind (cf_take what 2 b) (\<lambda>(h, r). Ok (un16 [h ! 0, h ! 1], r))"

text \<open>A size and what it counts, each read with its own name in the message.\<close>

definition cf_part :: "string \<Rightarrow> string \<Rightarrow> bytes \<Rightarrow> (bytes \<times> bytes) res" where
  "cf_part sz what b = rbind (cf_u16 sz b) (\<lambda>(n, r). cf_take what (unat n) r)"

definition parse_file :: "bytes \<Rightarrow> credential_file res" where
  "parse_file b =
     rbind (cf_take ''magic'' 4 b) (\<lambda>(magic, r).
     rbind (cf_take ''version'' 4 r) (\<lambda>(version, r).
     if un32 magic \<noteq> FILE_MAGIC \<or> un32 version \<noteq> FILE_VERSION then
       Err (Msg ''credential file: magic, version'' [Num (unat (un32 magic)), Num (unat (un32 version))])
     else
     rbind (cf_part ''TPM2B_ID_OBJECT size'' ''TPM2B_ID_OBJECT'' r) (\<lambda>(id, r).
     rbind (cf_part ''integrityHMAC size'' ''integrityHMAC'' id) (\<lambda>(integrity, enc_identity).
     rbind (cf_part ''TPM2B_ENCRYPTED_SECRET size'' ''encryptedSecret'' r) (\<lambda>(enc_seed, r).
     if r \<noteq> [] then Err (Msg ''credential file: trailing bytes'' [Num (length r)])
     else if length integrity \<noteq> 32 \<or> length enc_identity \<noteq> 2 + SECRET_LEN then
       Err (Msg ''credential file: integrityHMAC, encIdentity'' [Num (length integrity), Num (length enc_identity)])
     else Ok \<lparr>cf_integrity = integrity, cf_enc_identity = enc_identity, cf_enc_seed = enc_seed\<rparr>)))))"

section \<open>The chip's side\<close>

text \<open>
  \<open>activate_in_software\<close>, the code's own model of \<open>TPM2_ActivateCredential\<close>: what the chip
  that holds the EK does. It is compiled for the tests of the module only; the binaries leave
  this to the chip. Decryption under the EK and AES-CFB decryption are parameters.
\<close>

definition activate_in_software ::
  "('w, 'k) cred_crypto \<Rightarrow> (bytes \<Rightarrow> bytes \<Rightarrow> bytes option) \<Rightarrow> (bytes \<Rightarrow> bytes \<Rightarrow> bytes \<Rightarrow> bytes)
     \<Rightarrow> bytes \<Rightarrow> bytes \<Rightarrow> bytes res" where
  "activate_in_software M oaep_decrypt cfb_decrypt name file =
     rbind (parse_file file) (\<lambda>c.
     rbind (ok_or (Msg ''OAEP'' []) (oaep_decrypt LABEL_IDENTITY (cf_enc_seed c))) (\<lambda>seed.
     let hmac_key = kdfa M seed (lit ''INTEGRITY'') [] [] 256 in
     if hmac_sha256 M hmac_key (cf_enc_identity c @ name) \<noteq> cf_integrity c then
       Err (Msg ''integrity HMAC mismatch (wrong name or EK)'' [])
     else
     let sym_key = kdfa M seed (lit ''STORAGE'') name [] 128;
         id = cfb_decrypt sym_key (replicate 16 0) (cf_enc_identity c) in
     if unat (un16 [id ! 0, id ! 1]) \<noteq> length id - 2 then Err (Msg ''identity size mismatch'' [])
     else Ok (drop 2 id)))"


section \<open>The reader meets its contract\<close>

lemma take_2_nth: "length s = 2 \<Longrightarrow> [s ! 0, s ! 1] = s"
  by (cases s rule: list.exhaust; cases "tl s") auto

interpretation cf: byte_reader "cf_take w" "cf_u16 w" "cf_part w w" for w
proof unfold_locales
  fix b
  show "cf_u16 w b = rbind (cf_take w 2 b) (\<lambda>(s, r). Inr (un16 s, r))"
  proof (cases "length b < 2")
    case False
    then have "[take 2 b ! 0, take 2 b ! 1] = take 2 b" by (intro take_2_nth) simp
    with False show ?thesis by (simp add: cf_u16_def cf_take_def)
  qed (simp add: cf_u16_def cf_take_def)
qed (simp_all add: cf_take_def cf_part_def)

lemma cf_take_any: "cf_take w n b = Ok x \<longleftrightarrow> cf_take w' n b = Ok x"
  by (simp add: cf_take_def)

lemma cf_part_iff: "cf_part sz what b = Ok (v, t) \<longleftrightarrow> length v < 2 ^ 16 \<and> b = tpm2b_bytes v @ t"
proof -
  have "cf_part sz what b = Ok (v, t) \<longleftrightarrow> cf_part what what b = Ok (v, t)"
    unfolding cf_part_def cf_u16_def rbind_Ok split_beta using cf_take_any by (metis (no_types, lifting))
  then show ?thesis by (simp add: cf.tpm2b_iff)
qed

lemma cred_tpm2b_bytes: "cred_tpm2b v = tpm2b_bytes v"
  by (simp add: cred_tpm2b_def tpm2b_bytes_def)

definition wf_credential :: "credential_file \<Rightarrow> bool" where
  "wf_credential c \<longleftrightarrow> length (cf_integrity c) = 32 \<and> length (cf_enc_identity c) = 34
     \<and> length (cf_enc_seed c) < 2 ^ 16"

lemma parse_file_iff:
  "parse_file b = Ok c \<longleftrightarrow> wf_credential c
     \<and> b = credential_bytes (cf_integrity c) (cf_enc_identity c) (cf_enc_seed c)"
proof
  assume "parse_file b = Ok c"
  then obtain m v inn enc sd where
    b: "b = m @ v @ tpm2b_bytes (tpm2b_bytes inn @ enc) @ tpm2b_bytes sd"
    and m: "length m = 4" "length v = 4" "un32 m = FILE_MAGIC" "un32 v = FILE_VERSION"
    and l: "length sd < 2 ^ 16" "length inn = 32" "length enc = 34"
    and c: "c = \<lparr>cf_integrity = inn, cf_enc_identity = enc, cf_enc_seed = sd\<rparr>"
    unfolding parse_file_def
    by (auto simp: rbind_Ok cf.take_iff cf_part_iff if_Err_Ok split_paired_Ex)
  have "m = be32 FILE_MAGIC" "v = be32 FILE_VERSION"
    using m be_un(2) by metis+
  then show "wf_credential c \<and> b = credential_bytes (cf_integrity c) (cf_enc_identity c) (cf_enc_seed c)"
    using b l by (simp add: c wf_credential_def credential_bytes_def cred_tpm2b_bytes)
next
  assume a: "wf_credential c \<and> b = credential_bytes (cf_integrity c) (cf_enc_identity c) (cf_enc_seed c)"
  have t: "cf_take w 4 (be32 x @ r) = Ok (be32 x, r)" for w x r
    by (simp add: cf_take_def)
  have p: "cf_part sz what (tpm2b_bytes x @ r) = Ok (x, r)" if "length x < 2 ^ 16" for sz what x r
    using that by (simp add: cf_part_iff)
  have l: "length (tpm2b_bytes (cf_integrity c) @ cf_enc_identity c) < 2 ^ 16"
    "length (cf_integrity c) < 2 ^ 16" "length (cf_enc_seed c) < 2 ^ 16"
    using a by (simp_all add: wf_credential_def length_tpm2b_bytes)
  show "parse_file b = Ok c"
    using a p [OF l(3), of _ _ "[]"] unfolding parse_file_def credential_bytes_def cred_tpm2b_bytes
    by (simp add: t p [OF l(1)] p [OF l(2)] wf_credential_def)
qed

section \<open>The derived key\<close>

definition kdfa_block ::
  "('w, 'k) cred_crypto \<Rightarrow> bytes \<Rightarrow> bytes \<Rightarrow> bytes \<Rightarrow> bytes \<Rightarrow> u32 \<Rightarrow> nat \<Rightarrow> bytes" where
  "kdfa_block M key label u v bits i =
     hmac_sha256 M key (be32 (of_nat i) @ label @ [0] @ u @ v @ be32 bits)"

lemma length_kdfa_block [simp]: "length (kdfa_block M key label u v bits i) = 32"
  by (simp add: kdfa_block_def)

lemma kdfa_loop_blocks:
  assumes "length out = 32 * i" "i \<le> (n + 31) div 32"
  shows "kdfa_loop M key label u v bits n (of_nat i) out =
    out @ concat (map (kdfa_block M key label u v bits) [Suc i..<Suc ((n + 31) div 32)])"
  using assms
proof (induction "(n + 31) div 32 - i" arbitrary: i out)
  case 0
  then have "i = (n + 31) div 32" by simp
  then have "\<not> length out < n" using 0(2) by simp
  then show ?case using \<open>i = (n + 31) div 32\<close> by (simp add: kdfa_loop.simps)
next
  case (Suc k)
  then have i: "Suc i \<le> (n + 31) div 32" "k = (n + 31) div 32 - Suc i" by simp_all
  then have "length out < n" using Suc.prems(1) by simp
  moreover have "kdfa_loop M key label u v bits n (of_nat (Suc i)) (out @ kdfa_block M key label u v bits (Suc i)) =
      (out @ kdfa_block M key label u v bits (Suc i))
      @ concat (map (kdfa_block M key label u v bits) [Suc (Suc i)..<Suc ((n + 31) div 32)])"
    using i Suc.prems(1) by (intro Suc.hyps(1)) simp_all
  moreover have "[Suc i..<Suc ((n + 31) div 32)] = Suc i # [Suc (Suc i)..<Suc ((n + 31) div 32)]"
    using i(1) by (simp add: upt_conv_Cons)
  moreover have "kdfa_loop M key label u v bits n (of_nat i) out =
      kdfa_loop M key label u v bits n (of_nat (Suc i)) (out @ kdfa_block M key label u v bits (Suc i))"
    using \<open>length out < n\<close> by (subst kdfa_loop.simps) (simp add: kdfa_block_def Let_def add.commute)
  ultimately show ?case by simp
qed

lemma kdfa_blocks:
  "kdfa M key label u v bits = take ((unat bits + 7) div 8)
     (concat (map (kdfa_block M key label u v bits) [1..<Suc (((unat bits + 7) div 8 + 31) div 32)]))"
  using kdfa_loop_blocks [of "[]" 0 "(unat bits + 7) div 8" M key label u v bits]
  by (simp add: kdfa_def Let_def)

lemma length_blocks: "length (concat (map (kdfa_block M key label u v bits) is)) = 32 * length is"
  by (induction "is") simp_all

lemma length_kdfa: "length (kdfa M key label u v bits) = (unat bits + 7) div 8"
  by (simp add: kdfa_blocks length_blocks)

end
