(* ===== verification/RegSignature.thy ===== *)
theory RegSignature
  imports Chain
begin

text \<open>
  The signature of a registration record (\<open>registrar/signature.rs\<close>): a detached CMS
  signature by a Registration Signer under the release root. The CMS parser is a crate: a
  parsed message is a record of the fields the code reads.
\<close>

section \<open>What the CMS parser gives\<close>

text \<open>\<open>si_sid\<close> is the issuer and the serial number, or none for a key identifier.\<close>

record signer_info =
  si_has_attrs :: bool
  si_digest_alg :: bytes
  si_sig_alg :: bytes
  si_sid :: "(bytes \<times> bytes) option"
  si_signature :: bytes

text \<open>A certificate of the set, or none for any other kind of choice.\<close>

record signed_data =
  sd_econtent_type :: bytes
  sd_has_content :: bool
  sd_signers :: "signer_info list"
  sd_certificates :: "cert option list option"

type_synonym cms_parser = "bytes \<Rightarrow> (bytes \<times> signed_data option) option"

section \<open>Constants\<close>

definition REG_EKU_OID :: bytes where "REG_EKU_OID = lit ''2.25.205994972697553183157730487844756597568''"
definition ID_SIGNED_DATA :: bytes where "ID_SIGNED_DATA = lit ''1.2.840.113549.1.7.2''"
definition ID_DATA :: bytes where "ID_DATA = lit ''1.2.840.113549.1.7.1''"
definition CMS_SHA256 :: bytes where "CMS_SHA256 = lit ''2.16.840.1.101.3.4.2.1''"
definition RSA_ENCRYPTION :: bytes where "RSA_ENCRYPTION = lit ''1.2.840.113549.1.1.1''"

section \<open>The purpose identifier\<close>

text \<open>
  The closure \<open>push\<close>: seven bits per octet, the last octet first in \<open>tmp\<close>, which is then
  reversed. The arcs are \<open>u128\<close>; the only argument is the constant above.
\<close>

function base128_high :: "nat \<Rightarrow> bytes" where
  "base128_high v = (if v = 0 then [] else (0x80 OR of_nat (v mod 128)) # base128_high (v div 128))"
  by pat_completeness auto
termination
  by (relation "measure id") auto

declare base128_high.simps [simp del]

definition base128 :: "nat \<Rightarrow> bytes" where
  "base128 v = rev (of_nat (v mod 128) # base128_high (v div 128))"

text \<open>\<open>parse().expect("numeric arc")\<close> panics on another text: \<open>None\<close>. So does the index of a missing arc.\<close>

definition oid_der :: "bytes \<Rightarrow> bytes option" where
  "oid_der dotted =
     (let arcs = map (parse_radix 10 (2 ^ 128 - 1)) (split_on 46 dotted) in
      if None \<in> set arcs then None
      else case map the arcs of
          a # b # rest \<Rightarrow>
            (let body = base128 (a * 40 + b) @ concat (map base128 rest) in
             Some (0x06 # of_nat (length body) # body))
        | _ \<Rightarrow> None)"

definition expected_eku_value :: "bytes option" where
  "expected_eku_value = map_option (\<lambda>oid. 0x30 # of_nat (length oid) # oid) (oid_der REG_EKU_OID)"

section \<open>The checks\<close>

text \<open>\<open>cert_der\<close>: PEM by its first bytes, otherwise taken as DER.\<close>

definition cert_der :: "('k, 's) x509 \<Rightarrow> bytes \<Rightarrow> string \<Rightarrow> bytes res" where
  "cert_der X b what =
     (if starts_with (lit ''-----BEGIN'') b then
        (case x_cert_pem X b of
           None \<Rightarrow> Err (Ctx what (Msg ''not a PEM certificate'' []))
         | Some der \<Rightarrow> ctx what der)
      else Ok b)"

definition sig_check_time :: "cert \<Rightarrow> duration \<Rightarrow> string \<Rightarrow> unit res" where
  "sig_check_time c when what =
     (if when < from_secs (c_not_before c) \<or> when > from_secs (c_not_after c) then
        Err (Ctx what (Msg ''not valid now'' [Num (c_not_before c), Num (c_not_after c)]))
      else Ok ())"

record leaf_found =
  lf_basic :: "bool option"
  lf_key_usage :: "usage list option"
  lf_eku :: "(bytes \<times> bool) option"

definition leaf_step :: "('k, 's) x509 \<Rightarrow> extension \<Rightarrow> leaf_found \<Rightarrow> leaf_found res" where
  "leaf_step X x e = (let w = ''signer certificate'' in
     if xe_id x = EXT_BASIC_CONSTRAINTS then
       rbind (ok_or (Ctx w (Msg ''basicConstraints'' [])) (x_basic_ca X (xe_value x)))
         (\<lambda>b. Ok (e\<lparr>lf_basic := Some b\<rparr>))
     else if xe_id x = EXT_KEY_USAGE then
       rbind (ok_or (Ctx w (Msg ''keyUsage'' [])) (x_key_usage X (xe_value x)))
         (\<lambda>k. Ok (e\<lparr>lf_key_usage := Some k\<rparr>))
     else if xe_id x = EXT_EXT_KEY_USAGE then Ok (e\<lparr>lf_eku := Some (xe_value x, xe_critical x)\<rparr>)
     else if xe_critical x then Err (Ctx w (Msg ''critical extension is not understood'' [Txt (xe_id x)]))
     else Ok e)"

fun leaf_loop :: "('k, 's) x509 \<Rightarrow> extension list \<Rightarrow> leaf_found \<Rightarrow> leaf_found res" where
  "leaf_loop X [] e = Ok e"
| "leaf_loop X (x # xs) e = rbind (leaf_step X x e) (leaf_loop X xs)"

definition check_leaf :: "('k, 's) x509 \<Rightarrow> cert \<Rightarrow> unit res" where
  "check_leaf X c = (let w = ''signer certificate'' in
     rbind (leaf_loop X (c_extensions c) \<lparr>lf_basic = None, lf_key_usage = None, lf_eku = None\<rparr>) (\<lambda>e.
     if lf_basic e = Some True then Err (Ctx w (Msg ''marked as a CA'' []))
     else if \<not> has_usage DigitalSignature (lf_key_usage e) then
       Err (Ctx w (Msg ''keyUsage lacks digitalSignature'' []))
     else case lf_eku e of
         Some (v, True) \<Rightarrow>
           if Some v = expected_eku_value then Ok ()
           else Err (Ctx w (Msg ''extended key usage is not exactly the Registration Signer's'' []))
       | Some (_, False) \<Rightarrow> Err (Ctx w (Msg ''extended key usage is not critical'' []))
       | None \<Rightarrow> Err (Ctx w (Msg ''no extended key usage'' []))))"

record signer =
  sg_leaf_subject :: bytes
  sg_leaf_serial :: bytes
  sg_signing_ca_subject :: bytes
  sg_root_sha256 :: bytes

definition cms_certs :: "signed_data \<Rightarrow> cert list" where
  "cms_certs sd = (case sd_certificates sd of None \<Rightarrow> [] | Some cs \<Rightarrow> map the (filter (\<lambda>c. c \<noteq> None) cs))"

text \<open>The container: one signer over detached data without attributes, by issuer and serial number.\<close>

definition cms_signer :: "cms_parser \<Rightarrow> bytes \<Rightarrow> (signed_data \<times> signer_info \<times> bytes \<times> bytes) res" where
  "cms_signer cms p7s =
     rbind (ok_or (Msg ''signature: not a DER CMS ContentInfo'' []) (cms p7s)) (\<lambda>(content_type, content).
     if content_type \<noteq> ID_SIGNED_DATA then
       Err (Msg ''signature: content type, want SignedData'' [Txt content_type])
     else
     rbind (ok_or (Msg ''signature: SignedData'' []) content) (\<lambda>sd.
     if sd_econtent_type sd \<noteq> ID_DATA then
       Err (Msg ''signature: encapsulated type, want id-data'' [Txt (sd_econtent_type sd)])
     else if sd_has_content sd then
       Err (Msg ''signature: content is embedded; a record signature is detached'' [])
     else case sd_signers sd of
         [si] \<Rightarrow>
           if si_has_attrs si then Err (Msg ''signature: signed attributes present'' [])
           else if si_digest_alg si \<noteq> CMS_SHA256 then
             Err (Msg ''signature: digest, want SHA-256'' [Txt (si_digest_alg si)])
           else if si_sig_alg si \<noteq> RSA_ENCRYPTION \<and> si_sig_alg si \<noteq> SHA256_WITH_RSA then
             Err (Msg ''signature: algorithm, want RSA PKCS#1 v1.5'' [Txt (si_sig_alg si)])
           else
           rbind (ok_or (Msg ''signature: signer identified by key identifier'' []) (si_sid si)) (\<lambda>(issuer, serial).
           Ok (sd, si, issuer, serial))
       | _ \<Rightarrow> Err (Msg ''signature: want exactly one signer'' [Num (length (sd_signers sd))])))"

fun sig_check_each :: "duration \<Rightarrow> (cert \<times> string) list \<Rightarrow> unit res" where
  "sig_check_each when [] = Ok ()"
| "sig_check_each when ((c, w) # cs) =
     rbind (check_alg c w) (\<lambda>_. rbind (sig_check_time c when w) (\<lambda>_. sig_check_each when cs))"

definition sig_verify ::
  "('k, 's) x509 \<Rightarrow> hash \<Rightarrow> cms_parser \<Rightarrow> bytes \<Rightarrow> bytes \<Rightarrow> bytes \<Rightarrow> duration \<Rightarrow> signer res" where
  "sig_verify X H cms record_bytes p7s root_der when =
     rbind (cms_signer cms p7s) (\<lambda>(sd, si, issuer, serial).
     rbind (ok_or (Msg ''signature: the signer certificate is not in the container'' [])
       (find (\<lambda>c. c_issuer c = issuer \<and> c_serial c = serial) (cms_certs sd))) (\<lambda>leaf.
     rbind (ok_or (Msg ''signature: the Signing CA certificate is not in the container'' [])
       (find (\<lambda>c. c_subject c = c_issuer leaf) (cms_certs sd))) (\<lambda>sca.
     rbind (cert_parse X root_der ''release root'') (\<lambda>root.
     rbind (sig_check_each when
       [(leaf, ''signer certificate''), (sca, ''Signing CA''), (root, ''release root'')]) (\<lambda>_.
     rbind (rsa_key X root ''release root'') (\<lambda>root_key.
     rbind (rsa_key X sca ''Signing CA'') (\<lambda>sca_key.
     rbind (rsa_key X leaf ''signer certificate'') (\<lambda>leaf_key.
     rbind (check_issued_by X root root ''release root'') (\<lambda>_.
     rbind (check_signed_by X root root_key ''release root'') (\<lambda>_.
     rbind (check_ca X root ''release root'') (\<lambda>_.
     rbind (check_issued_by X sca root ''Signing CA'') (\<lambda>_.
     rbind (check_signed_by X sca root_key ''Signing CA'') (\<lambda>_.
     rbind (check_ca X sca ''Signing CA'') (\<lambda>_.
     rbind (check_issued_by X leaf sca ''signer certificate'') (\<lambda>_.
     rbind (check_signed_by X leaf sca_key ''signer certificate'') (\<lambda>_.
     rbind (check_leaf X leaf) (\<lambda>_.
     rbind (ok_or (Msg ''signature: malformed'' []) (x_signature X (si_signature si))) (\<lambda>sig.
     if \<not> x_verify X leaf_key record_bytes sig then
       Err (Msg ''signature: does not verify over the record bytes'' [])
     else Ok \<lparr>sg_leaf_subject = x_name_text X (c_subject leaf), sg_leaf_serial = hex_lower (c_serial leaf),
              sg_signing_ca_subject = x_name_text X (c_subject sca),
              sg_root_sha256 = hex_lower (sha256 H root_der)\<rparr>))))))))))))))))))"


section \<open>The purpose is one octet string\<close>

definition REG_EKU_VALUE :: bytes where
  "REG_EKU_VALUE = [0x30, 0x16, 0x06, 0x14, 0x69, 0x82, 0xB5, 0xF9, 0x98, 0x92, 0xC4, 0x97, 0xB2, 0x83, 0xE9,
     0xA6, 0xE6, 0xE0, 0x94, 0xE5, 0x89, 0xA4, 0xD6, 0x40]"

lemma reg_eku_arcs:
  "split_on 46 REG_EKU_OID = [lit ''2'', lit ''25'', lit ''205994972697553183157730487844756597568'']"
  unfolding REG_EKU_OID_def by code_simp

lemma reg_eku_numbers:
  "parse_radix 10 (2 ^ 128 - 1) (lit ''2'') = Some 2"
  "parse_radix 10 (2 ^ 128 - 1) (lit ''25'') = Some 25"
  "parse_radix 10 (2 ^ 128 - 1) (lit ''205994972697553183157730487844756597568'')
     = Some 205994972697553183157730487844756597568"
  by (simp_all add: parse_radix_def lit_def radix_val_def digit_val_def is_digit_def)

lemma base128_small: "v < 128 \<Longrightarrow> base128 v = [of_nat v]"
  by (simp add: base128_def base128_high.simps)

lemma reg_eku_uuid: "base128 205994972697553183157730487844756597568 =
    [0x82, 0xB5, 0xF9, 0x98, 0x92, 0xC4, 0x97, 0xB2, 0x83, 0xE9, 0xA6, 0xE6, 0xE0, 0x94, 0xE5, 0x89, 0xA4, 0xD6, 0x40]"
  by (simp add: base128_def base128_high.simps)

lemma expected_eku: "expected_eku_value = Some REG_EKU_VALUE"
  using reg_eku_numbers
  by (simp add: expected_eku_value_def oid_der_def reg_eku_arcs Let_def base128_small reg_eku_uuid
      REG_EKU_VALUE_def)


section \<open>What an accepted signature is\<close>

definition ext_last :: "bytes \<Rightarrow> extension list \<Rightarrow> (bytes \<times> bool) option \<Rightarrow> (bytes \<times> bool) option" where
  "ext_last oid xs a = (let fs = filter (\<lambda>x. xe_id x = oid) xs in
     if fs = [] then a else Some (xe_value (last fs), xe_critical (last fs)))"

definition leaf_exts_ok :: "('k, 's) x509 \<Rightarrow> extension list \<Rightarrow> bool" where
  "leaf_exts_ok X xs \<longleftrightarrow> list_all (\<lambda>x.
       (xe_critical x \<longrightarrow> xe_id x \<in> {EXT_BASIC_CONSTRAINTS, EXT_KEY_USAGE, EXT_EXT_KEY_USAGE})
     \<and> (xe_id x = EXT_BASIC_CONSTRAINTS \<longrightarrow> x_basic_ca X (xe_value x) \<noteq> None)
     \<and> (xe_id x = EXT_KEY_USAGE \<longrightarrow> x_key_usage X (xe_value x) \<noteq> None)) xs"

text \<open>A Registration Signer: no CA, may sign data, for exactly the registration purpose, critically.\<close>

definition is_reg_signer :: "('k, 's) x509 \<Rightarrow> cert \<Rightarrow> bool" where
  "is_reg_signer X c \<longleftrightarrow> leaf_exts_ok X (c_extensions c) \<and> basic_of X c \<noteq> Some True
     \<and> has_usage DigitalSignature (usage_of X c)
     \<and> ext_last EXT_EXT_KEY_USAGE (c_extensions c) None = Some (REG_EKU_VALUE, True)"

lemma ext_last_Nil [simp]: "ext_last oid [] a = a"
  by (simp add: ext_last_def)

lemma ext_last_Cons:
  "ext_last oid (x # xs) a = ext_last oid xs (if xe_id x = oid then Some (xe_value x, xe_critical x) else a)"
  by (auto simp: ext_last_def Let_def)

lemma leaf_step_iff:
  "leaf_step X x e = Ok e' \<longleftrightarrow> leaf_exts_ok X [x]
     \<and> e' = \<lparr>lf_basic = over (lf_basic e) (x_basic_ca X) EXT_BASIC_CONSTRAINTS [x],
             lf_key_usage = over (lf_key_usage e) (x_key_usage X) EXT_KEY_USAGE [x],
             lf_eku = ext_last EXT_EXT_KEY_USAGE [x] (lf_eku e)\<rparr>"
  using ext_names
  by (cases e) (auto simp: leaf_step_def leaf_exts_ok_def over_Cons ext_last_Cons rbind_Ok ok_or_Ok if_Err_Ok)

lemma leaf_exts_ok_Cons: "leaf_exts_ok X (x # xs) \<longleftrightarrow> leaf_exts_ok X [x] \<and> leaf_exts_ok X xs"
  by (simp add: leaf_exts_ok_def)

lemma leaf_loop_iff:
  "leaf_loop X xs e = Ok e' \<longleftrightarrow> leaf_exts_ok X xs
     \<and> e' = \<lparr>lf_basic = over (lf_basic e) (x_basic_ca X) EXT_BASIC_CONSTRAINTS xs,
             lf_key_usage = over (lf_key_usage e) (x_key_usage X) EXT_KEY_USAGE xs,
             lf_eku = ext_last EXT_EXT_KEY_USAGE xs (lf_eku e)\<rparr>"
proof (induction xs arbitrary: e)
  case Nil
  then show ?case by (auto simp: leaf_exts_ok_def)
next
  case (Cons x xs)
  then show ?case
    by (simp add: rbind_Ok leaf_step_iff leaf_exts_ok_Cons [of X x xs] over_Cons [of _ _ _ x xs]
        over_Cons [of _ _ _ x "[]"] ext_last_Cons [of _ x xs] ext_last_Cons [of _ x "[]"])
qed

lemma check_leaf_iff: "check_leaf X c = Ok u \<longleftrightarrow> is_reg_signer X c"
proof -
  have o: "over None f oid (c_extensions c) = last_read f (ext_values oid c)" for f :: "bytes \<Rightarrow> 'x option" and oid
    by (simp add: over_def last_read_def ext_values_def Let_def)
  show ?thesis
    unfolding check_leaf_def is_reg_signer_def Let_def rbind_Ok leaf_loop_iff expected_eku
    by (auto simp: o basic_of_def usage_of_def split: option.splits bool.splits if_splits)
qed

lemma sig_check_time_iff: "sig_check_time c when what = Ok u \<longleftrightarrow> valid_at c when"
  by (auto simp: sig_check_time_def valid_at_def)

lemma sig_check_each_Ok: "sig_check_each when cs = Ok u \<longleftrightarrow>
    list_all (\<lambda>(c, w). c_outer_alg c = SHA256_WITH_RSA \<and> c_inner_alg c = SHA256_WITH_RSA \<and> valid_at c when) cs"
  by (induction cs) (auto simp: rbind_Ok cert_iffs sig_check_time_iff)

text \<open>The container holds one detached RSA signature by the holder of the certificate named.\<close>

definition container :: "cms_parser \<Rightarrow> bytes \<Rightarrow> signed_data \<Rightarrow> signer_info \<Rightarrow> bytes \<Rightarrow> bytes \<Rightarrow> bool" where
  "container cms p7s sd si issuer serial \<longleftrightarrow>
     cms p7s = Some (ID_SIGNED_DATA, Some sd) \<and> sd_econtent_type sd = ID_DATA \<and> \<not> sd_has_content sd
     \<and> sd_signers sd = [si] \<and> \<not> si_has_attrs si \<and> si_digest_alg si = CMS_SHA256
     \<and> si_sig_alg si \<in> {RSA_ENCRYPTION, SHA256_WITH_RSA} \<and> si_sid si = Some (issuer, serial)"

lemma single_Ok: "(case xs of [x] \<Rightarrow> f x | _ \<Rightarrow> Err e) = Ok y \<longleftrightarrow> (\<exists>x. xs = [x] \<and> f x = Ok y)"
  by (auto split: list.splits)

lemma cms_signer_iff: "cms_signer cms p7s = Ok (sd, si, issuer, serial) \<longleftrightarrow> container cms p7s sd si issuer serial"
  unfolding cms_signer_def container_def rbind_Ok ok_or_Ok if_Err_Ok split_beta single_Ok split_paired_Ex
    fst_conv snd_conv sum.inject prod.inject insert_iff empty_iff
  by auto

definition record_signed ::
  "('k, 's) x509 \<Rightarrow> cms_parser \<Rightarrow> bytes \<Rightarrow> bytes \<Rightarrow> cert \<Rightarrow> duration \<Rightarrow> cert \<Rightarrow> cert \<Rightarrow> bool" where
  "record_signed X cms record_bytes p7s root when leaf sca \<longleftrightarrow>
     (\<exists>sd si issuer serial key s. container cms p7s sd si issuer serial
        \<and> find (\<lambda>c. c_issuer c = issuer \<and> c_serial c = serial) (cms_certs sd) = Some leaf
        \<and> find (\<lambda>c. c_subject c = c_issuer leaf) (cms_certs sd) = Some sca
        \<and> key_of X leaf = Some key \<and> x_signature X (si_signature si) = Some s \<and> x_verify X key record_bytes s)
     \<and> is_reg_signer X leaf \<and> is_ca X sca \<and> is_ca X root
     \<and> (\<exists>sca_key root_key. link X when leaf sca sca_key \<and> link X when sca root root_key \<and> link X when root root root_key)"

definition signer_of :: "('k, 's) x509 \<Rightarrow> hash \<Rightarrow> bytes \<Rightarrow> cert \<Rightarrow> cert \<Rightarrow> signer" where
  "signer_of X H root_der leaf sca =
     \<lparr>sg_leaf_subject = x_name_text X (c_subject leaf), sg_leaf_serial = hex_lower (c_serial leaf),
      sg_signing_ca_subject = x_name_text X (c_subject sca), sg_root_sha256 = hex_lower (sha256 H root_der)\<rparr>"

lemma sig_verify_iff:
  "sig_verify X H cms record_bytes p7s root_der when = Ok sg \<longleftrightarrow>
   (\<exists>root leaf sca. x_cert X root_der = Some root \<and> record_signed X cms record_bytes p7s root when leaf sca
      \<and> sg = signer_of X H root_der leaf sca)"
proof -
  have "sig_verify X H cms record_bytes p7s root_der when = Ok sg \<longleftrightarrow>
    (\<exists>sd si issuer serial leaf sca root root_key sca_key leaf_key s. container cms p7s sd si issuer serial
      \<and> find (\<lambda>c. c_issuer c = issuer \<and> c_serial c = serial) (cms_certs sd) = Some leaf
      \<and> find (\<lambda>c. c_subject c = c_issuer leaf) (cms_certs sd) = Some sca
      \<and> x_cert X root_der = Some root
      \<and> list_all (\<lambda>(c, w). c_outer_alg c = SHA256_WITH_RSA \<and> c_inner_alg c = SHA256_WITH_RSA \<and> valid_at c when)
            [(leaf, ''signer certificate''), (sca, ''Signing CA''), (root, ''release root'')]
      \<and> key_of X root = Some root_key \<and> key_of X sca = Some sca_key \<and> key_of X leaf = Some leaf_key
      \<and> issued_by X root root \<and> signed_with X root_key (c_tbs root) (c_signature root) \<and> is_ca X root
      \<and> issued_by X sca root \<and> signed_with X root_key (c_tbs sca) (c_signature sca) \<and> is_ca X sca
      \<and> issued_by X leaf sca \<and> signed_with X sca_key (c_tbs leaf) (c_signature leaf) \<and> is_reg_signer X leaf
      \<and> x_signature X (si_signature si) = Some s \<and> x_verify X leaf_key record_bytes s
      \<and> sg = signer_of X H root_der leaf sca)"
    unfolding sig_verify_def check_signed_by_def rbind_Ok cert_iffs sig_check_each_Ok if_Err_Ok split_beta ok_or_Ok
      check_leaf_iff not_not
    by (simp only: split_paired_Ex fst_conv snd_conv cms_signer_iff sum.inject signer_of_def eq_commute [of _ sg])
       (simp; blast)
  also have "\<dots> \<longleftrightarrow> (\<exists>root leaf sca. x_cert X root_der = Some root
      \<and> record_signed X cms record_bytes p7s root when leaf sca \<and> sg = signer_of X H root_der leaf sca)"
    unfolding record_signed_def link_def by (simp only: list.pred_inject prod.case simp_thms) blast
  finally show ?thesis .
qed

end
