(* ===== verification/Registrar.thy ===== *)
theory Registrar
  imports Civil Crl MakeCred RegSignature Gate1 AgentState HexText
begin

text \<open>
  The registrar (\<open>registrar/main.rs\<close>): \<open>begin\<close> checks the EK chain and the attestation key
  and makes the credential, \<open>complete\<close> compares the device's answer with the secret and
  writes the record, \<open>verify\<close> checks a record again. A command that succeeds gives the lines
  it prints.
  The clock, the files, the JSON codecs of the two structures and the crates are
  parameters.
\<close>

section \<open>The structures\<close>

record reg_record =
  rr_format :: bytes
  rr_device_id :: bytes
  rr_registrar :: bytes
  rr_chain_checked_utc :: bytes
  rr_chain_checked_unix :: nat
  rr_registered_utc :: bytes
  rr_ek_nv_index :: bytes
  rr_ek_certificate :: bytes
  rr_intermediate_certificate :: bytes
  rr_root_sha256 :: bytes
  rr_chain_check :: bytes
  rr_revocation_checked :: bool
  rr_revocation_check :: "bytes option"
  rr_ek_crl :: "bytes option"
  rr_ek_crl_this_update_utc :: "bytes option"
  rr_ek_crl_next_update_utc :: "bytes option"
  rr_intermediate_crl :: "bytes option"
  rr_intermediate_crl_this_update_utc :: "bytes option"
  rr_intermediate_crl_next_update_utc :: "bytes option"
  rr_ak_public :: bytes
  rr_ak_name :: bytes
  rr_credential_blob :: bytes
  rr_secret_sha256 :: bytes
  rr_signed :: "bool option"

record pending =
  pe_format :: bytes
  pe_device_id :: bytes
  pe_registrar :: bytes
  pe_chain_checked_unix :: nat
  pe_ek_certificate :: bytes
  pe_intermediate_certificate :: bytes
  pe_root_sha256 :: bytes
  pe_ek_crl :: bytes
  pe_ek_crl_this_update_unix :: nat
  pe_ek_crl_next_update_unix :: nat
  pe_intermediate_crl :: bytes
  pe_intermediate_crl_this_update_unix :: nat
  pe_intermediate_crl_next_update_unix :: nat
  pe_ak_public :: bytes
  pe_ak_name :: bytes
  pe_credential_blob :: bytes
  pe_secret :: bytes

section \<open>What is outside\<close>

record ('w, 'h, 'k, 's, 'v, 'z) registrar_env =
  re_os :: "'w os"
  re_files :: "('w, 'h) files"
  re_mkdir :: "bytes \<Rightarrow> nat \<Rightarrow> ('w, err, unit) step"
  re_now :: "'w \<Rightarrow> duration \<times> 'w"
  re_x509 :: "('k, 's) x509"
  re_cms :: cms_parser
  re_cred :: "('w, 'k) cred_crypto"
  re_crypto :: "('v, 'z) crypto"
  re_pending_json :: "pending \<Rightarrow> bytes res"
  re_pending_of :: "bytes \<Rightarrow> pending option"
  re_record_json :: "reg_record \<Rightarrow> bytes res"
  re_record_of :: "bytes \<Rightarrow> reg_record option"

section \<open>Constants\<close>

definition RECORD_FORMAT :: bytes where "RECORD_FORMAT = lit ''tactiq-ak-registration/2''"
definition RECORD_FORMAT_V1 :: bytes where "RECORD_FORMAT_V1 = lit ''tactiq-ak-registration/1''"
definition PENDING_FORMAT :: bytes where "PENDING_FORMAT = lit ''tactiq-ak-registration-pending/1''"
definition EK_NV_INDEX :: bytes where "EK_NV_INDEX = lit ''0x01C00002''"
definition DEVICE_ID_MAX :: nat where [simp]: "DEVICE_ID_MAX = DEVICE_ID_LEN"

definition CHAIN_CHECK :: bytes where
  "CHAIN_CHECK = lit ''EK <- intermediate <- pinned root; sha256WithRSAEncryption; ''
     @ lit ''issuer/subject byte match; signatures; validity at chain_checked_utc; ''
     @ lit ''CA flags and keyCertSign on both CAs; EK not a CA, EKU tcg-kp-EKCertificate; ''
     @ lit ''unknown critical extensions refused''"

definition REVOCATION_CHECK :: bytes where
  "REVOCATION_CHECK = lit ''EK certificate against the CRL of its issuing CA, issuing CA ''
     @ lit ''against the CRL of the root; sha256WithRSAEncryption by the issuing key with cRLSign; ''
     @ lit ''CRL issuer byte match; thisUpdate <= chain_checked_utc <= nextUpdate; ''
     @ lit ''no critical CRL extension; serial not listed''"

section \<open>Options\<close>

text \<open>\<open>trim_start_matches("--")\<close>: the pair of bytes as often as it stands at the front.\<close>

fun trim_minus :: "bytes \<Rightarrow> bytes" where
  "trim_minus (a # b # xs) = (if a = 45 \<and> b = 45 then trim_minus xs else a # b # xs)"
| "trim_minus xs = xs"

type_synonym reg_opts = "(bytes \<times> bytes) list"

fun reg_options :: "bytes list \<Rightarrow> reg_opts" where
  "reg_options [] = []"
| "reg_options [k] = [(trim_minus k, [])]"
| "reg_options (k # v # a) = (trim_minus k, v) # reg_options a"

text \<open>The first option of the name, if its value is neither empty nor looks like an option.\<close>

definition reg_get :: "reg_opts \<Rightarrow> string \<Rightarrow> bytes res" where
  "reg_get opts k = (case map_of opts (lit k) of
     None \<Rightarrow> Err (Ctx ''missing option'' (Msg k []))
   | Some v \<Rightarrow> if v \<noteq> [] \<and> \<not> starts_with (lit ''--'') v then Ok v
               else Err (Ctx ''missing option'' (Msg k [])))"

definition reg_opt :: "reg_opts \<Rightarrow> string \<Rightarrow> bytes option" where
  "reg_opt opts k = res_ok (reg_get opts k)"

section \<open>Small parts\<close>

definition reg_read :: "('w, 'h, 'k, 's, 'v, 'z) registrar_env \<Rightarrow> reg_opts \<Rightarrow> string \<Rightarrow> ('w, bytes) io" where
  "reg_read E opts k = sbind (sres (reg_get opts k)) (read_file (re_os E))"

definition reg_now :: "('w, 'h, 'k, 's, 'v, 'z) registrar_env \<Rightarrow> ('w, duration) io" where
  "reg_now E w = (case re_now E w of (d, w') \<Rightarrow> (Ok d, w'))"

definition reg_validate_id :: "bytes \<Rightarrow> unit res" where
  "reg_validate_id i =
     (if i = [] \<or> length i > DEVICE_ID_MAX \<or> \<not> list_all is_graphic i then
        Err (Msg ''device id: 1..=16 printable ASCII bytes, no spaces'' [Txt i])
      else Ok ())"

definition check_ak :: "('v, 'z) crypto \<Rightarrow> bytes \<Rightarrow> bytes res" where
  "check_ak C ak_public =
     rbind (ctx ''AK public area refused by the AK rule'' (ak_from_tpm2b_public C ak_public)) (\<lambda>_.
     rbind (ecc_parse_tpm2b ak_public) (\<lambda>p. ecc_name (c_hash C) p))"

definition write_new :: "('w, 'h, 'k, 's, 'v, 'z) registrar_env \<Rightarrow> bytes \<Rightarrow> bytes \<Rightarrow> nat \<Rightarrow> ('w, unit) io" where
  "write_new E p data mode =
     sbind (smap_err (Ctx ''create'') (f_create_new (re_files E) p mode)) (\<lambda>f.
     smap_err (Ctx ''write'')
       (sbind (f_write (re_files E) f data) (\<lambda>_. f_fsync (re_files E) f)))"

fun hex_lines :: "bytes \<Rightarrow> bytes list" where
  "hex_lines [] = []"
| "hex_lines (x # xs) = take 64 (x # xs) # hex_lines (drop 64 (x # xs))"

text \<open>\<open>hex::decode\<close> of the crate \<open>hex\<close>, either case.\<close>

definition hex_decode :: "bytes \<Rightarrow> bytes res" where
  "hex_decode s = hex_decode_with (Msg ''not hex'' []) (Msg ''not hex'' []) s"

text \<open>\<open>split_whitespace().collect()\<close>: the text without its white space.\<close>

function drop_ws :: "bytes \<Rightarrow> bytes" where
  "drop_ws xs =
     (case xs of [] \<Rightarrow> []
      | x # ys \<Rightarrow> if ws_len xs = 0 then x # drop_ws ys else drop_ws (drop (ws_len xs) xs))"
  by pat_completeness auto
termination
  by (relation "measure length") auto

declare drop_ws.simps [simp del]

definition parse_answer :: "bytes \<Rightarrow> bytes res" where
  "parse_answer s =
     (let t = drop_ws s;
          t = (case strip_prefix (lit ''certinfodata:'') t of None \<Rightarrow> t | Some r \<Rightarrow> r) in
      rbind (ctx ''answer is not hex'' (hex_decode t)) (\<lambda>b.
      if length b \<noteq> SECRET_LEN then Err (Msg ''answer is not 32 bytes'' [Num (length b)]) else Ok b))"

definition ct_eq :: "bytes \<Rightarrow> bytes \<Rightarrow> bool" where
  "ct_eq a b \<longleftrightarrow> length a = length b
     \<and> foldl (\<lambda>acc p. acc OR (fst p XOR snd p)) 0 (zip a b) = (0 :: byte)"


section \<open>\<open>begin\<close>\<close>

definition pending_of ::
  "bytes \<Rightarrow> bytes \<Rightarrow> duration \<Rightarrow> bytes \<Rightarrow> bytes \<Rightarrow> bytes \<Rightarrow> bytes \<Rightarrow> crl_checked \<Rightarrow> bytes \<Rightarrow> crl_checked
     \<Rightarrow> bytes \<Rightarrow> bytes \<Rightarrow> bytes \<Rightarrow> bytes \<Rightarrow> pending" where
  "pending_of device_id registrar when ek_der int_der root_sha ek_crl ec int_crl ic ak_public name blob secret =
     \<lparr>pe_format = PENDING_FORMAT, pe_device_id = device_id, pe_registrar = registrar,
      pe_chain_checked_unix = as_secs when, pe_ek_certificate = hex_lower ek_der,
      pe_intermediate_certificate = hex_lower int_der, pe_root_sha256 = hex_lower root_sha,
      pe_ek_crl = hex_lower ek_crl, pe_ek_crl_this_update_unix = this_update_unix ec,
      pe_ek_crl_next_update_unix = next_update_unix ec, pe_intermediate_crl = hex_lower int_crl,
      pe_intermediate_crl_this_update_unix = this_update_unix ic,
      pe_intermediate_crl_next_update_unix = next_update_unix ic, pe_ak_public = hex_lower ak_public,
      pe_ak_name = hex_lower name, pe_credential_blob = hex_lower blob, pe_secret = hex_lower secret\<rparr>"

definition begin_report ::
  "hash \<Rightarrow> bytes \<Rightarrow> bytes \<Rightarrow> bytes \<Rightarrow> crl_checked \<Rightarrow> crl_checked \<Rightarrow> bytes \<Rightarrow> bytes \<Rightarrow> bytes list" where
  "begin_report H state device_id root_sha ec ic name blob =
     [lit ''device      '' @ device_id,
      lit ''root sha256 '' @ hex_lower root_sha,
      lit ''revocation  EK not listed (CRL '' @ utc (this_update_unix ec) @ lit '' to '' @ utc (next_update_unix ec)
        @ lit ''), intermediate not listed (CRL '' @ utc (this_update_unix ic) @ lit '' to ''
        @ utc (next_update_unix ic) @ lit '')'',
      lit ''ak name     '' @ hex_lower name,
      lit ''blob        '' @ path_join state (lit ''cred.blob'') @ lit '' ('' @ dec (length blob) @ lit '' bytes)'',
      lit ''blob sha256 '' @ hex_lower (sha256 H blob),
      lit ''blob hex:''] @ hex_lines (hex_lower blob)"

definition reg_begin ::
  "('w, 'h, 'k, 's, 'v, 'z) registrar_env \<Rightarrow> reg_opts \<Rightarrow> ('w, bytes list) io" where
  "reg_begin E opts =
     sbind (sres (reg_get opts ''state'')) (\<lambda>state.
     sbind (sres (reg_get opts ''device-id'')) (\<lambda>device_id.
     sbind (sres (reg_validate_id device_id)) (\<lambda>_.
     sbind (sres (reg_get opts ''registrar'')) (\<lambda>registrar.
     sbind (reg_read E opts ''ek-cert'') (\<lambda>ek_der.
     sbind (reg_read E opts ''intermediate'') (\<lambda>int_der.
     sbind (reg_read E opts ''root'') (\<lambda>root_der.
     sbind (reg_read E opts ''ak-public'') (\<lambda>ak_public.
     sbind (reg_read E opts ''ek-crl'') (\<lambda>ek_crl.
     sbind (reg_read E opts ''intermediate-crl'') (\<lambda>int_crl.
     sbind (reg_now E) (\<lambda>when.
     sbind (sres (chain_verify (re_x509 E) (c_hash (re_crypto E)) ek_der int_der root_der when)) (\<lambda>chain.
     sbind (sres (crl_check_chain (re_x509 E) ek_der int_der root_der ek_crl int_crl when)) (\<lambda>(ec, ic).
     sbind (sres (check_ak (re_crypto E) ak_public)) (\<lambda>name.
     sbind (fill_bytes (re_cred E) SECRET_LEN) (\<lambda>secret.
     sbind (make_credential (re_cred E) (ch_ek_public chain) name secret) (\<lambda>blob.
     sbind (smap_err (Ctx ''create state directory'') (re_mkdir E state 448)) (\<lambda>_.
     sbind (sres (re_pending_json E (pending_of device_id registrar when ek_der int_der (ch_root_sha256 chain)
                    ek_crl ec int_crl ic ak_public name blob secret))) (\<lambda>json.
     sbind (write_new E (path_join state (lit ''pending.json'')) json 384) (\<lambda>_.
     sbind (write_new E (path_join state (lit ''cred.blob'')) blob 420) (\<lambda>_.
     sret (begin_report (c_hash (re_crypto E)) state device_id (ch_root_sha256 chain) ec ic name blob)))))))))))))))))))))"

section \<open>\<open>complete\<close>\<close>

definition record_of_pending :: "hash \<Rightarrow> pending \<Rightarrow> bytes \<Rightarrow> duration \<Rightarrow> reg_record" where
  "record_of_pending H p secret when =
     \<lparr>rr_format = RECORD_FORMAT, rr_device_id = pe_device_id p, rr_registrar = pe_registrar p,
      rr_chain_checked_utc = utc (pe_chain_checked_unix p), rr_chain_checked_unix = pe_chain_checked_unix p,
      rr_registered_utc = utc (as_secs when), rr_ek_nv_index = EK_NV_INDEX,
      rr_ek_certificate = pe_ek_certificate p, rr_intermediate_certificate = pe_intermediate_certificate p,
      rr_root_sha256 = pe_root_sha256 p, rr_chain_check = CHAIN_CHECK, rr_revocation_checked = True,
      rr_revocation_check = Some REVOCATION_CHECK, rr_ek_crl = Some (pe_ek_crl p),
      rr_ek_crl_this_update_utc = Some (utc (pe_ek_crl_this_update_unix p)),
      rr_ek_crl_next_update_utc = Some (utc (pe_ek_crl_next_update_unix p)),
      rr_intermediate_crl = Some (pe_intermediate_crl p),
      rr_intermediate_crl_this_update_utc = Some (utc (pe_intermediate_crl_this_update_unix p)),
      rr_intermediate_crl_next_update_utc = Some (utc (pe_intermediate_crl_next_update_unix p)),
      rr_ak_public = pe_ak_public p, rr_ak_name = pe_ak_name p, rr_credential_blob = pe_credential_blob p,
      rr_secret_sha256 = hex_lower (sha256 H secret), rr_signed = None\<rparr>"

definition read_pending ::
  "('w, 'h, 'k, 's, 'v, 'z) registrar_env \<Rightarrow> bytes \<Rightarrow> ('w, pending) io" where
  "read_pending E pending_path =
     sbind (read_file (re_os E) pending_path) (\<lambda>b.
     sbind (sres (ok_or (Ctx ''pending.json'' (Msg ''not a pending registration'' [])) (re_pending_of E b))) (\<lambda>p.
     if pe_format p \<noteq> PENDING_FORMAT then sfail (Ctx ''pending.json'' (Msg ''format'' [Txt (pe_format p)]))
     else sret p))"

text \<open>The record, once the answer has matched: written first, then the pending state is removed.\<close>

definition reg_finish ::
  "('w, 'h, 'k, 's, 'v, 'z) registrar_env \<Rightarrow> bytes \<Rightarrow> pending \<Rightarrow> bytes \<Rightarrow> ('w, bytes list) io" where
  "reg_finish E state p secret =
     sbind (reg_now E) (\<lambda>when.
     sbind (sres (re_record_json E (record_of_pending (c_hash (re_crypto E)) p secret when))) (\<lambda>json.
     let out = path_join state (lit ''record.json'') in
     sbind (write_new E out (json @ [10]) 420) (\<lambda>_.
     sbind (smap_err (\<lambda>e. Ctx ''remove'' (io_err e))
              (f_remove (re_files E) (path_join state (lit ''pending.json'')))) (\<lambda>_.
     sret [lit ''registered  '' @ pe_device_id p, lit ''record      '' @ out,
           lit ''record sha256 '' @ hex_lower (sha256 (c_hash (re_crypto E)) (json @ [10])),
           lit ''unsigned: internal only, not L3 (DDR-005 decision 6)'']))))"

definition reg_complete ::
  "('w, 'h, 'k, 's, 'v, 'z) registrar_env \<Rightarrow> reg_opts \<Rightarrow> ('w, bytes list) io" where
  "reg_complete E opts =
     sbind (sres (reg_get opts ''state'')) (\<lambda>state.
     sbind (read_pending E (path_join state (lit ''pending.json''))) (\<lambda>p.
     sbind (reg_read E opts ''answer'') (\<lambda>answer_bytes.
     sbind (sres (if utf8_valid answer_bytes then Ok answer_bytes else Err (Msg ''answer is not text'' []))) (\<lambda>s.
     sbind (sres (parse_answer s)) (\<lambda>answer.
     sbind (sres (hex_decode (pe_secret p))) (\<lambda>secret.
     if \<not> ct_eq answer secret then
       sfail (Msg ''the answer does not match the secret; registration NOT made'' [])
     else reg_finish E state p secret))))))"

section \<open>\<open>verify\<close>\<close>

text \<open>The format decides which fields must be there; \<open>True\<close> is format 2.\<close>

definition check_format :: "reg_record \<Rightarrow> bool res" where
  "check_format r =
     (if rr_format r = RECORD_FORMAT then
        (if rr_signed r \<noteq> None then Err (Msg ''format 2 record carries a signed field'' [])
         else if \<not> rr_revocation_checked r then Err (Msg ''format 2 record without a revocation check'' [])
         else Ok True)
      else if rr_format r = RECORD_FORMAT_V1 then
        (if rr_signed r \<noteq> Some False then Err (Msg ''format 1 record: field signed must be false'' [])
         else if rr_revocation_checked r then
           Err (Msg ''format 1 record claims a revocation check format 1 never made'' [])
         else Ok False)
      else Err (Msg ''record format'' [Txt (rr_format r)]))"

definition reg_unhex :: "string \<Rightarrow> bytes \<Rightarrow> bytes res" where
  "reg_unhex field v = ctx (''record field '' @ field) (hex_decode v)"

definition need :: "string \<Rightarrow> bytes option \<Rightarrow> bytes res" where
  "need field v = ok_or (Ctx ''format 2 record without'' (Msg field [])) v"

fun check_utcs :: "(string \<times> bytes option \<times> nat) list \<Rightarrow> unit res" where
  "check_utcs [] = Ok ()"
| "check_utcs ((f, got, want) # xs) =
     (if got \<noteq> Some (utc want) then Err (Ctx f (Msg ''does not match the CRL'' [Txt (utc want)]))
      else check_utcs xs)"

definition check_crls ::
  "('k, 's) x509 \<Rightarrow> reg_record \<Rightarrow> bytes \<Rightarrow> bytes \<Rightarrow> bytes \<Rightarrow> duration \<Rightarrow> unit res" where
  "check_crls X r ek_der int_der root_der when =
     rbind (need ''ek_crl'' (rr_ek_crl r)) (\<lambda>eh.
     rbind (reg_unhex ''ek_crl'' eh) (\<lambda>ek_crl.
     rbind (need ''intermediate_crl'' (rr_intermediate_crl r)) (\<lambda>ih.
     rbind (reg_unhex ''intermediate_crl'' ih) (\<lambda>int_crl.
     rbind (crl_check_chain X ek_der int_der root_der ek_crl int_crl when) (\<lambda>(ec, ic).
     check_utcs
       [(''ek_crl_this_update_utc'', rr_ek_crl_this_update_utc r, this_update_unix ec),
        (''ek_crl_next_update_utc'', rr_ek_crl_next_update_utc r, next_update_unix ec),
        (''intermediate_crl_this_update_utc'', rr_intermediate_crl_this_update_utc r, this_update_unix ic),
        (''intermediate_crl_next_update_utc'', rr_intermediate_crl_next_update_utc r, next_update_unix ic)])))))"

text \<open>What is checked of the record once the root is read: the chain, the lists, the key, the blob.\<close>

definition check_record ::
  "('k, 's) x509 \<Rightarrow> ('v, 'z) crypto \<Rightarrow> reg_record \<Rightarrow> bool \<Rightarrow> bytes \<Rightarrow> bytes res" where
  "check_record X C r v2 root_der =
     (let root_sha = hex_lower (sha256 (c_hash C) root_der) in
      if root_sha \<noteq> rr_root_sha256 r then Err (Msg ''root: sha256, record names'' [Txt root_sha, Txt (rr_root_sha256 r)])
      else
      rbind (reg_unhex ''ek_certificate'' (rr_ek_certificate r)) (\<lambda>ek_der.
      rbind (reg_unhex ''intermediate_certificate'' (rr_intermediate_certificate r)) (\<lambda>int_der.
      let when = from_secs (rr_chain_checked_unix r) in
      rbind (chain_verify X (c_hash C) ek_der int_der root_der when) (\<lambda>_.
      rbind (if v2 then check_crls X r ek_der int_der root_der when else Ok ()) (\<lambda>_.
      rbind (reg_unhex ''ak_public'' (rr_ak_public r)) (\<lambda>ak_public.
      rbind (check_ak C ak_public) (\<lambda>name.
      if hex_lower name \<noteq> rr_ak_name r then
        Err (Msg ''ak_name does not match the AK public area'' [Txt (rr_ak_name r), Txt (hex_lower name)])
      else
      rbind (reg_unhex ''credential_blob'' (rr_credential_blob r)) (\<lambda>blob.
      rbind (parse_file blob) (\<lambda>_.
      rbind (reg_unhex ''secret_sha256'' (rr_secret_sha256 r)) (\<lambda>sh.
      if length sh \<noteq> 32 then Err (Msg ''secret_sha256 is not 32 bytes'' [])
      else Ok ak_public))))))))))"

definition verify_report :: "reg_record \<Rightarrow> bool \<Rightarrow> signer option \<Rightarrow> bytes option \<Rightarrow> bytes list" where
  "verify_report r v2 signer emitted =
     (if v2 then
        [lit ''record ok   '' @ rr_device_id r @ lit '' (format 2: chain and CRLs at '' @ rr_chain_checked_utc r
           @ lit '', AK rule, AK name, blob layout)'',
         lit ''not checked: the blob contents (activate on the device), who registered'']
      else
        [lit ''record ok   '' @ rr_device_id r @ lit '' (format 1: chain at '' @ rr_chain_checked_utc r
           @ lit '', AK rule, AK name, blob layout)'',
         lit ''not checked: the blob contents (activate on the device), revocation, who registered''])
     @ (case signer of
          Some s \<Rightarrow>
            [lit ''signed      by '' @ sg_leaf_subject s @ lit '' (serial '' @ sg_leaf_serial s @ lit '')'',
             lit ''            Signing CA '' @ sg_signing_ca_subject s @ lit ''; release root sha256 '' @ sg_root_sha256 s,
             lit ''            signer EKU is the registration purpose; certificates valid now'']
        | None \<Rightarrow> [lit ''unsigned: internal only, not L3''])
     @ (case emitted of None \<Rightarrow> [] | Some p \<Rightarrow> [lit ''AK public area written to '' @ p])"

text \<open>The signature, judged last and at the current time.\<close>

definition verify_signature ::
  "('w, 'h, 'k, 's, 'v, 'z) registrar_env \<Rightarrow> reg_opts \<Rightarrow> bytes \<Rightarrow> ('w, signer option) io" where
  "verify_signature E opts record_bytes =
     (case (reg_opt opts ''sig'', reg_opt opts ''release-root'') of
        (Some p7s, Some root) \<Rightarrow>
          sbind (read_file (re_os E) root) (\<lambda>root_bytes.
          sbind (sres (cert_der (re_x509 E) root_bytes ''release root'')) (\<lambda>root_der.
          sbind (read_file (re_os E) p7s) (\<lambda>p7s_bytes.
          sbind (reg_now E) (\<lambda>when.
          sbind (sres (sig_verify (re_x509 E) (c_hash (re_crypto E)) (re_cms E) record_bytes p7s_bytes root_der when)) (\<lambda>s.
          sret (Some s))))))
      | (None, None) \<Rightarrow> sret None
      | _ \<Rightarrow> sfail (Msg ''--sig and --release-root go together'' []))"

definition reg_verify ::
  "('w, 'h, 'k, 's, 'v, 'z) registrar_env \<Rightarrow> reg_opts \<Rightarrow> ('w, bytes list) io" where
  "reg_verify E opts =
     sbind (reg_read E opts ''record'') (\<lambda>record_bytes.
     sbind (sres (ok_or (Msg ''record'' []) (re_record_of E record_bytes))) (\<lambda>r.
     sbind (sres (check_format r)) (\<lambda>v2.
     sbind (sres (reg_validate_id (rr_device_id r))) (\<lambda>_.
     sbind (reg_read E opts ''root'') (\<lambda>root_der.
     sbind (sres (check_record (re_x509 E) (re_crypto E) r v2 root_der)) (\<lambda>ak_public.
     sbind (verify_signature E opts record_bytes) (\<lambda>signer.
     case reg_opt opts ''emit-ak'' of
       None \<Rightarrow> sret (verify_report r v2 signer None)
     | Some p \<Rightarrow> sbind (write_new E p ak_public 420) (\<lambda>_. sret (verify_report r v2 signer (Some p))))))))))"

section \<open>The tool\<close>

text \<open>
  The exit status, 0, 1 for an error, 2 for another command, and the lines printed by a
  command that succeeds. The lines \<open>verify\<close> has printed when the write of \<open>--emit-ak\<close> then fails
  are left out.
\<close>

definition reg_run ::
  "('w, bytes list) io \<Rightarrow> 'w \<Rightarrow> (bytes list option \<times> nat) \<times> 'w" where
  "reg_run c w = (case c w of (Inr out, w') \<Rightarrow> ((Some out, 0), w') | (Inl e, w') \<Rightarrow> ((None, 1), w'))"

definition reg_main ::
  "('w, 'h, 'k, 's, 'v, 'z) registrar_env \<Rightarrow> bytes list \<Rightarrow> 'w \<Rightarrow> (bytes list option \<times> nat) \<times> 'w" where
  "reg_main E args =
     (case args of
        c # a \<Rightarrow>
          if c = lit ''begin'' then reg_run (reg_begin E (reg_options a))
          else if c = lit ''complete'' then reg_run (reg_complete E (reg_options a))
          else if c = lit ''verify'' then reg_run (reg_verify E (reg_options a))
          else Pair (None, 2)
      | [] \<Rightarrow> Pair (None, 2))"

end
