(* ===== verification/RegRecord.thy ===== *)
theory RegRecord
  imports Registrar
begin

text \<open>
  What the registrar's \<open>verify\<close> accepts, as a specification of the record, and what each of
  the registrar's small parts gives.
\<close>

section \<open>Text and answers\<close>

text \<open>A hexadecimal text, in either case, of the bytes.\<close>

definition hex_text :: "bytes \<Rightarrow> bytes \<Rightarrow> bool" where
  "hex_text s b \<longleftrightarrow> list_all is_hexdigit s \<and> map to_lower s = hex_lower b"

lemma hex_decode_iff: "hex_decode s = Ok b \<longleftrightarrow> hex_text s b"
  by (simp add: hex_decode_def hex_decode_with_Ok hex_text_def)

lemma hex_text_lower [simp]: "hex_text (hex_lower b) b"
  by (simp add: hex_decode_iff [symmetric] hex_decode_def hex_decode_with_lower)

lemma reg_unhex_iff: "reg_unhex f s = Ok b \<longleftrightarrow> hex_text s b"
  by (simp add: reg_unhex_def ctx_Ok hex_decode_iff)

lemma need_iff: "need f v = Ok b \<longleftrightarrow> v = Some b"
  by (simp add: need_def ok_or_Ok)

lemma or_zero: "a OR b = 0 \<longleftrightarrow> a = 0 \<and> b = 0" for a b :: byte
  by (rule or_eq_0_iff)

lemma xor_zero: "a XOR b = 0 \<longleftrightarrow> a = b" for a b :: byte
  by (metis xor.assoc xor.left_neutral xor.right_neutral xor_self_eq)

lemma ct_eq_fold:
  "length a = length b \<Longrightarrow> foldl (\<lambda>acc p. acc OR (fst p XOR snd p)) k (zip a b) = (0 :: byte) \<longleftrightarrow> k = 0 \<and> a = b"
proof (induction a b arbitrary: k rule: list_induct2)
  case (Cons x xs y ys)
  then show ?case by (simp add: or_zero xor_zero)
qed simp

lemma ct_eq_iff: "ct_eq a b \<longleftrightarrow> a = b"
  using ct_eq_fold [of a b 0] by (auto simp: ct_eq_def)

lemma reg_validate_id_iff: "reg_validate_id d = Ok u \<longleftrightarrow> valid_device_id d"
  by (auto simp: reg_validate_id_def valid_device_id_def linorder_not_less)

section \<open>The attestation key\<close>

text \<open>The public area of an attestation key and its name.\<close>

definition named_ak :: "('v, 'z) crypto \<Rightarrow> bytes \<Rightarrow> bytes \<Rightarrow> bool" where
  "named_ak C area name \<longleftrightarrow> (\<exists>p. ecc_parse_tpm2b area = Ok p \<and> ak_rule p
     \<and> c_vk_from_point C (pad_left 32 (e_x p)) (pad_left 32 (e_y p)) \<noteq> None
     \<and> name = be16 TPM_ALG_SHA256 @ sha256 (c_hash C) (e_tpmt p))"

lemma check_ak_iff: "check_ak C area = Ok name \<longleftrightarrow> named_ak C area name"
proof -
  have ak: "is_ok (ak_from_tpm2b_public C area) \<longleftrightarrow> (\<exists>p. ecc_parse_tpm2b area = Ok p \<and> ak_rule p
      \<and> c_vk_from_point C (pad_left 32 (e_x p)) (pad_left 32 (e_y p)) \<noteq> None)" (is "?l \<longleftrightarrow> ?r")
  proof
    assume ?r
    then obtain p v where "ecc_parse_tpm2b area = Ok p" "ak_rule p"
      "c_vk_from_point C (pad_left 32 (e_x p)) (pad_left 32 (e_y p)) = Some v" by blast
    then have "ak_from_tpm2b_public C area =
        Ok \<lparr>ak_vk = v, ak_name = be16 TPM_ALG_SHA256 @ sha256 (c_hash C) (e_tpmt p)\<rparr>"
      unfolding ak_from_tpm2b_iff by simp
    then show ?l by simp
  qed (auto simp: is_ok_iff ak_from_tpm2b_iff)
  have "check_ak C area = Ok name \<longleftrightarrow> is_ok (ak_from_tpm2b_public C area)
      \<and> (\<exists>p. ecc_parse_tpm2b area = Ok p \<and> ecc_name (c_hash C) p = Ok name)"
    by (simp add: check_ak_def rbind_Ok ctx_Ok is_ok_iff)
  also have "\<dots> \<longleftrightarrow> named_ak C area name"
    unfolding ak named_ak_def ecc_name_def if_Err_Ok by (auto simp: ak_rule_def)
  finally show ?thesis .
qed

section \<open>The record\<close>

definition revocation_holds ::
  "('k, 's) x509 \<Rightarrow> reg_record \<Rightarrow> cert \<Rightarrow> cert \<Rightarrow> cert \<Rightarrow> duration \<Rightarrow> bool" where
  "revocation_holds X r ek ica root when \<longleftrightarrow>
     (\<exists>eh ek_crl ih int_crl (e :: crl_checked) (i :: crl_checked) ica_key root_key.
        rr_ek_crl r = Some eh \<and> hex_text eh ek_crl \<and> rr_intermediate_crl r = Some ih \<and> hex_text ih int_crl
        \<and> key_of X ica = Some ica_key \<and> key_of X root = Some root_key
        \<and> not_revoked X ek_crl ek ica ica_key when (this_update_unix e) (next_update_unix e)
        \<and> not_revoked X int_crl ica root root_key when (this_update_unix i) (next_update_unix i)
        \<and> rr_ek_crl_this_update_utc r = Some (utc (this_update_unix e))
        \<and> rr_ek_crl_next_update_utc r = Some (utc (next_update_unix e))
        \<and> rr_intermediate_crl_this_update_utc r = Some (utc (this_update_unix i))
        \<and> rr_intermediate_crl_next_update_utc r = Some (utc (next_update_unix i)))"

definition record_holds ::
  "('k, 's) x509 \<Rightarrow> ('v, 'z) crypto \<Rightarrow> reg_record \<Rightarrow> bool \<Rightarrow> bytes \<Rightarrow> bytes \<Rightarrow> bool" where
  "record_holds X C r v2 root_der area \<longleftrightarrow>
     rr_root_sha256 r = hex_lower (sha256 (c_hash C) root_der)
     \<and> (\<exists>ek_der int_der ek ica root ek_key.
          hex_text (rr_ek_certificate r) ek_der \<and> hex_text (rr_intermediate_certificate r) int_der
          \<and> x_cert X ek_der = Some ek \<and> x_cert X int_der = Some ica \<and> x_cert X root_der = Some root
          \<and> chain_holds X (from_secs (rr_chain_checked_unix r)) ek ica root ek_key
          \<and> (v2 \<longrightarrow> revocation_holds X r ek ica root (from_secs (rr_chain_checked_unix r))))
     \<and> hex_text (rr_ak_public r) area \<and> (\<exists>name. named_ak C area name \<and> rr_ak_name r = hex_lower name)
     \<and> (\<exists>c. wf_credential c \<and> hex_text (rr_credential_blob r)
            (credential_bytes (cf_integrity c) (cf_enc_identity c) (cf_enc_seed c)))
     \<and> (\<exists>h. hex_text (rr_secret_sha256 r) h \<and> length h = 32)"

text \<open>The fields a format demands.\<close>

definition format_holds :: "reg_record \<Rightarrow> bool \<Rightarrow> bool" where
  "format_holds r v2 \<longleftrightarrow>
     (if v2 then rr_format r = RECORD_FORMAT \<and> rr_signed r = None \<and> rr_revocation_checked r
      else rr_format r = RECORD_FORMAT_V1 \<and> rr_signed r = Some False \<and> \<not> rr_revocation_checked r)"

lemma formats_differ: "RECORD_FORMAT \<noteq> RECORD_FORMAT_V1"
  by (simp add: RECORD_FORMAT_def RECORD_FORMAT_V1_def lit_def)

lemma check_format_iff: "check_format r = Ok v2 \<longleftrightarrow> format_holds r v2"
  using formats_differ by (auto simp: check_format_def format_holds_def)

lemma check_utcs_iff: "check_utcs xs = Ok u \<longleftrightarrow> list_all (\<lambda>(f, got, want). got = Some (utc want)) xs"
  by (induction xs rule: check_utcs.induct) auto

lemma check_crls_iff:
  assumes "x_cert X ek_der = Some ek" "x_cert X int_der = Some ica" "x_cert X root_der = Some root"
  shows "check_crls X r ek_der int_der root_der when = Ok u \<longleftrightarrow> revocation_holds X r ek ica root when"
  unfolding check_crls_def revocation_holds_def rbind_Ok need_iff reg_unhex_iff split_paired_Ex prod.case
    crl_check_chain_iff check_utcs_iff assms option.inject list.pred_inject simp_thms
  by (simp only: list.pred_inject simp_thms ex_simps) (simp only: ex_simps [symmetric] conj_assoc)


lemma guarded: "(\<exists>u. (if v then m else Ok ()) = Ok u) \<longleftrightarrow> (v \<longrightarrow> m = Ok ())"
  by auto

lemma check_record_iff: "check_record X C r v2 root_der = Ok area \<longleftrightarrow> record_holds X C r v2 root_der area"
proof -
  have "check_record X C r v2 root_der = Ok area \<longleftrightarrow>
     hex_lower (sha256 (c_hash C) root_der) = rr_root_sha256 r
     \<and> (\<exists>ek_der. hex_text (rr_ek_certificate r) ek_der
        \<and> (\<exists>int_der. hex_text (rr_intermediate_certificate r) int_der
          \<and> (\<exists>ch. chain_verify X (c_hash C) ek_der int_der root_der (from_secs (rr_chain_checked_unix r)) = Ok ch)
          \<and> (v2 \<longrightarrow> check_crls X r ek_der int_der root_der (from_secs (rr_chain_checked_unix r)) = Ok ())))
     \<and> hex_text (rr_ak_public r) area \<and> (\<exists>name. named_ak C area name \<and> hex_lower name = rr_ak_name r)
     \<and> (\<exists>blob. hex_text (rr_credential_blob r) blob \<and> (\<exists>c. parse_file blob = Ok c))
     \<and> (\<exists>h. hex_text (rr_secret_sha256 r) h \<and> length h = 32)"
    unfolding check_record_def Let_def rbind_Ok if_Err_Ok reg_unhex_iff check_ak_iff sum.inject not_not
    by (simp only: ex_simps guarded) blast
  also have "\<dots> \<longleftrightarrow> record_holds X C r v2 root_der area"
  proof -
    have blob: "(\<exists>blob. hex_text s blob \<and> (\<exists>c. parse_file blob = Ok c)) \<longleftrightarrow>
        (\<exists>c. wf_credential c \<and> hex_text s (credential_bytes (cf_integrity c) (cf_enc_identity c) (cf_enc_seed c)))" for s
      unfolding parse_file_iff by blast
    have links: "(\<exists>ch. chain_verify X H ek_der int_der root_der when = Ok ch) \<and> (v2 \<longrightarrow>
          check_crls X r ek_der int_der root_der when = Ok ()) \<longleftrightarrow>
        (\<exists>ek ica root ek_key. x_cert X ek_der = Some ek \<and> x_cert X int_der = Some ica
          \<and> x_cert X root_der = Some root \<and> chain_holds X when ek ica root ek_key
          \<and> (v2 \<longrightarrow> revocation_holds X r ek ica root when))" for H ek_der int_der "when"
      unfolding chain_verify_iff using check_crls_iff [of X ek_der _ int_der _ root_der]
      by (metis chain.select_convs(1,2))
    show ?thesis
      unfolding record_holds_def
      by (simp only: blob links ex_simps eq_commute [of "rr_ak_name r"] eq_commute [of "rr_root_sha256 r"])
  qed
  finally show ?thesis .
qed

end
