(* ===== verification/RegProps.thy ===== *)
theory RegProps
  imports RegRecord
begin

text \<open>
  The properties of the registrar's parts: the text of an instant is the calendar's, the
  derived keys, the credential that only the named key opens, and the signature of a record.
\<close>

section \<open>The text of an instant\<close>

lemma year_bound:
  assumes "day_number y m d < 3652425"
  shows "y < 10000"
proof (rule ccontr)
  assume "\<not> y < 10000"
  then have "(\<Sum>i<10000. year_days i) \<le> (\<Sum>i<y. year_days i)"
    by (intro sum_mono2) auto
  moreover have "(\<Sum>i<10000. year_days i) = 3652425"
    using years_sum [of 10000] by simp
  ultimately show False using assms by (simp add: day_number_def)
qed

lemma time_small: "n mod 86400 div 3600 < (100 :: nat)" "n mod 86400 mod 3600 div 60 < (100 :: nat)"
  "n mod 86400 mod 60 < (100 :: nat)"
proof -
  have "n mod 86400 < 86400" "n mod 86400 mod 3600 < 3600" "n mod 86400 mod 60 < 60" by simp_all
  then show "n mod 86400 div 3600 < (100 :: nat)" "n mod 86400 mod 3600 div 60 < (100 :: nat)"
    "n mod 86400 mod 60 < (100 :: nat)" by linarith+
qed

lemma length_dec_small: "n < 10 ^ Suc k \<Longrightarrow> length (dec n) \<le> Suc k"
proof (induction k arbitrary: n)
  case 0
  then show ?case by (subst dec.simps) simp
next
  case (Suc k)
  then have "n div 10 < 10 ^ Suc k" by simp
  from Suc.IH [OF this] show ?case by (subst dec.simps) simp
qed

text \<open>
  C36. What \<open>utc\<close> writes for a number of seconds is the date of the Gregorian calendar on
  which that day falls, counted by the lengths of years and months, with the time of the day;
  before the year 10000 it is 20 characters long.
\<close>

theorem utc_calendar:
  "\<exists>y m d. valid_date y m d \<and> day_number y m d = n div 86400 + day_number 1970 1 1
     \<and> utc n = dec_pad 4 y @ lit ''-'' @ dec_pad 2 m @ lit ''-'' @ dec_pad 2 d @ lit ''T''
         @ dec_pad 2 (n mod 86400 div 3600) @ lit '':'' @ dec_pad 2 (n mod 86400 mod 3600 div 60) @ lit '':''
         @ dec_pad 2 (n mod 86400 mod 60) @ lit ''Z''
     \<and> (n \<ge> day_number 10000 1 1 * 86400 - day_number 1970 1 1 * 86400 \<or> length (utc n) = 20)"
proof -
  have unix: "day_number 1970 1 1 = 719528" "day_number 10000 1 1 = 3652425"
    using years_sum [of 1970] years_sum [of 10000] by (simp_all add: day_number_def)
  obtain y m d where v: "valid_date y m d" and dn: "day_number y m d = n div 86400 + 719528"
    and t: "utc n = dec_pad 4 y @ lit ''-'' @ dec_pad 2 m @ lit ''-'' @ dec_pad 2 d @ lit ''T''
       @ dec_pad 2 (n mod 86400 div 3600) @ lit '':'' @ dec_pad 2 (n mod 86400 mod 3600 div 60) @ lit '':''
       @ dec_pad 2 (n mod 86400 mod 60) @ lit ''Z''"
    by (rule utc_fields)
  have "length (utc n) = 20" if "n < 3652425 * 86400 - 719528 * 86400"
  proof -
    from that have "y < 10000" using dn by (intro year_bound [of y m d]) simp
    then have y4: "length (dec_pad 4 y) = 4" using length_dec_small [of y 3] by (intro dec_pad_width) simp
    have two: "k < 100 \<Longrightarrow> length (dec_pad 2 k) = 2" for k
      by (intro dec_pad_width length_dec_2)
    show ?thesis
      unfolding t length_append y4 two [OF time_small(1)] two [OF time_small(2)] two [OF time_small(3)]
        two [OF conjunct1 [OF valid_date_small [OF v]]] two [OF conjunct2 [OF valid_date_small [OF v]]]
      by (simp add: lit_def)
  qed
  then have "3652425 * 86400 - 719528 * 86400 \<le> n \<or> length (utc n) = 20" by linarith
  with v dn t show ?thesis unfolding unix by blast
qed

section \<open>The derived keys\<close>

lemma nth_blocks:
  assumes "\<And>i. length (f i) = 32" "j < 32 * n"
  shows "concat (map f [1..<Suc n]) ! j = f (Suc (j div 32)) ! (j mod 32)"
  using assms(2)
proof (induction n)
  case (Suc n)
  have l: "length (concat (map f [1..<Suc n])) = 32 * n"
    using assms(1) by (simp add: length_concat comp_def sum_list_triv del: upt_Suc)
  have e: "concat (map f [1..<Suc (Suc n)]) = concat (map f [1..<Suc n]) @ f (Suc n)"
    by simp
  show ?case
  proof (cases "j < 32 * n")
    case True
    then show ?thesis unfolding e using Suc.IH l by (simp add: nth_append del: upt_Suc)
  next
    case False
    then have d: "j div 32 = n" using Suc.prems by simp
    moreover from d have "j mod 32 = j - 32 * n" by (simp add: minus_mult_div_eq_mod [symmetric])
    ultimately have "j div 32 = n" "j mod 32 = j - 32 * n" .
    then show ?thesis unfolding e using False l by (simp add: nth_append del: upt_Suc)
  qed
qed simp

text \<open>
  C37. A derived key has exactly the bytes asked for, rounded up to whole bytes, and byte \<open>j\<close> of
  it is byte \<open>j mod 32\<close> of the HMAC whose counter is \<open>j div 32 + 1\<close>; the 32-bit counter never
  wraps, whatever number of bits is asked for.
\<close>

theorem kdfa_bounds:
  assumes "j < (unat bits + 7) div 8"
  shows "length (kdfa M key label u v bits) = (unat bits + 7) div 8
    \<and> kdfa M key label u v bits ! j =
        hmac_sha256 M key (be32 (of_nat (j div 32 + 1)) @ label @ [0] @ u @ v @ be32 bits) ! (j mod 32)
    \<and> unat (of_nat (j div 32 + 1) :: u32) = j div 32 + 1"
proof -
  have b: "unat bits < 2 ^ 32" using unat_bound [of bits] by simp
  have "j div 32 + 1 < 2 ^ 32" using assms b by simp
  then have w: "unat (of_nat (j div 32 + 1) :: u32) = j div 32 + 1"
    by (simp only: unat_of_nat) simp
  have "kdfa M key label u v bits ! j = kdfa_block M key label u v bits (Suc (j div 32)) ! (j mod 32)"
    using assms unfolding kdfa_blocks
    by (subst nth_take, assumption) (rule nth_blocks; simp)
  then show ?thesis using w by (simp add: length_kdfa kdfa_block_def del: of_nat_add)
qed

definition demo_cred :: "('w, 'k) cred_crypto" where
  "demo_cred = \<lparr>m_hmac = (\<lambda>k m. of_nat (length m)), m_cfb = (\<lambda>k iv x. rev x),
     m_random = (\<lambda>w. (\<lambda>_. 7, w)), m_oaep = (\<lambda>k l s w. (if length s \<le> 190 then Ok (be32 0 @ s) else Err (Msg ''message too long'' []), w))\<rparr>"

lemma kdfa_bounds_witness:
  "unat (of_nat (40 div 32 + 1) :: u32) = 2
    \<and> length (kdfa (demo_cred :: (unit, byte) cred_crypto) [1] [2] [3] [] 384) = 48"
  using kdfa_bounds [of 40 384 "demo_cred :: (unit, byte) cred_crypto" "[1]" "[2]" "[3]" "[]"] by simp

section \<open>The credential\<close>

lemma drop_ws_graphic: "list_all is_graphic xs \<Longrightarrow> drop_ws (xs @ [10]) = xs"
proof (induction xs)
  case Nil
  show ?case by (simp add: drop_ws.simps)
next
  case (Cons x xs)
  then have "ws_len (x # xs @ [10]) = 0" by (intro ws_len_graphic) simp
  with Cons show ?case by (subst append_Cons) (subst drop_ws.simps, simp)
qed

text \<open>The line \<open>tpm2_activatecredential\<close> prints is an answer.\<close>

lemma answer_accepted:
  assumes "length secret = SECRET_LEN"
  shows "parse_answer (lit ''certinfodata:'' @ hex_lower secret @ [10]) = Ok secret"
proof -
  have "list_all is_graphic (lit ''certinfodata:'')" by (simp add: lit_def is_graphic_def)
  then have "drop_ws ((lit ''certinfodata:'' @ hex_lower secret) @ [10]) = lit ''certinfodata:'' @ hex_lower secret"
    using hex_lower_graphic [of secret] by (intro drop_ws_graphic) simp
  moreover have "strip_prefix (lit ''certinfodata:'') (lit ''certinfodata:'' @ hex_lower secret) = Some (hex_lower secret)"
    by (simp add: strip_prefix_def starts_with_def)
  ultimately show ?thesis
    using assms by (simp add: parse_answer_def Let_def hex_decode_def hex_decode_with_lower)
qed

lemma make_credential_Ok:
  assumes "make_credential M ek name secret w = (Ok blob, w')"
  obtains seed u enc where "m_oaep M ek LABEL_IDENTITY seed u = (Ok enc, w')" "length seed = SEED_LEN"
    "blob = credential_bytes (snd (protect M seed name secret)) (fst (protect M seed name secret)) enc"
proof -
  from assms obtain seed u where s: "fill_bytes M SEED_LEN w = (Ok seed, u)"
    and m: "make_credential_with_seed M ek name secret seed u = (Ok blob, w')"
    unfolding make_credential_def sbind_Ok by blast
  have l: "length seed = SEED_LEN" using s by (auto simp: fill_bytes_def split: prod.splits)
  from m obtain enc where e: "m_oaep M ek LABEL_IDENTITY seed u = (Ok enc, w')"
    and b: "blob = credential_bytes (snd (protect M seed name secret)) (fst (protect M seed name secret)) enc"
    unfolding make_credential_with_seed_def sbind_Ok smap_err_Ok split_beta by auto
  show thesis by (rule that [OF e l b])
qed

lemma protect_parts:
  "snd (protect M seed name secret) = hmac_sha256 M (kdfa M seed (lit ''INTEGRITY'') [] [] 256)
     (fst (protect M seed name secret) @ name)"
  "fst (protect M seed name secret) =
     m_cfb M (kdfa M seed (lit ''STORAGE'') name [] 128) (replicate 16 0) (cred_tpm2b secret)"
  by (simp_all add: protect_def Let_def)

lemma made_parses:
  assumes "length secret = SECRET_LEN" "\<And>k iv x. length (m_cfb M k iv x) = length x" "length enc < 2 ^ 16"
  shows "parse_file (credential_bytes (snd (protect M seed name secret)) (fst (protect M seed name secret)) enc) =
    Ok \<lparr>cf_integrity = snd (protect M seed name secret), cf_enc_identity = fst (protect M seed name secret),
        cf_enc_seed = enc\<rparr>"
proof -
  have "length (fst (protect M seed name secret)) = 34" "length (snd (protect M seed name secret)) = 32"
    using assms(1,2) by (simp_all add: protect_parts cred_tpm2b_def)
  then show ?thesis using assms(3) unfolding parse_file_iff by (simp add: wf_credential_def)
qed

lemma hmac_equal: "hmac_sha256 M k x = hmac_sha256 M k y \<longleftrightarrow> m_hmac M k x = m_hmac M k y"
  using sha256_eq_iff [of "m_hmac M k" x y] by (simp add: sha256_def hmac_sha256_def)

text \<open>
  C11. What holds the EK (the code's own software model of \<open>TPM2_ActivateCredential\<close>) gets from a
  credential, under the name it was made for, exactly the secret, and the line the tool prints is
  the answer \<open>complete\<close> wants. It gets something under another name only if that name, after the
  credential's encrypted identity, has the HMAC of the right name after it, under the integrity
  key of the seed the credential carries.
\<close>

theorem credential_opens:
  assumes "make_credential M ek name secret w = (Ok blob, w')" "length secret = SECRET_LEN"
    "\<And>l s u c u'. m_oaep M ek l s u = (Ok c, u') \<Longrightarrow> oaep_decrypt l c = Some s \<and> length c < 2 ^ 16"
    "\<And>k iv x. cfb_decrypt k iv (m_cfb M k iv x) = x \<and> length (m_cfb M k iv x) = length x"
  shows "activate_in_software M oaep_decrypt cfb_decrypt name blob = Ok secret
    \<and> parse_answer (lit ''certinfodata:'' @ hex_lower secret @ [10]) = Ok secret
    \<and> (\<exists>c seed. parse_file blob = Ok c \<and> oaep_decrypt LABEL_IDENTITY (cf_enc_seed c) = Some seed
        \<and> (\<forall>other. is_ok (activate_in_software M oaep_decrypt cfb_decrypt other blob) \<longrightarrow>
             m_hmac M (kdfa M seed (lit ''INTEGRITY'') [] [] 256) (cf_enc_identity c @ other)
               = m_hmac M (kdfa M seed (lit ''INTEGRITY'') [] [] 256) (cf_enc_identity c @ name)))"
proof -
  obtain seed u enc where o: "m_oaep M ek LABEL_IDENTITY seed u = (Ok enc, w')"
    and b: "blob = credential_bytes (snd (protect M seed name secret)) (fst (protect M seed name secret)) enc"
    by (rule make_credential_Ok [OF assms(1)])
  define id where "id = fst (protect M seed name secret)"
  define mac where "mac = (\<lambda>n. hmac_sha256 M (kdfa M seed (lit ''INTEGRITY'') [] [] 256) (id @ n))"
  have p: "parse_file blob = Ok \<lparr>cf_integrity = mac name, cf_enc_identity = id, cf_enc_seed = enc\<rparr>"
    using made_parses [of secret M enc seed name] assms(2,4) assms(3) [OF o]
    by (simp add: b id_def mac_def protect_parts(1))
  have d: "oaep_decrypt LABEL_IDENTITY enc = Some seed" using assms(3) [OF o] by blast
  have dec: "cfb_decrypt (kdfa M seed (lit ''STORAGE'') name [] 128) (replicate 16 0) id = be16 32 @ secret"
    using assms(2,4) by (simp add: id_def protect_parts(2) cred_tpm2b_def len16_def)
  have "[(be16 32 @ secret) ! 0, (be16 32 @ secret) ! 1] = be16 32"
    using take_2_nth [of "be16 32"] by (simp add: nth_append)
  then have "activate_in_software M oaep_decrypt cfb_decrypt name blob = Ok secret"
    using assms(2) by (simp add: activate_in_software_def p d Let_def dec mac_def)
  moreover have "\<exists>c seed. parse_file blob = Ok c \<and> oaep_decrypt LABEL_IDENTITY (cf_enc_seed c) = Some seed
      \<and> (\<forall>other. is_ok (activate_in_software M oaep_decrypt cfb_decrypt other blob) \<longrightarrow>
           m_hmac M (kdfa M seed (lit ''INTEGRITY'') [] [] 256) (cf_enc_identity c @ other)
             = m_hmac M (kdfa M seed (lit ''INTEGRITY'') [] [] 256) (cf_enc_identity c @ name))"
  proof (intro exI conjI allI impI)
    show "parse_file blob = Ok \<lparr>cf_integrity = mac name, cf_enc_identity = id, cf_enc_seed = enc\<rparr>" by (rule p)
    show "oaep_decrypt LABEL_IDENTITY (cf_enc_seed \<lparr>cf_integrity = mac name, cf_enc_identity = id, cf_enc_seed = enc\<rparr>)
        = Some seed"
      using d by simp
    fix other
    assume "is_ok (activate_in_software M oaep_decrypt cfb_decrypt other blob)"
    then have "mac other = mac name"
      by (auto simp: activate_in_software_def p d mac_def is_ok_iff split: if_splits)
    then show "m_hmac M (kdfa M seed (lit ''INTEGRITY'') [] [] 256)
          (cf_enc_identity \<lparr>cf_integrity = mac name, cf_enc_identity = id, cf_enc_seed = enc\<rparr> @ other)
        = m_hmac M (kdfa M seed (lit ''INTEGRITY'') [] [] 256)
          (cf_enc_identity \<lparr>cf_integrity = mac name, cf_enc_identity = id, cf_enc_seed = enc\<rparr> @ name)"
      by (simp add: mac_def hmac_equal)
  qed
  ultimately show ?thesis using answer_accepted [OF assms(2)] by blast
qed

lemma demo_oaep:
  "m_oaep demo_cred ek l s u = (Ok c, u') \<Longrightarrow> Some (drop 4 c) = Some s \<and> length c < 2 ^ 16"
  by (auto simp: demo_cred_def split: if_splits)

lemma credential_opens_witness:
  "\<exists>blob. make_credential (demo_cred :: (nat, byte) cred_crypto) 5 [0, 0x0B, 9] (replicate 32 7) (3 :: nat) = (Ok blob, 3)
     \<and> activate_in_software (demo_cred :: (nat, byte) cred_crypto) (\<lambda>l c. Some (drop 4 c)) (\<lambda>k iv. rev) [0, 0x0B, 9] blob
        = Ok (replicate 32 7)"
proof -
  obtain blob where b: "make_credential (demo_cred :: (nat, byte) cred_crypto) 5 [0, 0x0B, 9] (replicate 32 7) (3 :: nat) = (Ok blob, 3)"
    by (simp add: make_credential_def make_credential_with_seed_def fill_bytes_def sbind_def smap_err_def
        demo_cred_def split_beta)
  have cfb: "(\<lambda>k iv. rev) k iv (m_cfb (demo_cred :: (nat, byte) cred_crypto) k iv x) = x
      \<and> length (m_cfb (demo_cred :: (nat, byte) cred_crypto) k iv x) = length x" for k iv :: bytes and x
    by (simp add: demo_cred_def)
  have oaep: "(\<lambda>l c. Some (drop 4 c)) l c = Some s \<and> length c < 2 ^ 16"
    if "m_oaep (demo_cred :: (nat, byte) cred_crypto) 5 l s u = (Ok c, u')" for l s c :: bytes and u u'
    using demo_oaep [OF that] .
  show ?thesis
    by (intro exI conjI, rule b, rule conjunct1, rule credential_opens [OF b _ oaep cfb]) simp_all
qed

section \<open>The signature\<close>

text \<open>
  C18. The signature of a record is accepted exactly if the container holds one detached RSA
  signature over these bytes, by a certificate with exactly the registration purpose as a
  critical extended key usage, issued by a CA certificate of the container, which the release
  root issued; all three are valid now and signed with SHA-256. The signer reported is that
  certificate's.
\<close>

theorem signature_exact:
  "sig_verify X H cms record_bytes p7s root_der when = Ok s \<longleftrightarrow>
   (\<exists>root leaf sca. x_cert X root_der = Some root
      \<and> record_signed X cms record_bytes p7s root when leaf sca
      \<and> s = signer_of X H root_der leaf sca)"
  by (rule sig_verify_iff)

end
