(* ===== verification/RegDemo.thy ===== *)
theory RegDemo
  imports RegProps Demo
begin

text \<open>
  An instance of the registrar's parameters: a store of files in memory, three certificates
  that sign each other by the byte of their issuer's key, two revocation lists, and codecs of
  one registration. The witnesses of the registrar's properties run on it.
\<close>

section \<open>Certificates and lists\<close>

definition rdemo_ext :: "bytes \<Rightarrow> bool \<Rightarrow> bytes \<Rightarrow> extension" where
  "rdemo_ext i c v = \<lparr>xe_id = i, xe_critical = c, xe_value = v\<rparr>"

definition rdemo_cert :: "byte \<Rightarrow> byte \<Rightarrow> extension list \<Rightarrow> cert" where
  "rdemo_cert n issuer exts =
     \<lparr>c_outer_alg = SHA256_WITH_RSA, c_inner_alg = SHA256_WITH_RSA, c_tbs = Ok [n], c_signature = Some [issuer],
      c_issuer = [issuer], c_subject = [n], c_not_before = 0, c_not_after = 2000000000, c_serial = [n],
      c_spki = Ok [n], c_extensions = exts\<rparr>"

definition rdemo_ca :: "extension list" where
  "rdemo_ca = [rdemo_ext EXT_BASIC_CONSTRAINTS True [1], rdemo_ext EXT_KEY_USAGE True [6]]"

definition rdemo_crl :: "byte \<Rightarrow> crl" where
  "rdemo_crl issuer =
     \<lparr>l_outer_alg = SHA256_WITH_RSA, l_inner_alg = SHA256_WITH_RSA, l_tbs = Ok [issuer, 9],
      l_signature = Some [issuer], l_issuer = [issuer], l_this_update = 0, l_next_update = Some 2000000000,
      l_extensions = [], l_revoked = [[99]]\<rparr>"

definition rdemo_x509 :: "(byte, bytes) x509" where
  "rdemo_x509 =
     \<lparr>x_cert = (\<lambda>der.
        if der = [1] then Some (rdemo_cert 1 2 [rdemo_ext EXT_EXT_KEY_USAGE False [0]])
        else if der = [2] then Some (rdemo_cert 2 3 rdemo_ca)
        else if der = [3] then Some (rdemo_cert 3 3 rdemo_ca) else None),
      x_cert_pem = (\<lambda>_. None),
      x_crl = (\<lambda>der. if der = [4] then Some (rdemo_crl 2) else if der = [5] then Some (rdemo_crl 3) else None),
      x_name_der = Ok, x_name_text = (\<lambda>n. n), x_basic_ca = (\<lambda>v. Some (v = [1])),
      x_key_usage = (\<lambda>_. Some [KeyCertSign, CRLSign]), x_ext_key_usage = (\<lambda>_. Some [TCG_KP_EK_CERTIFICATE]),
      x_rsa_key = (\<lambda>k. if k = [] then None else Some (hd k)), x_rsa_size = (\<lambda>_. 256),
      x_signature = Some, x_verify = (\<lambda>k m s. s = [k])\<rparr>"

abbreviation rdemo_ek :: cert where "rdemo_ek \<equiv> rdemo_cert 1 2 [rdemo_ext EXT_EXT_KEY_USAGE False [0]]"
abbreviation rdemo_int :: cert where "rdemo_int \<equiv> rdemo_cert 2 3 rdemo_ca"
abbreviation rdemo_root :: cert where "rdemo_root \<equiv> rdemo_cert 3 3 rdemo_ca"

lemma rdemo_certs [simp]:
  "x_cert rdemo_x509 [1] = Some rdemo_ek" "x_cert rdemo_x509 [2] = Some rdemo_int"
  "x_cert rdemo_x509 [3] = Some rdemo_root" "key_of rdemo_x509 (rdemo_cert n i xs) = Some n"
  by (simp_all add: rdemo_x509_def key_of_def rdemo_cert_def)

lemma rdemo_signed:
  "signed_with rdemo_x509 i (c_tbs (rdemo_cert n i xs)) (c_signature (rdemo_cert n i xs))"
  "signed_with rdemo_x509 i (l_tbs (rdemo_crl i)) (l_signature (rdemo_crl i))"
  by (simp_all add: signed_with_def rdemo_x509_def rdemo_cert_def rdemo_crl_def)

lemma rdemo_link: "t \<le> from_secs 2000000000 \<Longrightarrow> link rdemo_x509 t (rdemo_cert n i xs) (rdemo_cert i j ys) i"
  using rdemo_signed(1) [of i n xs] unfolding link_def
  by (simp add: valid_at_def issued_by_def) (simp add: rdemo_cert_def rdemo_x509_def from_secs_def)

lemma rdemo_is_ca: "is_ca rdemo_x509 (rdemo_cert n i rdemo_ca)" "has_usage CRLSign (usage_of rdemo_x509 (rdemo_cert n i rdemo_ca))"
  using ext_names
  by (auto simp: is_ca_def exts_ok_def basic_of_def usage_of_def last_read_def ext_values_def rdemo_cert_def
      rdemo_ca_def rdemo_ext_def rdemo_x509_def UNDERSTOOD_CRITICAL_def has_usage_def)

lemma rdemo_is_leaf: "is_ek_leaf rdemo_x509 rdemo_ek"
  using ext_names
  by (auto simp: is_ek_leaf_def exts_ok_def basic_of_def eku_of_def last_read_def ext_values_def rdemo_cert_def
      rdemo_ext_def rdemo_x509_def)

lemma rdemo_chain:
  assumes "t \<le> from_secs 2000000000"
  shows "chain_verify rdemo_x509 H [1] [2] [3] t = Ok \<lparr>ch_ek_public = 1, ch_root_sha256 = sha256 H [3]\<rparr>"
proof -
  have "x_rsa_size rdemo_x509 1 = 256" by (simp add: rdemo_x509_def)
  then have "chain_holds rdemo_x509 t rdemo_ek rdemo_int rdemo_root 1"
    unfolding chain_holds_def using rdemo_link [OF assms] rdemo_is_ca rdemo_is_leaf
    by (intro conjI exI [of _ 2] exI [of _ 3]) simp_all
  then show ?thesis unfolding chain_verify_iff by simp
qed

lemma rdemo_not_revoked:
  assumes "t \<le> from_secs 2000000000" "der = (if i = 2 then [4] else [5])" "i = 2 \<or> i = 3" "n \<noteq> 99"
  shows "not_revoked rdemo_x509 der (rdemo_cert n i xs) (rdemo_cert i j rdemo_ca) i t 0 2000000000"
proof -
  have "x_crl rdemo_x509 der = Some (rdemo_crl i)" using assms(2,3) by (auto simp: rdemo_x509_def)
  then show ?thesis
    unfolding not_revoked_def
    using rdemo_signed(2) [of i] rdemo_is_ca [of i j] assms(1,4)
    by (intro exI [of _ "rdemo_crl i"] exI [of _ "[i]"])
      (simp add: is_ca_def, simp add: rdemo_crl_def rdemo_cert_def rdemo_x509_def from_secs_def)
qed

definition rdemo_checked :: crl_checked where
  "rdemo_checked = \<lparr>this_update_unix = 0, next_update_unix = 2000000000\<rparr>"

lemma rdemo_crls:
  assumes "t \<le> from_secs 2000000000"
  shows "crl_check_chain rdemo_x509 [1] [2] [3] [4] [5] t = Ok (rdemo_checked, rdemo_checked)"
  unfolding crl_check_chain_iff
  using rdemo_not_revoked [OF assms, of "[4]" 2 1] rdemo_not_revoked [OF assms, of "[5]" 3 2]
  by (simp add: rdemo_checked_def)

section \<open>The store and the commands' options\<close>

type_synonym store = "bytes \<Rightarrow> bytes option"

definition rdemo_os :: "store os" where
  "rdemo_os = \<lparr>os_run = (\<lambda>_. sfail (Msg ''none'' [])),
     os_read = (\<lambda>p w. (case w p of None \<Rightarrow> Err NotFound | Some b \<Rightarrow> Ok b, w)),
     os_stat = (\<lambda>_. sfail NotFound), os_env = (\<lambda>_. None), os_render = (\<lambda>_. [])\<rparr>"

definition rdemo_files :: "(store, bytes) files" where
  "rdemo_files =
     \<lparr>f_exists = (\<lambda>p w. w p \<noteq> None), f_mkdirs = (\<lambda>_. sret ()), f_list = (\<lambda>_. sret []),
      f_remove = (\<lambda>p w. if w p = None then (Err NotFound, w) else (Ok (), w(p := None))),
      f_rename = (\<lambda>_ _. sfail (Msg ''none'' [])), f_open = (\<lambda>_. sfail NotFound), f_create = (\<lambda>_. sfail (Msg ''none'' [])),
      f_create_new = (\<lambda>p _ w. if w p = None then (Ok p, w(p \<mapsto> [])) else (Err (Msg ''exists'' []), w)),
      f_write = (\<lambda>p b w. (Ok (), w(p \<mapsto> b))), f_read = (\<lambda>_ _. sret []), f_fsync = (\<lambda>_. sret ()),
      f_stat = (\<lambda>_. sret ()), f_chmod = (\<lambda>_ _. sret ())\<rparr>"

definition rdemo_secret :: bytes where
  "rdemo_secret = map (\<lambda>_. 7) [0..<32]"

definition rdemo_area :: bytes where
  "rdemo_area = tpm2b_bytes (demo_area 1)"

definition rdemo_name :: bytes where
  "rdemo_name = be16 TPM_ALG_SHA256 @ sha256 demo_hash (demo_area 1)"

abbreviation rdemo_cred :: "(store, byte) cred_crypto" where
  "rdemo_cred \<equiv> demo_cred"

definition rdemo_blob :: bytes where
  "rdemo_blob = credential_bytes (snd (protect rdemo_cred rdemo_secret rdemo_name rdemo_secret))
     (fst (protect rdemo_cred rdemo_secret rdemo_name rdemo_secret)) (be32 0 @ rdemo_secret)"

definition rdemo_time :: duration where
  "rdemo_time = 1700000000000000005"

definition rdemo_pending :: pending where
  "rdemo_pending = pending_of demo_device (lit ''registrar'') rdemo_time [1] [2] (sha256 demo_hash [3]) [4]
     rdemo_checked [5] rdemo_checked rdemo_area rdemo_name rdemo_blob rdemo_secret"

definition rdemo_record :: reg_record where
  "rdemo_record = record_of_pending demo_hash rdemo_pending rdemo_secret rdemo_time"

definition rdemo :: "(store, bytes, byte, bytes, byte, bytes) registrar_env" where
  "rdemo = \<lparr>re_os = rdemo_os, re_files = rdemo_files, re_mkdir = (\<lambda>_ _. sret ()),
     re_now = (\<lambda>w. (rdemo_time, w)), re_x509 = rdemo_x509, re_cms = (\<lambda>_. None), re_cred = demo_cred,
     re_crypto = demo_crypto,
     re_pending_json = (\<lambda>p. if p = rdemo_pending then Ok (lit ''{}'') else Err (Msg ''none'' [])),
     re_pending_of = (\<lambda>b. if b = lit ''{}'' then Some rdemo_pending else None),
     re_record_json = (\<lambda>r. if r = rdemo_record then Ok (lit ''[]'') else Err (Msg ''none'' [])),
     re_record_of = (\<lambda>b. if b = lit ''[]'' @ [10] then Some rdemo_record else None)\<rparr>"

lemma rdemo_simps [simp]:
  "re_os rdemo = rdemo_os" "re_files rdemo = rdemo_files" "re_mkdir rdemo p m = sret ()"
  "re_now rdemo w = (rdemo_time, w)" "re_x509 rdemo = rdemo_x509" "re_cred rdemo = demo_cred"
  "re_crypto rdemo = demo_crypto" "re_pending_json rdemo rdemo_pending = Ok (lit ''{}'')"
  "re_pending_of rdemo (lit ''{}'') = Some rdemo_pending" "re_record_json rdemo rdemo_record = Ok (lit ''[]'')"
  "re_record_of rdemo (lit ''[]'' @ [10]) = Some rdemo_record"
  by (simp_all add: rdemo_def)

definition rdemo_answer :: bytes where
  "rdemo_answer = lit ''certinfodata:'' @ hex_lower rdemo_secret @ [10]"

definition rdemo_disk :: store where
  "rdemo_disk = [lit ''ek.der'' \<mapsto> [1], lit ''int.der'' \<mapsto> [2], lit ''root.der'' \<mapsto> [3], lit ''ak.pub'' \<mapsto> rdemo_area,
     lit ''ek.crl'' \<mapsto> [4], lit ''int.crl'' \<mapsto> [5], lit ''answer'' \<mapsto> rdemo_answer]"

definition rdemo_opts :: reg_opts where
  "rdemo_opts =
     [(lit ''state'', lit ''reg''), (lit ''device-id'', demo_device), (lit ''registrar'', lit ''registrar''),
      (lit ''ek-cert'', lit ''ek.der''), (lit ''intermediate'', lit ''int.der''), (lit ''root'', lit ''root.der''),
      (lit ''ak-public'', lit ''ak.pub''), (lit ''ek-crl'', lit ''ek.crl''),
      (lit ''intermediate-crl'', lit ''int.crl''), (lit ''answer'', lit ''answer''),
      (lit ''record'', lit ''reg/record.json'')]"

lemma rdemo_get [simp]:
  "reg_get rdemo_opts ''state'' = Ok (lit ''reg'')" "reg_get rdemo_opts ''device-id'' = Ok demo_device"
  "reg_get rdemo_opts ''registrar'' = Ok (lit ''registrar'')" "reg_get rdemo_opts ''ek-cert'' = Ok (lit ''ek.der'')"
  "reg_get rdemo_opts ''intermediate'' = Ok (lit ''int.der'')" "reg_get rdemo_opts ''root'' = Ok (lit ''root.der'')"
  "reg_get rdemo_opts ''ak-public'' = Ok (lit ''ak.pub'')" "reg_get rdemo_opts ''ek-crl'' = Ok (lit ''ek.crl'')"
  "reg_get rdemo_opts ''intermediate-crl'' = Ok (lit ''int.crl'')" "reg_get rdemo_opts ''answer'' = Ok (lit ''answer'')"
  "reg_get rdemo_opts ''record'' = Ok (lit ''reg/record.json'')"
  "reg_opt rdemo_opts ''sig'' = None" "reg_opt rdemo_opts ''release-root'' = None"
  "reg_opt rdemo_opts ''emit-ak'' = None"
  by (simp_all add: reg_opt_def reg_get_def rdemo_opts_def demo_device_def lit_def starts_with_def)

lemma rdemo_disk_at:
  "rdemo_disk (lit ''ek.der'') = Some [1]" "rdemo_disk (lit ''int.der'') = Some [2]"
  "rdemo_disk (lit ''root.der'') = Some [3]" "rdemo_disk (lit ''ak.pub'') = Some rdemo_area"
  "rdemo_disk (lit ''ek.crl'') = Some [4]" "rdemo_disk (lit ''int.crl'') = Some [5]"
  "rdemo_disk (lit ''answer'') = Some rdemo_answer"
  "rdemo_disk (lit ''reg/pending.json'') = None" "rdemo_disk (lit ''reg/cred.blob'') = None"
  "rdemo_disk (lit ''reg/record.json'') = None"
  by (simp_all add: rdemo_disk_def lit_def)

lemma rdemo_paths:
  "path_join (lit ''reg'') (lit ''pending.json'') = lit ''reg/pending.json''"
  "path_join (lit ''reg'') (lit ''cred.blob'') = lit ''reg/cred.blob''"
  "path_join (lit ''reg'') (lit ''record.json'') = lit ''reg/record.json''"
  by (simp_all add: path_join_def lit_def)

lemma rdemo_ak: "check_ak demo_crypto rdemo_area = Ok rdemo_name"
  by (simp add: check_ak_def rdemo_area_def demo_ak_parses demo_ecc_parse ecc_name_def rdemo_name_def)
     (simp add: demo_ecc_def)

lemma rdemo_secret_len: "length rdemo_secret = 32"
  by (simp add: rdemo_secret_def)

lemma rdemo_made:
  "fill_bytes rdemo_cred SECRET_LEN w = (Ok rdemo_secret, w)"
  "make_credential rdemo_cred k rdemo_name rdemo_secret w = (Ok rdemo_blob, w)"
  by (simp_all add: fill_bytes_def make_credential_def make_credential_with_seed_def sbind_def smap_err_def
      demo_cred_def rdemo_secret_def split_beta) (simp add: rdemo_blob_def demo_cred_def rdemo_secret_def)

lemma rdemo_time_ok: "rdemo_time \<le> from_secs 2000000000"
  by (simp add: rdemo_time_def from_secs_def)

lemma rdemo_read: "reg_read rdemo rdemo_opts k w = (case reg_get rdemo_opts k of Err e \<Rightarrow> (Err e, w)
    | Ok p \<Rightarrow> (case w p of None \<Rightarrow> (Err (Ctx ''read'' (io_err NotFound)), w) | Some b \<Rightarrow> (Ok b, w)))"
  by (auto simp: reg_read_def sbind_def read_file_def smap_err_def rdemo_os_def split: sum.splits option.splits)

lemma rdemo_write: "write_new rdemo p b m w =
    (if w p = None then (Ok (), w(p \<mapsto> b)) else (Err (Ctx ''create'' (Msg ''exists'' [])), w))"
  by (simp add: write_new_def sbind_def smap_err_def rdemo_files_def)

section \<open>The commands run\<close>

lemma rdemo_pending_json: "re_pending_json rdemo (pending_of demo_device (lit ''registrar'') rdemo_time [1] [2]
    (sha256 demo_hash [3]) [4] rdemo_checked [5] rdemo_checked rdemo_area rdemo_name rdemo_blob rdemo_secret)
    = Ok (lit ''{}'')"
  unfolding rdemo_pending_def [symmetric] by simp

lemma rdemo_files_differ: "lit ''reg/cred.blob'' \<noteq> lit ''reg/pending.json''" "lit ''answer'' \<noteq> lit ''reg/pending.json''"
  "lit ''answer'' \<noteq> lit ''reg/cred.blob''" "lit ''reg/record.json'' \<noteq> lit ''reg/pending.json''"
  "lit ''reg/record.json'' \<noteq> lit ''reg/cred.blob''" "lit ''root.der'' \<noteq> lit ''reg/pending.json''"
  "lit ''root.der'' \<noteq> lit ''reg/cred.blob''" "lit ''root.der'' \<noteq> lit ''reg/record.json''"
  by (simp_all add: lit_def)

definition rdemo_begun :: store where
  "rdemo_begun = rdemo_disk(lit ''reg/pending.json'' \<mapsto> lit ''{}'', lit ''reg/cred.blob'' \<mapsto> rdemo_blob)"

lemma rdemo_begin: "\<exists>out. reg_begin rdemo rdemo_opts rdemo_disk = (Ok out, rdemo_begun)"
proof -
  have "reg_validate_id demo_device = Ok ()" by (simp add: reg_validate_id_iff demo_device_valid)
  then show ?thesis
    by (simp add: reg_begin_def sbind_def rdemo_read rdemo_disk_at reg_now_def rdemo_chain [OF rdemo_time_ok]
        rdemo_crls [OF rdemo_time_ok] rdemo_ak rdemo_made [simplified] smap_err_def rdemo_write rdemo_paths
        rdemo_pending_json rdemo_files_differ rdemo_begun_def)
qed

lemma rdemo_answer_ok: "utf8_valid rdemo_answer" "parse_answer rdemo_answer = Ok rdemo_secret"
proof -
  have "list_all is_ascii (lit ''certinfodata:'')" by (simp add: lit_def is_ascii_def)
  then have "list_all is_ascii rdemo_answer"
    using hex_lower_graphic [of rdemo_secret]
    by (auto simp: rdemo_answer_def list_all_iff is_graphic_def is_ascii_def)
  then show "utf8_valid rdemo_answer" by (rule utf8_valid_ascii)
  show "parse_answer rdemo_answer = Ok rdemo_secret"
    unfolding rdemo_answer_def by (rule answer_accepted) (simp add: rdemo_secret_len)
qed

lemma rdemo_secret_hex: "hex_text (pe_secret rdemo_pending) rdemo_secret" "pe_format rdemo_pending = PENDING_FORMAT"
  by (simp_all add: rdemo_pending_def pending_of_def)

lemma rdemo_record_json:
  "re_record_json rdemo (record_of_pending demo_hash rdemo_pending rdemo_secret rdemo_time) = Ok (lit ''[]'')"
  unfolding rdemo_record_def [symmetric] by simp

definition rdemo_registered :: store where
  "rdemo_registered = rdemo_begun(lit ''reg/record.json'' \<mapsto> lit ''[]'' @ [10], lit ''reg/pending.json'' := None)"

lemma rdemo_complete: "\<exists>out. reg_complete rdemo rdemo_opts rdemo_begun = (Ok out, rdemo_registered)"
proof -
  have at: "rdemo_begun (lit ''reg/pending.json'') = Some (lit ''{}'')" "rdemo_begun (lit ''answer'') = Some rdemo_answer"
    "rdemo_begun (lit ''reg/record.json'') = None"
    by (simp_all add: rdemo_begun_def rdemo_files_differ rdemo_files_differ [symmetric] rdemo_disk_at)
  have pend: "read_pending rdemo (lit ''reg/pending.json'') rdemo_begun = (Ok rdemo_pending, rdemo_begun)"
    by (simp add: read_pending_def sbind_def read_file_def smap_err_def rdemo_os_def at rdemo_secret_hex)
  have sec: "hex_decode (pe_secret rdemo_pending) = Ok rdemo_secret"
    using rdemo_secret_hex(1) by (simp add: hex_decode_iff)
  have rm: "f_remove rdemo_files (lit ''reg/pending.json'') (rdemo_begun(lit ''reg/record.json'' \<mapsto> lit ''[]'' @ [10]))
      = (Ok (), rdemo_registered)"
    by (simp add: rdemo_files_def at rdemo_files_differ [symmetric] rdemo_registered_def)
  show ?thesis
    by (simp add: reg_complete_def reg_finish_def Let_def sbind_def pend rdemo_paths rdemo_read at rdemo_answer_ok sec ct_eq_iff
        reg_now_def rdemo_record_json rdemo_write smap_err_def rm)
qed

end
