(* ===== verification/RegSystem.thy ===== *)
theory RegSystem
  imports RegDemo
begin

text \<open>
  The registrar's commands over a file store: \<open>verify\<close> accepts exactly the records that hold,
  \<open>complete\<close> needs the answer, and what \<open>begin\<close> and \<open>complete\<close> write is a record \<open>verify\<close>
  accepts.
\<close>

section \<open>A file store\<close>

text \<open>
  The documented behaviour of the calls: \<open>S w\<close> gives the readable files of the world \<open>w\<close> and
  their contents. Reading changes nothing; a new file is written whole where none was; the
  clock, the generator, the encryption and a new directory change no file.
\<close>

definition file_store ::
  "('w, 'h, 'k, 's, 'v, 'z) registrar_env \<Rightarrow> ('w \<Rightarrow> bytes \<Rightarrow> bytes option) \<Rightarrow> bool" where
  "file_store E S \<longleftrightarrow>
     (\<forall>p w r w'. os_read (re_os E) p w = (r, w') \<longrightarrow> w' = w \<and> S w p = res_ok r)
     \<and> (\<forall>p b mode w w'. write_new E p b mode w = (Ok (), w') \<longrightarrow> S w p = None \<and> S w' = (S w)(p \<mapsto> b))
     \<and> (\<forall>p w w'. f_remove (re_files E) p w = (Ok (), w') \<longrightarrow> S w' = (S w)(p := None))
     \<and> (\<forall>w. S (snd (re_now E w)) = S w) \<and> (\<forall>w. S (snd (m_random (re_cred E) w)) = S w)
     \<and> (\<forall>k l s w. S (snd (m_oaep (re_cred E) k l s w)) = S w)
     \<and> (\<forall>p m w. S (snd (re_mkdir E p m w)) = S w)"

lemma file_storeD:
  assumes "file_store E S"
  shows "read_file (re_os E) p w = (Ok b, w') \<longleftrightarrow> w' = w \<and> S w p = Some b"
    "write_new E p b mode w = (Ok u, w') \<Longrightarrow> S w' = (S w)(p \<mapsto> b)"
    "f_remove (re_files E) p w = (Ok u, w') \<Longrightarrow> S w' = (S w)(p := None)"
    "re_now E w = (t, w') \<Longrightarrow> S w' = S w"
    "m_random (re_cred E) w = (f, w') \<Longrightarrow> S w' = S w"
    "m_oaep (re_cred E) k l s w = (r, w') \<Longrightarrow> S w' = S w"
    "re_mkdir E p m w = (q, w') \<Longrightarrow> S w' = S w"
proof -
  obtain r v where r: "os_read (re_os E) p w = (r, v)" by fastforce
  then have "v = w \<and> S w p = res_ok r"
    using conjunct1 [OF assms [unfolded file_store_def]] by blast
  then show "read_file (re_os E) p w = (Ok b, w') \<longleftrightarrow> w' = w \<and> S w p = Some b"
    unfolding read_file_def smap_err_Ok r by (cases r) auto
next
  note st = assms [unfolded file_store_def]
  show "write_new E p b mode w = (Ok u, w') \<Longrightarrow> S w' = (S w)(p \<mapsto> b)" using st by simp
  show "f_remove (re_files E) p w = (Ok u, w') \<Longrightarrow> S w' = (S w)(p := None)" using st by simp
  show "re_now E w = (t, w') \<Longrightarrow> S w' = S w" using st by (metis snd_conv)
  show "m_random (re_cred E) w = (f, w') \<Longrightarrow> S w' = S w" using st by (metis snd_conv)
  show "m_oaep (re_cred E) k l s w = (r, w') \<Longrightarrow> S w' = S w" using st by (metis snd_conv)
  show "re_mkdir E p m w = (q, w') \<Longrightarrow> S w' = S w" using st by (metis snd_conv)
qed

lemma reg_read_store:
  assumes "file_store E S"
  shows "reg_read E a k w = (Ok b, w') \<longleftrightarrow> w' = w \<and> (\<exists>p. reg_get a k = Ok p \<and> S w p = Some b)"
  unfolding reg_read_def sbind_Ok sres_Ok file_storeD(1) [OF assms] by blast

lemma reg_now_Ok: "reg_now E w = (Ok t, w') \<longleftrightarrow> re_now E w = (t, w')"
  by (simp add: reg_now_def split_beta prod_eq_iff)

lemma reg_now_fst: "reg_now E w = (Ok (fst (re_now E w)), snd (re_now E w))"
  by (simp add: reg_now_def split_beta)

lemma rdemo_store: "file_store rdemo (\<lambda>w. w)"
  by (auto simp: file_store_def rdemo_write rdemo_os_def demo_cred_def split: option.splits if_splits)
     (auto simp: rdemo_files_def split: if_splits)

section \<open>\<open>verify\<close>\<close>

definition signature_ok ::
  "('w, 'h, 'k, 's, 'v, 'z) registrar_env \<Rightarrow> reg_opts \<Rightarrow> (bytes \<Rightarrow> bytes option) \<Rightarrow> duration \<Rightarrow> bytes \<Rightarrow> bool" where
  "signature_ok E a files now record_bytes \<longleftrightarrow>
     reg_opt a ''sig'' = None \<and> reg_opt a ''release-root'' = None
     \<or> (\<exists>p7s root root_bytes root_der p7s_bytes rootc leaf sca.
          reg_opt a ''sig'' = Some p7s \<and> reg_opt a ''release-root'' = Some root
          \<and> files root = Some root_bytes \<and> cert_der (re_x509 E) root_bytes ''release root'' = Ok root_der
          \<and> files p7s = Some p7s_bytes \<and> x_cert (re_x509 E) root_der = Some rootc
          \<and> record_signed (re_x509 E) (re_cms E) record_bytes p7s_bytes rootc now leaf sca)"

lemma verify_signature_ok:
  assumes "file_store E S"
  shows "(\<exists>sg w'. verify_signature E a rb w = (Ok sg, w')) \<longleftrightarrow> signature_ok E a (S w) (fst (re_now E w)) rb"
proof -
  have "(\<exists>sg w'. verify_signature E a rb w = (Ok sg, w')) \<longleftrightarrow>
      reg_opt a ''sig'' = None \<and> reg_opt a ''release-root'' = None
      \<or> (\<exists>p7s root rbs rd pb s. reg_opt a ''sig'' = Some p7s \<and> reg_opt a ''release-root'' = Some root
          \<and> S w root = Some rbs \<and> cert_der (re_x509 E) rbs ''release root'' = Ok rd \<and> S w p7s = Some pb
          \<and> sig_verify (re_x509 E) (c_hash (re_crypto E)) (re_cms E) rb pb rd (fst (re_now E w)) = Ok s)"
    unfolding verify_signature_def
    by (auto simp: sbind_Ok sres_Ok file_storeD(1) [OF assms] reg_now_fst split: option.splits)
  then show ?thesis
    unfolding signature_ok_def sig_verify_iff by blast
qed

lemma reg_verify_Ok:
  assumes "file_store E S" "reg_opt a ''emit-ak'' = None"
  shows "reg_verify E a w = (Ok out, w') \<longleftrightarrow>
    (\<exists>rb r v2 root_der area sg. (\<exists>p. reg_get a ''record'' = Ok p \<and> S w p = Some rb)
       \<and> re_record_of E rb = Some r \<and> format_holds r v2 \<and> valid_device_id (rr_device_id r)
       \<and> (\<exists>p. reg_get a ''root'' = Ok p \<and> S w p = Some root_der)
       \<and> record_holds (re_x509 E) (re_crypto E) r v2 root_der area
       \<and> verify_signature E a rb w = (Ok sg, w') \<and> out = verify_report r v2 sg None)"
  unfolding reg_verify_def assms(2) sbind_Ok sres_Ok reg_read_store [OF assms(1)] ok_or_Ok check_format_iff
    reg_validate_id_iff check_record_iff option.case sret_app prod.inject sum.inject
  by (simp only: ex_simps simp_thms conj_assoc eq_commute [of _ out]) simp

lemma verify_word: "lit ''verify'' \<noteq> lit ''begin''" "lit ''verify'' \<noteq> lit ''complete''"
  by (simp_all add: lit_def)

text \<open>
  C9. \<open>verify\<close> exits with 0 exactly when the record named by the options parses, has the fields of
  its format, names a valid device, and holds under the root given: the certificate chain and, in
  format 2, both revocation lists at the time of the record, the attestation key and its name, the
  layout of the credential; and when a signature is given, it is by a Registration Signer under the
  release root at the time of the call.
\<close>

theorem verify_exact:
  assumes "file_store E S" "reg_opt (reg_options a) ''emit-ak'' = None"
  shows "snd (fst (reg_main E (lit ''verify'' # a) w)) = 0 \<longleftrightarrow>
    (\<exists>rp rb r v2 tp root_der area.
       reg_get (reg_options a) ''record'' = Ok rp \<and> S w rp = Some rb \<and> re_record_of E rb = Some r
       \<and> format_holds r v2 \<and> valid_device_id (rr_device_id r)
       \<and> reg_get (reg_options a) ''root'' = Ok tp \<and> S w tp = Some root_der
       \<and> record_holds (re_x509 E) (re_crypto E) r v2 root_der area
       \<and> signature_ok E (reg_options a) (S w) (fst (re_now E w)) rb)"
proof -
  have "snd (fst (reg_run c w)) = 0 \<longleftrightarrow> (\<exists>out w'. c w = (Ok out, w'))" for c :: "('a, bytes list) io"
    by (auto simp: reg_run_def split: prod.splits sum.splits)
  then have "snd (fst (reg_main E (lit ''verify'' # a) w)) = 0 \<longleftrightarrow>
      (\<exists>out w'. reg_verify E (reg_options a) w = (Ok out, w'))"
    by (simp add: reg_main_def verify_word)
  then show ?thesis
    unfolding reg_verify_Ok [OF assms] verify_signature_ok [OF assms(1), symmetric] by blast
qed

text \<open>The text of the time is copied, not compared with the time the record was judged at.\<close>

lemma time_text_unchecked:
  "check_record X C (r\<lparr>rr_chain_checked_utc := t\<rparr>) v2 root_der = check_record X C r v2 root_der
   \<and> (v2 \<longrightarrow> hd (verify_report (r\<lparr>rr_chain_checked_utc := t\<rparr>) v2 None None) =
        lit ''record ok   '' @ rr_device_id r @ lit '' (format 2: chain and CRLs at '' @ t
          @ lit '', AK rule, AK name, blob layout)'')"
  by (simp add: check_record_def check_crls_def verify_report_def Let_def cong: if_cong)

section \<open>\<open>complete\<close>\<close>

lemma if_sfail: "(if c then sfail e else m) w = (Ok y, w') \<longleftrightarrow> \<not> c \<and> m w = (Ok y, w')"
  by simp

lemma read_pending_Ok:
  assumes "file_store E S"
  shows "read_pending E q w = (Ok p, w') \<longleftrightarrow>
    w' = w \<and> (\<exists>b. S w q = Some b \<and> re_pending_of E b = Some p) \<and> pe_format p = PENDING_FORMAT"
  unfolding read_pending_def sbind_Ok sres_Ok ok_or_Ok file_storeD(1) [OF assms] if_sfail sret_app by auto

lemma reg_finish_Ok:
  assumes "file_store E S" "reg_finish E state p secret w = (Ok out, w')"
  obtains t json where "re_record_json E (record_of_pending (c_hash (re_crypto E)) p secret t) = Ok json"
    "S w' = (S w)(path_join state (lit ''record.json'') \<mapsto> json @ [10], path_join state (lit ''pending.json'') := None)"
proof -
  from assms(2) obtain t w1 json u w2 u' where n: "re_now E w = (t, w1)"
    and j: "re_record_json E (record_of_pending (c_hash (re_crypto E)) p secret t) = Ok json"
    and c: "write_new E (path_join state (lit ''record.json'')) (json @ [10]) 420 w1 = (Ok u, w2)"
    and r: "f_remove (re_files E) (path_join state (lit ''pending.json'')) w2 = (Ok u', w')"
    unfolding reg_finish_def Let_def sbind_Ok sres_Ok reg_now_Ok smap_err_Ok by auto
  have "S w' = (S w)(path_join state (lit ''record.json'') \<mapsto> json @ [10], path_join state (lit ''pending.json'') := None)"
    unfolding file_storeD(3) [OF assms(1) r] file_storeD(2) [OF assms(1) c] file_storeD(4) [OF assms(1) n]
    by (rule refl)
  with j show thesis by (rule that)
qed

lemma reg_complete_iff:
  assumes "file_store E S"
  shows "reg_complete E a w = (Ok out, w') \<longleftrightarrow>
    (\<exists>state. reg_get a ''state'' = Ok state
     \<and> (\<exists>p. ((\<exists>b. S w (path_join state (lit ''pending.json'')) = Some b \<and> re_pending_of E b = Some p)
            \<and> pe_format p = PENDING_FORMAT)
     \<and> (\<exists>s. (\<exists>ap. reg_get a ''answer'' = Ok ap \<and> S w ap = Some s) \<and> utf8_valid s
     \<and> (\<exists>secret. parse_answer s = Ok secret \<and> hex_text (pe_secret p) secret
        \<and> reg_finish E state p secret w = (Ok out, w')))))"
  unfolding reg_complete_def sbind_Ok sres_Ok reg_read_store [OF assms] read_pending_Ok [OF assms] if_Ok_Err
    if_sfail hex_decode_iff ct_eq_iff not_not sum.inject
  by (simp only: ex_simps simp_thms conj_assoc) auto

text \<open>
  C10. With any answer but the secret of the pending registration, \<open>complete\<close> refuses and has done
  nothing but read: no record is written and the pending registration stays.
\<close>

theorem complete_needs_answer:
  assumes "file_store E S" "reg_get a ''state'' = Ok state"
    "S w (path_join state (lit ''pending.json'')) = Some b" "re_pending_of E b = Some p"
    "hex_text (pe_secret p) secret" "reg_get a ''answer'' = Ok ap" "S w ap = Some s"
    "parse_answer s \<noteq> Ok secret"
  shows "\<exists>e. reg_complete E a w = (Err e, w)"
proof -
  have r: "read_file (re_os E) (path_join state (lit ''pending.json'')) w = (Ok b, w)"
    "reg_read E a ''answer'' w = (Ok s, w)"
    using assms(3,6,7) by (simp_all add: file_storeD(1) [OF assms(1)] reg_read_store [OF assms(1)])
  have h: "hex_decode (pe_secret p) = Ok secret" using assms(5) by (simp add: hex_decode_iff)
  consider "pe_format p \<noteq> PENDING_FORMAT" | "pe_format p = PENDING_FORMAT" "\<not> utf8_valid s"
    | e where "pe_format p = PENDING_FORMAT" "utf8_valid s" "parse_answer s = Err e"
    | x where "pe_format p = PENDING_FORMAT" "utf8_valid s" "parse_answer s = Ok x" "x \<noteq> secret"
    using assms(8) by (cases "parse_answer s") blast+
  then show ?thesis
    by cases (simp_all add: reg_complete_def read_pending_def Let_def sbind_def assms(2,4) r h ct_eq_iff)
qed

lemma complete_needs_answer_witness:
  "\<exists>e. reg_complete rdemo rdemo_opts (rdemo_begun(lit ''answer'' \<mapsto> lit ''00'')) =
     (Err e, rdemo_begun(lit ''answer'' \<mapsto> lit ''00''))"
proof -
  have p: "parse_answer (lit ''00'') \<noteq> Ok rdemo_secret" by code_simp
  show ?thesis
    by (rule complete_needs_answer [OF rdemo_store, of _ "lit ''reg''" _ "lit ''{}''" rdemo_pending rdemo_secret "lit ''answer''" "lit ''00''"])
       (simp_all add: rdemo_paths rdemo_begun_def rdemo_files_differ rdemo_files_differ [symmetric] rdemo_secret_hex p)
qed

section \<open>\<open>begin\<close>\<close>

lemma reg_begin_Ok:
  assumes "file_store E S" "reg_begin E a w = (Ok out, w')"
  obtains state d g ek_der int_der root_der area ekc intc t ch ec ic name secret v1 blob v2 json where
    "reg_get a ''state'' = Ok state" "reg_get a ''device-id'' = Ok d" "valid_device_id d"
    "\<exists>p. reg_get a ''root'' = Ok p \<and> S w p = Some root_der"
    "chain_verify (re_x509 E) (c_hash (re_crypto E)) ek_der int_der root_der t = Ok ch"
    "crl_check_chain (re_x509 E) ek_der int_der root_der ekc intc t = Ok (ec, ic)"
    "check_ak (re_crypto E) area = Ok name" "length secret = SECRET_LEN"
    "make_credential (re_cred E) (ch_ek_public ch) name secret v1 = (Ok blob, v2)"
    "re_pending_json E (pending_of d g t ek_der int_der (ch_root_sha256 ch) ekc ec intc ic area name blob secret) = Ok json"
    "S w' (path_join state (lit ''pending.json'')) = Some json"
proof -
  note run = assms(2) [unfolded reg_begin_def sbind_Ok sres_Ok reg_read_store [OF assms(1)] split_paired_Ex
      prod.case reg_now_Ok smap_err_Ok reg_validate_id_iff sret_app prod.inject sum.inject,
      simplified ex_simps simp_thms]
  from run show thesis
  proof (elim exE conjE, hypsubst)
    fix state d g ek_der int_der root_der rp area ekc intc t w1 ch ec ic name secret w2 blob w3 u w4 json u' w5 u''
    assume st: "reg_get a ''state'' = Ok state" "reg_get a ''device-id'' = Ok d" "valid_device_id d"
      and root: "reg_get a ''root'' = Ok rp" "S w rp = Some root_der"
      and ch: "chain_verify (re_x509 E) (c_hash (re_crypto E)) ek_der int_der root_der t = Ok ch"
        "crl_check_chain (re_x509 E) ek_der int_der root_der ekc intc t = Ok (ec, ic)"
        "check_ak (re_crypto E) area = Ok name"
      and sec: "fill_bytes (re_cred E) SECRET_LEN w1 = (Ok secret, w2)"
      and mk: "make_credential (re_cred E) (ch_ek_public ch) name secret w2 = (Ok blob, w3)"
      and js: "re_pending_json E (pending_of d g t ek_der int_der (ch_root_sha256 ch) ekc ec intc ic area name blob secret) = Ok json"
      and wp: "write_new E (path_join state (lit ''pending.json'')) json 384 w4 = (Ok u', w5)"
      and wb: "write_new E (path_join state (lit ''cred.blob'')) blob 420 w5 = (Ok u'', w')"
    have "path_join state (lit ''pending.json'') \<noteq> path_join state (lit ''cred.blob'')"
      by (simp add: path_join_def lit_def)
    then have "S w' (path_join state (lit ''pending.json'')) = Some json"
      by (simp add: file_storeD(2) [OF assms(1) wp] file_storeD(2) [OF assms(1) wb])
    moreover have "length secret = SECRET_LEN" using sec by (auto simp: fill_bytes_def split: prod.splits)
    ultimately show thesis
      using that [OF st exI [of _ rp] ch _ mk js] root by simp
  qed
qed

section \<open>From \<open>begin\<close> to \<open>verify\<close>\<close>

text \<open>The encryption fits a 16-bit size and CFB keeps the length; the codecs give back what was written.\<close>

definition sizes :: "('w, 'h, 'k, 's, 'v, 'z) registrar_env \<Rightarrow> bool" where
  "sizes E \<longleftrightarrow>
     (\<forall>k l s w c w'. m_oaep (re_cred E) k l s w = (Ok c, w') \<longrightarrow> length c < 2 ^ 16)
     \<and> (\<forall>k iv x. length (m_cfb (re_cred E) k iv x) = length x)"

definition codecs :: "('w, 'h, 'k, 's, 'v, 'z) registrar_env \<Rightarrow> bool" where
  "codecs E \<longleftrightarrow>
     (\<forall>p b. re_pending_json E p = Ok b \<longrightarrow> re_pending_of E b = Some p)
     \<and> (\<forall>r b. re_record_json E r = Ok b \<longrightarrow> re_record_of E (b @ [10]) = Some r)"

lemma made_credential_parses:
  assumes "sizes E" "length secret = SECRET_LEN" "make_credential (re_cred E) k name secret w = (Ok blob, w')"
  shows "\<exists>c. parse_file blob = Ok c"
proof -
  obtain seed u enc where o: "m_oaep (re_cred E) k LABEL_IDENTITY seed u = (Ok enc, w')"
    and b: "blob = credential_bytes (snd (protect (re_cred E) seed name secret)) (fst (protect (re_cred E) seed name secret)) enc"
    by (rule make_credential_Ok [OF assms(3)])
  have "length enc < 2 ^ 16" using assms(1) o unfolding sizes_def by blast
  moreover have "length (m_cfb (re_cred E) key iv x) = length x" for key iv x using assms(1) unfolding sizes_def by blast
  ultimately show ?thesis unfolding b using made_parses assms(2) by blast
qed

text \<open>The record made of what \<open>begin\<close> checked holds at the second the record keeps.\<close>

lemma pending_record_holds:
  assumes "chain_verify X (c_hash C) ek_der int_der root_der t = Ok ch"
    "crl_check_chain X ek_der int_der root_der ekc intc t = Ok (ec, ic)"
    "check_ak C area = Ok name" "parse_file blob = Ok c"
  shows "record_holds X C (record_of_pending (c_hash C) (pending_of d g t ek_der int_der (ch_root_sha256 ch) ekc ec
    intc ic area name blob secret) s u) True root_der area"
proof -
  obtain ek ica root where x: "x_cert X ek_der = Some ek" "x_cert X int_der = Some ica" "x_cert X root_der = Some root"
    and h: "chain_holds X t ek ica root (ch_ek_public ch)" and sha: "ch_root_sha256 ch = sha256 (c_hash C) root_der"
    using assms(1) unfolding chain_verify_iff by blast
  obtain ica_key root_key where k: "key_of X ica = Some ica_key" "key_of X root = Some root_key"
    and n: "not_revoked X ekc ek ica ica_key t (this_update_unix ec) (next_update_unix ec)"
      "not_revoked X intc ica root root_key t (this_update_unix ic) (next_update_unix ic)"
    using assms(2) x unfolding crl_check_chain_iff by auto
  let ?r = "record_of_pending (c_hash C) (pending_of d g t ek_der int_der (ch_root_sha256 ch) ekc ec
    intc ic area name blob secret) s u"
  have "revocation_holds X ?r ek ica root (from_secs (as_secs t))"
    unfolding revocation_holds_def
    by (intro exI [of _ "hex_lower ekc"] exI [of _ ekc] exI [of _ "hex_lower intc"] exI [of _ intc] exI [of _ ec]
        exI [of _ ic] exI [of _ ica_key] exI [of _ root_key])
      (simp add: record_of_pending_def pending_of_def k not_revoked_floor [OF n(1)] not_revoked_floor [OF n(2)])
  moreover have "(\<exists>c. wf_credential c \<and> hex_text (rr_credential_blob ?r)
      (credential_bytes (cf_integrity c) (cf_enc_identity c) (cf_enc_seed c)))"
    using assms(4) unfolding parse_file_iff
    by (intro exI [of _ c]) (simp add: record_of_pending_def pending_of_def)
  moreover have "named_ak C area name" using assms(3) by (simp add: check_ak_iff)
  ultimately show ?thesis
    unfolding record_holds_def using x chain_holds_floor [OF h]
    by (simp add: record_of_pending_def pending_of_def sha) (metis hex_text_lower length_sha256)
qed

lemma rdemo_record_holds: "record_holds rdemo_x509 demo_crypto rdemo_record True [3] rdemo_area"
proof -
  have sz: "length rdemo_secret = SECRET_LEN" "length (m_cfb rdemo_cred k iv x) = length x"
    "length (be32 0 @ rdemo_secret) < 2 ^ 16" for k iv x
    by (simp_all add: rdemo_secret_len demo_cred_def)
  obtain c where "parse_file rdemo_blob = Ok c"
    unfolding rdemo_blob_def using made_parses [OF sz] by blast
  from pending_record_holds [OF rdemo_chain [OF rdemo_time_ok, of demo_hash, folded demo_crypto_simps(1)]
      rdemo_crls [OF rdemo_time_ok] rdemo_ak this]
  show ?thesis by (simp add: rdemo_record_def rdemo_pending_def)
qed

lemma rdemo_record_fields: "format_holds rdemo_record True" "valid_device_id (rr_device_id rdemo_record)"
  by (simp_all add: rdemo_record_def rdemo_pending_def record_of_pending_def pending_of_def format_holds_def
      demo_device_valid)

lemma verify_exact_witness:
  "snd (fst (reg_main rdemo [lit ''verify'', lit ''--record'', lit ''reg/record.json'', lit ''--root'', lit ''root.der'']
     rdemo_registered)) = 0"
proof -
  let ?a = "[lit ''--record'', lit ''reg/record.json'', lit ''--root'', lit ''root.der'']"
  have o: "reg_get (reg_options ?a) ''record'' = Ok (lit ''reg/record.json'')"
    "reg_get (reg_options ?a) ''root'' = Ok (lit ''root.der'')" "reg_opt (reg_options ?a) ''emit-ak'' = None"
    "reg_opt (reg_options ?a) ''sig'' = None" "reg_opt (reg_options ?a) ''release-root'' = None"
    by code_simp+
  have at: "rdemo_registered (lit ''reg/record.json'') = Some (lit ''[]'' @ [10])"
    "rdemo_registered (lit ''root.der'') = Some [3]"
    by (simp_all add: rdemo_registered_def rdemo_begun_def rdemo_files_differ rdemo_files_differ [symmetric] rdemo_disk_at)
  have "signature_ok rdemo (reg_options ?a) f n b" for f n b using o by (simp add: signature_ok_def)
  then show ?thesis
    unfolding verify_exact [OF rdemo_store o(3)]
    using o at rdemo_record_holds rdemo_record_fields by (metis rdemo_simps(5,7,11))
qed

text \<open>
  C8. What \<open>begin\<close> checked and \<open>complete\<close> recorded, \<open>verify\<close> accepts, at any later time, under the
  same root: the three commands run over one file store, with anything in between that leaves the
  two files as they were. The record has format 2 and names the device that was registered.
\<close>

theorem registration_verifies:
  assumes "file_store E S" "sizes E" "codecs E"
    "reg_begin E a w1 = (Ok out1, w1')" "reg_get a ''state'' = Ok state"
    "reg_get a ''root'' = Ok root_path" "S w1 root_path = Some root_der"
    "reg_complete E b w2 = (Ok out2, w2')" "reg_get b ''state'' = Ok state"
    "S w2 (path_join state (lit ''pending.json'')) = S w1' (path_join state (lit ''pending.json''))"
    "reg_get c ''record'' = Ok rec" "S w3 rec = S w2' (path_join state (lit ''record.json''))"
    "reg_get c ''root'' = Ok root'" "S w3 root' = Some root_der"
    "reg_opt c ''sig'' = None" "reg_opt c ''release-root'' = None" "reg_opt c ''emit-ak'' = None"
  shows "\<exists>r. reg_verify E c w3 = (Ok (verify_report r True None None), w3)
    \<and> rr_format r = RECORD_FORMAT \<and> reg_get a ''device-id'' = Ok (rr_device_id r)"
proof -
  obtain state' d g ek_der int_der root_der' area ekc intc t ch ec ic name secret v1 blob v2 json where
    st: "reg_get a ''state'' = Ok state'" and d: "reg_get a ''device-id'' = Ok d" "valid_device_id d"
    and rt: "\<exists>p. reg_get a ''root'' = Ok p \<and> S w1 p = Some root_der'"
    and ch: "chain_verify (re_x509 E) (c_hash (re_crypto E)) ek_der int_der root_der' t = Ok ch"
      "crl_check_chain (re_x509 E) ek_der int_der root_der' ekc intc t = Ok (ec, ic)"
      "check_ak (re_crypto E) area = Ok name" and sl: "length secret = SECRET_LEN"
    and mk: "make_credential (re_cred E) (ch_ek_public ch) name secret v1 = (Ok blob, v2)"
    and js: "re_pending_json E (pending_of d g t ek_der int_der (ch_root_sha256 ch) ekc ec intc ic area name blob secret) = Ok json"
    and pj: "S w1' (path_join state' (lit ''pending.json'')) = Some json"
    by (rule reg_begin_Ok [OF assms(1,4)])
  define p where "p = pending_of d g t ek_der int_der (ch_root_sha256 ch) ekc ec intc ic area name blob secret"
  have eqs: "state' = state" "root_der' = root_der" using st rt assms(5-7) by auto
  have pof: "re_pending_of E json = Some p" using assms(3) js unfolding codecs_def p_def by blast
  have "\<exists>s. reg_finish E state p s w2 = (Ok out2, w2')"
    using assms(8-10) pj pof unfolding reg_complete_iff [OF assms(1)] eqs by auto
  then obtain s where f: "reg_finish E state p s w2 = (Ok out2, w2')" by blast
  obtain u rj where rj: "re_record_json E (record_of_pending (c_hash (re_crypto E)) p s u) = Ok rj"
    and S2: "S w2' = (S w2)(path_join state (lit ''record.json'') \<mapsto> rj @ [10], path_join state (lit ''pending.json'') := None)"
    by (rule reg_finish_Ok [OF assms(1) f])
  define r where "r = record_of_pending (c_hash (re_crypto E)) p s u"
  have "path_join state (lit ''record.json'') \<noteq> path_join state (lit ''pending.json'')"
    by (simp add: path_join_def lit_def)
  then have rb: "S w3 rec = Some (rj @ [10])" using assms(12) S2 by simp
  have rof: "re_record_of E (rj @ [10]) = Some r" using assms(3) rj unfolding codecs_def r_def by blast
  obtain cf where "parse_file blob = Ok cf" using made_credential_parses [OF assms(2) sl mk] by blast
  then have h: "record_holds (re_x509 E) (re_crypto E) r True root_der area"
    unfolding r_def p_def using pending_record_holds [OF ch] eqs by blast
  have fm: "format_holds r True" "rr_device_id r = d" "rr_format r = RECORD_FORMAT"
    by (simp_all add: r_def p_def record_of_pending_def pending_of_def format_holds_def)
  have "verify_signature E c (rj @ [10]) w3 = (Ok None, w3)"
    using assms(15,16) by (simp add: verify_signature_def)
  then have "reg_verify E c w3 = (Ok (verify_report r True None None), w3)"
    unfolding reg_verify_Ok [OF assms(1,17)] using assms(11,13,14) rb rof h fm d by blast
  then show ?thesis using fm d by auto
qed

lemma rdemo_laws: "sizes rdemo" "codecs rdemo"
  by (auto simp: sizes_def codecs_def rdemo_def demo_cred_def split: if_splits)

lemma registration_verifies_witness:
  "\<exists>r. reg_verify rdemo rdemo_opts rdemo_registered = (Ok (verify_report r True None None), rdemo_registered)
    \<and> rr_device_id r = demo_device"
proof -
  obtain out1 out2 where b: "reg_begin rdemo rdemo_opts rdemo_disk = (Ok out1, rdemo_begun)"
    and c: "reg_complete rdemo rdemo_opts rdemo_begun = (Ok out2, rdemo_registered)"
    using rdemo_begin rdemo_complete by blast
  have "rdemo_registered (lit ''root.der'') = Some [3]"
    by (simp add: rdemo_registered_def rdemo_begun_def rdemo_files_differ rdemo_disk_at)
  then have "\<exists>r. reg_verify rdemo rdemo_opts rdemo_registered = (Ok (verify_report r True None None), rdemo_registered)
    \<and> rr_format r = RECORD_FORMAT \<and> reg_get rdemo_opts ''device-id'' = Ok (rr_device_id r)"
    by (intro registration_verifies [OF rdemo_store rdemo_laws b rdemo_get(1) rdemo_get(6) _ c rdemo_get(1) _ rdemo_get(11) _
          rdemo_get(6)]) (simp_all add: rdemo_disk_at rdemo_paths)
  then show ?thesis unfolding rdemo_get(2) by auto
qed

section \<open>The types of what is written\<close>

definition hex_bytes :: "bytes \<Rightarrow> bool" where
  "hex_bytes s \<longleftrightarrow> (\<exists>b. s = hex_lower b)"

definition hex_array :: "nat \<Rightarrow> bytes \<Rightarrow> bool" where
  "hex_array n s \<longleftrightarrow> (\<exists>b. length b = n \<and> s = hex_lower b)"

definition hex_credential :: "bytes \<Rightarrow> bool" where
  "hex_credential s \<longleftrightarrow> (\<exists>c. wf_credential c
     \<and> s = hex_lower (credential_bytes (cf_integrity c) (cf_enc_identity c) (cf_enc_seed c)))"

definition wf_pending :: "pending \<Rightarrow> bool" where
  "wf_pending p \<longleftrightarrow> pe_format p = PENDING_FORMAT \<and> valid_device_id (pe_device_id p)
     \<and> list_all hex_bytes [pe_ek_certificate p, pe_intermediate_certificate p, pe_ek_crl p, pe_intermediate_crl p, pe_ak_public p]
     \<and> hex_array 32 (pe_root_sha256 p) \<and> hex_array 34 (pe_ak_name p) \<and> hex_array 32 (pe_secret p)
     \<and> hex_credential (pe_credential_blob p)"

definition some_hex :: "bytes option \<Rightarrow> bool" where
  "some_hex x \<longleftrightarrow> (\<exists>s. x = Some s \<and> hex_bytes s)"

definition some_time :: "bytes option \<Rightarrow> bool" where
  "some_time x \<longleftrightarrow> (\<exists>n. x = Some (utc n))"

definition wf_reg_record :: "reg_record \<Rightarrow> bool" where
  "wf_reg_record r \<longleftrightarrow> format_holds r True \<and> valid_device_id (rr_device_id r)
     \<and> list_all hex_bytes [rr_ek_certificate r, rr_intermediate_certificate r, rr_ak_public r]
     \<and> hex_array 32 (rr_root_sha256 r) \<and> hex_array 34 (rr_ak_name r) \<and> hex_array 32 (rr_secret_sha256 r)
     \<and> hex_credential (rr_credential_blob r) \<and> some_hex (rr_ek_crl r) \<and> some_hex (rr_intermediate_crl r)
     \<and> rr_chain_checked_utc r = utc (rr_chain_checked_unix r) \<and> some_time (Some (rr_registered_utc r))
     \<and> list_all some_time [rr_ek_crl_this_update_utc r, rr_ek_crl_next_update_utc r,
          rr_intermediate_crl_this_update_utc r, rr_intermediate_crl_next_update_utc r]"

lemma named_ak_length: "named_ak C area name \<Longrightarrow> length name = 34"
  by (auto simp: named_ak_def)

text \<open>
  C35. What \<open>begin\<close> writes is a well-formed pending registration: a valid device id, digests, name
  and secret of their lengths in lower-case hexadecimal, a credential of the tools' layout. From
  such a state every record \<open>complete\<close> can make is a well-formed record of format 2 whose texts of
  instants are those of its numbers.
\<close>

theorem registration_typed:
  assumes "file_store E S" "sizes E" "reg_begin E a w = (Ok out, w')" "reg_get a ''state'' = Ok state"
  shows "\<exists>p json. re_pending_json E p = Ok json \<and> S w' (path_join state (lit ''pending.json'')) = Some json
    \<and> wf_pending p \<and> (\<forall>secret t. wf_reg_record (record_of_pending (c_hash (re_crypto E)) p secret t))"
proof -
  obtain state' d g ek_der int_der root_der area ekc intc t ch ec ic name secret v1 blob v2 json where
    st: "reg_get a ''state'' = Ok state'" and d: "valid_device_id d"
    and ch: "chain_verify (re_x509 E) (c_hash (re_crypto E)) ek_der int_der root_der t = Ok ch"
      "check_ak (re_crypto E) area = Ok name" and sl: "length secret = SECRET_LEN"
    and mk: "make_credential (re_cred E) (ch_ek_public ch) name secret v1 = (Ok blob, v2)"
    and js: "re_pending_json E (pending_of d g t ek_der int_der (ch_root_sha256 ch) ekc ec intc ic area name blob secret) = Ok json"
    and pj: "S w' (path_join state' (lit ''pending.json'')) = Some json"
    by (rule reg_begin_Ok [OF assms(1,3)])
  let ?p = "pending_of d g t ek_der int_der (ch_root_sha256 ch) ekc ec intc ic area name blob secret"
  have sha: "length (ch_root_sha256 ch) = 32" using ch(1) unfolding chain_verify_iff by auto
  have nm: "length name = 34" using ch(2) by (simp add: check_ak_iff named_ak_length)
  obtain c where "parse_file blob = Ok c" using made_credential_parses [OF assms(2) sl mk] by blast
  then have cb: "hex_credential (hex_lower blob)" unfolding parse_file_iff hex_credential_def by blast
  have p: "wf_pending ?p"
    using d sha nm sl cb by (auto simp: wf_pending_def pending_of_def hex_bytes_def hex_array_def)
  moreover have "wf_reg_record (record_of_pending H q s u)" if "wf_pending q" for H q s u
    using that unfolding wf_pending_def wf_reg_record_def
    by (simp add: record_of_pending_def format_holds_def some_hex_def some_time_def hex_array_def [of _ "hex_lower (sha256 H s)"])
       (metis length_sha256)
  ultimately show ?thesis using js pj st assms(4) by auto
qed

lemma registration_typed_witness: "\<exists>p. wf_pending p \<and> re_pending_json rdemo p = Ok (lit ''{}'')"
proof -
  obtain out where b: "reg_begin rdemo rdemo_opts rdemo_disk = (Ok out, rdemo_begun)" using rdemo_begin by blast
  have at: "rdemo_begun (path_join (lit ''reg'') (lit ''pending.json'')) = Some (lit ''{}'')"
    by (simp add: rdemo_begun_def rdemo_files_differ [symmetric] rdemo_paths)
  from registration_typed [OF rdemo_store rdemo_laws(1) b rdemo_get(1)] at show ?thesis by auto
qed

end
