(* ===== verification/Spec2Isabelle.thy ===== *)
theory Spec2Isabelle
  imports StopSystem StopServe AgentProps StopVerifyProps RegSystem
begin

text \<open>
  A model of TactiQ attestation in HOL: the formats that leave a device, the agent that
  produces its attestation envelopes, the service that can stop the device's agent and prove
  it, the registrar that ties a device's key to its chip, and the verifiers of all of them.
  Definitions follow the Rust functions by name and in order; what is not in the sources is a
  parameter. File names below are under \<open>src/\<close>; \<open>crates/attest-appraise/src\<close> and the like are
  shortened to the crate.

  \<^bold>\<open>The program and its parts.\<close> The agent (\<open>crates/prover\<close>) measures the boot state, takes the
  next value of a counter that the TPM keeps, and publishes an envelope: a 93-byte message, a
  quote of the TPM that commits to it, a signature and a bundle of evidence. A verifier
  (\<open>crates/attest-appraise\<close>) authenticates an envelope (gate 1) and appraises it against a
  reference set (gate 3), which may come from a reference integrity manifest. The stop service
  (\<open>crates/stop\<close>) is asked by a gateway before every tool call: the parity of a second TPM
  counter says whether the agent is stopped, an even value lets calls through only with a
  release the operator signed for it, and every refusal is a receipt (\<open>crates/attest-stop\<close>) that
  \<open>attest-appraise/stop.rs\<close> and \<open>tools/stop-verify\<close> check away from the device. The registrar
  (\<open>tools/registrar\<close>) verifies a TPM's endorsement certificate and its revocation, makes a
  credential that only that TPM can open for that attestation key, and records the result.
  \<open>crates/attest-envelope\<close> holds the formats, \<open>crates/attest-tpm\<close> the calls of tpm2-tools.

  \<^bold>\<open>Shared theories.\<close>
  \<^item> \<open>Prelude\<close>, \<open>StrBytes\<close>, \<open>NumText\<close>, \<open>Numerals\<close>, \<open>HexText\<close>: bytes, words, results with an error value
    (\<open>Result<T, String>\<close> is \<open>err + 'a\<close>, \<open>rbind\<close> the operator \<open>?\<close>), big-endian fields, \<open>str\<close> and
    integer text on UTF-8 bytes, which texts spell a number, hexadecimal text.
  \<^item> \<open>Io\<close>: a function that talks to the machine takes a world and gives a result and the world
    after it (\<open>sbind\<close> is \<open>?\<close>); the process, the files and the environment are a record of
    parameters, so every theorem is about any behaviour of them that its hypotheses allow.
  \<^item> \<open>Reader\<close>: the contract of the byte readers as locales (\<open>byte_reader\<close>, \<open>wide_reader\<close>,
    \<open>bounded_reader\<close>), interpreted on the four readers of the sources; \<open>codec\<close> in \<open>Envelope\<close>: the
    contract of a parser and its builder, interpreted on the eight formats.
  \<^item> \<open>PcrBits\<close>: the bitmap of a PCR selection.

  \<^bold>\<open>Formats.\<close>
  \<^item> \<open>Envelope\<close> (\<open>attest-envelope/lib.rs\<close>), \<open>TpmWire\<close> and \<open>EccWire\<close> (\<open>attest-envelope/tpm.rs\<close>: quote,
    NV certify, ECC public area), \<open>StopFormat\<close> and \<open>StopReceipt\<close> (\<open>attest-stop/lib.rs\<close>): records of
    the sources' structures, parsers, builders, digests.
  \<^item> Their lemmas say that a parser accepts exactly the layout of its format and is the inverse of
    the builder (\<open>FormatProps\<close>).

  \<^bold>\<open>Verifier.\<close>
  \<^item> \<open>Verdict\<close> (\<open>evidence.rs\<close>, \<open>verdict.rs\<close>, \<open>reference.rs\<close>), \<open>Gate1\<close>, \<open>Appraisal\<close> (gate 3 and the
    composed check), \<open>Rim\<close>, \<open>StopVerify\<close> (\<open>stop.rs\<close>).
  \<^item> \<open>AppraiseProps\<close>, \<open>RimProps\<close>: each check as an equivalence with what it accepts, the order of
    refusals, the slots and composites of a manifest, and exactly the manifests on which the
    reader panics.
  \<^item> \<open>VerifyProps\<close>: what an accepted receipt or interval establishes; digests keep records,
    challenges and protocols apart, or the two inputs, written out, collide under the hash.
  \<^item> \<open>StopVerifyTool\<close>, \<open>StopVerifyProps\<close> (\<open>tools/stop-verify/src/main.rs\<close>): options, the challenge,
    the reference composite, exit status; the status is exactly the verdict of an accepted
    receipt, and the round trip from the device's \<open>status\<close> to it.

  \<^bold>\<open>Stop service.\<close>
  \<^item> \<open>TpmTools\<close> (\<open>attest-tpm/lib.rs\<close>), \<open>Release\<close>, \<open>StopPort\<close>, \<open>StopCore\<close>, \<open>Http\<close>, \<open>Config\<close>
    (the files of \<open>crates/stop/src\<close> of the same names), \<open>StopService\<close> and \<open>StopServe\<close> (\<open>main.rs\<close>: one
    question, the operator's commands; the start, the loop over connections, the dispatch).
  \<^item> \<open>StopSession\<close>: what a working chip is, and that the service then answers every question with
    a receipt the verifier accepts.
  \<^item> \<open>StopProps\<close>, \<open>StopServe\<close>: admission, transitions, fail-closed answers, every connection
    answered. \<open>StopSystem\<close>: the counter, the store and the operator's signatures as one step
    relation with everything an attacker on the device may do; a stop holds in every reachable
    state. \<open>FormatProps\<close>, \<open>ToolProps\<close>: the request reader, its digest,
    the attributes of the counters, the selection of PCRs. \<open>ConfigLines\<close>: a gateway configuration
    as lines with dashes, quotes and comments, and that the guard reads exactly their settings.

  \<^bold>\<open>Agent.\<close>
  \<^item> \<open>AgentState\<close> (\<open>prover/state.rs\<close>), \<open>Agent\<close> (\<open>prover/main.rs\<close>): identity, provisioning, counter
    allocation, publication, pruning, the service loop.
  \<^item> \<open>AgentCounter\<close>: the TPM's counter as a measure of the world that only its increment moves;
    counters increase over any history of cycles, failures and restarts.
  \<^item> \<open>AgentProvision\<close>: what provisioning asks before it changes anything, and the order in which key
    and id come to be.
  \<^item> \<open>CrashDisk\<close>, \<open>AgentCrash\<close>: a disk with a cache that may lose what was not synced, and the states
    publication can leave behind. \<open>AgentProps\<close>: the properties, among them that what a cycle
    publishes passes gate 1.

  \<^bold>\<open>Registrar.\<close>
  \<^item> \<open>Civil\<close> (the date of \<open>main.rs\<close>), \<open>Chain\<close>, \<open>Crl\<close>, \<open>MakeCred\<close>, \<open>RegSignature\<close>, \<open>Registrar\<close> (the files of
    \<open>tools/registrar/src\<close>): the certificate chain, revocation lists, the credential and its file,
    the signature of a record, the three commands.
  \<^item> Each check has a specification and an equivalence: \<open>chain_holds\<close>, \<open>not_revoked\<close>,
    \<open>wf_credential\<close>, \<open>record_signed\<close>; \<open>RegRecord\<close> composes them to \<open>record_holds\<close>, what \<open>verify\<close>
    accepts of a record.
  \<^item> \<open>RegProps\<close>: the calendar, the derived keys, the credential opened by the chip. \<open>RegSystem\<close>: the
    commands over a store of files: a wrong answer changes nothing, what \<open>begin\<close> and \<open>complete\<close>
    write is what \<open>verify\<close> accepts, and the well-formedness of what is written.

  \<^bold>\<open>Instances.\<close> \<open>Demo\<close>, \<open>AgentDemo\<close> and \<open>RegDemo\<close> are concrete machines, chips, certificates and
  stores; the witnesses of the properties run on them, so every hypothesis about a parameter can
  hold. They model nothing of the sources.

  \<^bold>\<open>Parameters and what is assumed of them.\<close> SHA-256, ECDSA, the P-256 curve, RSA, AES-CFB, HMAC,
  OAEP, the X.509, DER, CMS and JSON parsers, the TPM behind tpm2-tools, the file system, the
  clock and the random generator are outside the sources. No property assumes that a hash or an
  HMAC has no collision: it says which two inputs then collide. A digest and an HMAC value are words of
  256 bits, so that their length needs no assumption. Where a property needs the behaviour of a
  parameter, the hypothesis names it: \<open>works\<close> and \<open>quiet\<close> (the chip), \<open>nv_tools\<close> and \<open>quiet_files\<close>
  (tools and files of the agent), \<open>identity_disk\<close> (its provisioning), \<open>file_store\<close>, \<open>sizes\<close>, \<open>codecs\<close> (the registrar's).

  \<^bold>\<open>Bounds and loops.\<close> Words have the width of the code and wrap as it does (\<open>as u16\<close> truncates in
  \<open>len16\<close>); where an integer is unbounded here, the text of its theory says why no value leaves its
  type. There is no fuel for the program's own loops: they are structural or have a measure. The
  loops that may not end take their events as a list (\<open>read_loop\<close>, \<open>lock_loop\<close>, \<open>serve_loop\<close>) or a
  number of cycles (\<open>run_loop\<close>), and \<open>None\<close> is a loop still waiting when the events are used up;
  \<open>service_answers\<close> says when it is not.

  \<^bold>\<open>Not modelled.\<close> Text on the console and standard error, except what a command's answer is; the
  wording of \<open>recreate_hint\<close>; sockets, the pause after a failed accept and the sleep between cycles;
  the name of a scratch directory; what a command printed before a late error; the serde carrier
  \<open>AttestedMessage\<close>; the sources' unit tests, except \<open>activate_in_software\<close>, the code's own model of
  the chip, which says what a credential is for.
\<close>

end
